(* ===== verification/Prelude.thy ===== *)
theory Prelude
  imports Complex_Main "HOL-Library.Sublist" "HOL-Library.Word"
begin

text \<open>
  What every component shares: the collections its lemmas are put into, result types for
  fallible code (\<open>'e + 'a\<close>, \<open>Inl\<close> the error), generic facts on lists, options and
  maps, and the text fragments error messages are made of.
\<close>

section \<open>Collections\<close>

named_theorems go_str \<open>facts on Go strings: prefixes, suffixes, splitting, joining\<close>
named_theorems trace_simps \<open>what one primitive call appends to the call history\<close>
named_theorems cause_simps \<open>code and cause of the errors the handlers build\<close>
named_theorems body_simps \<open>what a response writer holds after an operation\<close>

section \<open>Results\<close>

fun isOk :: "'e + 'a \<Rightarrow> bool" where
  "isOk (Inl _) = False"
| "isOk (Inr _) = True"

lemma isOk_iff: "isOk r \<longleftrightarrow> (\<exists>x. r = Inr x)"
  by (cases r) auto

text \<open>The first value that is there: how a traversal of an error tree stops.\<close>

fun first_some :: "'a option list \<Rightarrow> 'a option" where
  "first_some [] = None"
| "first_some (Some x # _) = Some x"
| "first_some (None # xs) = first_some xs"

section \<open>Lists\<close>

lemma set_drop_append [simp]: "set (drop (length xs) (xs @ ys)) = set ys"
  by simp

lemma filter_singleton_iff:
  "filter P xs = [x] \<Longrightarrow> x \<in> set xs \<and> P x"
proof -
  assume "filter P xs = [x]"
  then have "x \<in> set (filter P xs)" by simp
  then show ?thesis by simp
qed

lemma distinct_map_filter_subset:
  "distinct (map f xs) \<Longrightarrow> distinct (map f (filter P xs))"
  by (rule distinct_map_filter)

text \<open>Removing position \<open>i\<close> from a list, as Go's \<open>append(s[:i], s[i+1:]...)\<close> does.\<close>

definition remove_at :: "nat \<Rightarrow> 'a list \<Rightarrow> 'a list" where
  "remove_at i xs = take i xs @ drop (Suc i) xs"

lemma length_remove_at: "i < length xs \<Longrightarrow> length (remove_at i xs) = length xs - 1"
  by (simp add: remove_at_def)

lemma insert_remove_at: "i < length xs \<Longrightarrow> set xs = insert (xs ! i) (set (remove_at i xs))"
  by (metis id_take_nth_drop list.simps(15) remove_at_def set_append Un_insert_right)

lemma distinct_remove_at:
  assumes "distinct xs" and "i < length xs"
  shows "distinct (remove_at i xs)" and "xs ! i \<notin> set (remove_at i xs)"
proof -
  have "distinct (take i xs @ xs ! i # drop (Suc i) xs)"
    using assms by (metis id_take_nth_drop)
  then show "distinct (remove_at i xs)" and "xs ! i \<notin> set (remove_at i xs)"
    by (auto simp: remove_at_def)
qed

section \<open>Maps\<close>

text \<open>Go's \<open>for k, v := range b { a[k] = v }\<close>: \<open>b\<close> written over \<open>a\<close>.\<close>

definition map_merge :: "('k \<rightharpoonup> 'v) \<Rightarrow> ('k \<rightharpoonup> 'v) \<Rightarrow> ('k \<rightharpoonup> 'v)" where
  "map_merge a b = a ++ b"

lemma map_merge_apply: "map_merge a b k = (case b k of None \<Rightarrow> a k | Some v \<Rightarrow> Some v)"
  by (simp add: map_merge_def map_add_def)

lemma map_merge_empty [simp]: "map_merge a Map.empty = a"
  by (simp add: map_merge_def)

lemma map_merge_keeps: "b k = None \<Longrightarrow> map_merge a b k = a k"
  by (simp add: map_merge_apply)

section \<open>Message text\<close>

text \<open>
  The text of an error is a list of fragments, so that \<open>fmt.Errorf\<close>'s quoting verbs
  need no rendering: \<open>Str s\<close> is literal text or a \<open>%s\<close> argument, \<open>Quo s\<close> a
  \<open>%q\<close> one, \<open>Quos\<close> a \<open>%q\<close> of a list, \<open>Dec\<close> a \<open>%d\<close>.
\<close>

datatype frag = Str string | Quo string | Quos "string list" | Dec int

type_synonym msg = "frag list"

text \<open>A \<open>'%s'\<close> argument between single quotes.\<close>

definition single_quoted :: "string \<Rightarrow> msg" where
  "single_quoted s = [Str [char_of (39::nat)], Str s, Str [char_of (39::nat)]]"

end
