(* ===== verification/GoString.thy ===== *)
theory GoString
  imports Prelude
begin

text \<open>
  Go strings are byte sequences, so they are HOL's \<open>string\<close> (a list of 8-bit \<open>char\<close>s),
  and \<open>len\<close> is \<open>length\<close>. This theory defines the operations of package \<open>strings\<close>
  the program uses, and the UTF-8 decoding behind \<open>[]rune(s)\<close>, \<open>TrimSpace\<close>,
  \<open>Fields\<close> and \<open>unicode.IsSpace\<close>. Case mapping (\<open>ToLower\<close>, \<open>ToUpper\<close>,
  \<open>EqualFold\<close>) is written for the ASCII letters, the only ones the program's own
  constants have; other bytes are left as they are.
\<close>

section \<open>Prefixes, suffixes, searching\<close>

definition has_prefix :: "string \<Rightarrow> string \<Rightarrow> bool" where
  "has_prefix s p \<longleftrightarrow> take (length p) s = p"

definition has_suffix :: "string \<Rightarrow> string \<Rightarrow> bool" where
  "has_suffix s p \<longleftrightarrow> length p \<le> length s \<and> drop (length s - length p) s = p"

definition trim_prefix :: "string \<Rightarrow> string \<Rightarrow> string" where
  "trim_prefix s p = (if has_prefix s p then drop (length p) s else s)"

lemma has_prefix_iff [go_str]: "has_prefix s p \<longleftrightarrow> (\<exists>t. s = p @ t)"
  unfolding has_prefix_def by (metis append_eq_conv_conj append_take_drop_id)

lemma has_suffix_iff [go_str]: "has_suffix s p \<longleftrightarrow> (\<exists>t. s = t @ p)"
proof
  assume "has_suffix s p"
  then have "s = take (length s - length p) s @ p"
    unfolding has_suffix_def by (metis append_take_drop_id)
  then show "\<exists>t. s = t @ p" ..
qed (auto simp: has_suffix_def)

lemma has_suffix_append [simp]: "has_suffix (t @ p) p"
  by (auto simp: has_suffix_iff)

lemma has_prefix_append [simp]: "has_prefix (p @ t) p"
  by (auto simp: has_prefix_iff)

text \<open>Two suffixes of one string end alike, so the last character of each agrees.\<close>

lemma has_suffix_last:
  "has_suffix s p \<Longrightarrow> p \<noteq> [] \<Longrightarrow> last s = last p"
  by (auto simp: has_suffix_iff)

text \<open>\<open>strings.IndexByte\<close>: \<open>None\<close> is its \<open>-1\<close>.\<close>

fun index_byte :: "string \<Rightarrow> char \<Rightarrow> nat option" where
  "index_byte [] c = None"
| "index_byte (x # xs) c = (if x = c then Some 0 else map_option Suc (index_byte xs c))"

lemma index_byte_None: "index_byte s c = None \<longleftrightarrow> c \<notin> set s"
  by (induction s) auto

lemma index_byte_Some:
  "index_byte s c = Some i \<Longrightarrow> i < length s \<and> s ! i = c \<and> c \<notin> set (take i s)"
  by (induction s arbitrary: i) (auto split: if_splits)

fun contains_sub :: "string \<Rightarrow> string \<Rightarrow> bool" where
  "contains_sub [] p \<longleftrightarrow> p = []"
| "contains_sub (x # xs) p \<longleftrightarrow> has_prefix (x # xs) p \<or> contains_sub xs p"

lemma contains_sub_single [simp]: "contains_sub s [c] \<longleftrightarrow> c \<in> set s"
  by (induction s) (auto simp: has_prefix_def)

section \<open>Splitting and joining\<close>

text \<open>\<open>strings.Split\<close> at a one-byte separator, \<open>strings.Cut\<close>, \<open>strings.Join\<close>.\<close>

fun split_byte :: "char \<Rightarrow> string \<Rightarrow> string list" where
  "split_byte c [] = [[]]"
| "split_byte c (x # xs) =
     (if x = c then [] # split_byte c xs
      else (case split_byte c xs of [] \<Rightarrow> [[x]] | y # ys \<Rightarrow> (x # y) # ys))"

fun cut_byte :: "char \<Rightarrow> string \<Rightarrow> (string \<times> string) option" where
  "cut_byte c [] = None"
| "cut_byte c (x # xs) =
     (if x = c then Some ([], xs)
      else map_option (\<lambda>(a, b). (x # a, b)) (cut_byte c xs))"

fun join :: "string \<Rightarrow> string list \<Rightarrow> string" where
  "join sep [] = []"
| "join sep [x] = x"
| "join sep (x # y # ys) = x @ sep @ join sep (y # ys)"

lemma cut_byte_iff: "cut_byte c s = Some (a, b) \<longleftrightarrow> s = a @ c # b \<and> c \<notin> set a"
proof (induction s arbitrary: a)
  case (Cons x xs)
  show ?case
  proof (cases a)
    case Nil
    then show ?thesis by auto
  next
    case (Cons y ys)
    with Cons.IH [of ys] show ?thesis by auto
  qed
qed simp

lemma split_byte_ne [simp]: "split_byte c s \<noteq> []"
  by (induction s) (auto split: list.splits)

lemma split_byte_no_sep: "x \<in> set (split_byte c s) \<Longrightarrow> c \<notin> set x"
  by (induction s arbitrary: x) (auto split: if_splits list.splits)

lemma split_byte_none: "c \<notin> set s \<Longrightarrow> split_byte c s = [s]"
  by (induction s) auto

lemma split_byte_append:
  "c \<notin> set x \<Longrightarrow> split_byte c (x @ c # s) = x # split_byte c s"
  by (induction x) auto

lemma join_split_byte [go_str]: "join [c] (split_byte c s) = s"
proof (induction s)
  case (Cons x xs)
  obtain y ys where y: "split_byte c xs = y # ys"
    using split_byte_ne by (meson neq_Nil_conv)
  show ?case
    using Cons.IH y by (cases ys) auto
qed simp

lemma split_byte_join [go_str]:
  "xs \<noteq> [] \<Longrightarrow> \<forall>x\<in>set xs. c \<notin> set x \<Longrightarrow> split_byte c (join [c] xs) = xs"
proof (induction "[c]" xs rule: join.induct)
  case (2 x)
  then show ?case by (simp add: split_byte_none)
next
  case (3 x y ys)
  then show ?case by (simp add: split_byte_append)
qed simp

lemma join_eq_Nil: "join [c] xs = [] \<longleftrightarrow> xs = [] \<or> xs = [[]]"
  by (induction "[c]" xs rule: join.induct) auto

lemma cut_byte_Some:
  "cut_byte c s = Some (a, b) \<Longrightarrow> s = a @ c # b \<and> c \<notin> set a"
  by (induction s arbitrary: a b) (auto split: if_splits)

lemma cut_byte_None: "cut_byte c s = None \<longleftrightarrow> c \<notin> set s"
  by (induction s) auto

section \<open>UTF-8\<close>

type_synonym rune = nat

definition rune_error :: rune where
  "rune_error = 0xFFFD"

definition is_cont :: "nat \<Rightarrow> nat \<Rightarrow> nat \<Rightarrow> bool" where
  "is_cont lo hi b \<longleftrightarrow> lo \<le> b \<and> b \<le> hi"

text \<open>
  \<open>utf8.DecodeRune\<close> on the bytes' values: the rune and its width. An invalid or short
  sequence is \<open>RuneError\<close> with width 1.
\<close>

definition decode2 :: "nat \<Rightarrow> nat list \<Rightarrow> rune \<times> nat" where
  "decode2 b0 bs = (case bs of
     b1 # _ \<Rightarrow> if is_cont 0x80 0xBF b1 then ((b0 - 0xC0) * 64 + (b1 - 0x80), 2) else (rune_error, 1)
   | [] \<Rightarrow> (rune_error, 1))"

definition decode3 :: "nat \<Rightarrow> nat list \<Rightarrow> rune \<times> nat" where
  "decode3 b0 bs = (case bs of
     b1 # b2 # _ \<Rightarrow>
       if is_cont (if b0 = 0xE0 then 0xA0 else 0x80) (if b0 = 0xED then 0x9F else 0xBF) b1
          \<and> is_cont 0x80 0xBF b2
       then ((b0 - 0xE0) * 4096 + (b1 - 0x80) * 64 + (b2 - 0x80), 3) else (rune_error, 1)
   | _ \<Rightarrow> (rune_error, 1))"

definition decode4 :: "nat \<Rightarrow> nat list \<Rightarrow> rune \<times> nat" where
  "decode4 b0 bs = (case bs of
     b1 # b2 # b3 # _ \<Rightarrow>
       if is_cont (if b0 = 0xF0 then 0x90 else 0x80) (if b0 = 0xF4 then 0x8F else 0xBF) b1
          \<and> is_cont 0x80 0xBF b2 \<and> is_cont 0x80 0xBF b3
       then ((b0 - 0xF0) * 262144 + (b1 - 0x80) * 4096 + (b2 - 0x80) * 64 + (b3 - 0x80), 4)
       else (rune_error, 1)
   | _ \<Rightarrow> (rune_error, 1))"

definition decode_rune :: "nat \<Rightarrow> nat list \<Rightarrow> rune \<times> nat" where
  "decode_rune b0 bs =
     (if b0 < 0x80 then (b0, 1)
      else if 0xC2 \<le> b0 \<and> b0 \<le> 0xDF then decode2 b0 bs
      else if 0xE0 \<le> b0 \<and> b0 \<le> 0xEF then decode3 b0 bs
      else if 0xF0 \<le> b0 \<and> b0 \<le> 0xF4 then decode4 b0 bs
      else (rune_error, 1))"

definition byte_of :: "char \<Rightarrow> nat" where
  "byte_of c = of_char c"

text \<open>A string cut into its runes, each with the bytes it was decoded from.\<close>

function rune_cuts :: "string \<Rightarrow> (rune \<times> string) list" where
  "rune_cuts [] = []"
| "rune_cuts (c # cs) =
     (let d = decode_rune (byte_of c) (map byte_of cs)
      in (fst d, take (snd d) (c # cs)) # rune_cuts (drop (snd d - 1) cs))"
  by pat_completeness auto
termination by (relation "measure length") auto

definition runes :: "string \<Rightarrow> rune list" where
  "runes s = map fst (rune_cuts s)"

lemma decode_rune_width: "0 < snd (decode_rune b bs)"
  by (auto simp: decode_rune_def decode2_def decode3_def decode4_def split: list.splits)

text \<open>The cuts are a partition of the string: nothing is lost or reordered.\<close>

lemma rune_cuts_concat: "concat (map snd (rune_cuts s)) = s"
proof (induction s rule: rune_cuts.induct)
  case (2 c cs)
  obtain n where n: "snd (decode_rune (byte_of c) (map byte_of cs)) = Suc n"
    using decode_rune_width by (metis gr0_implies_Suc)
  with 2 show ?case by (simp add: Let_def)
qed simp

definition is_ascii :: "string \<Rightarrow> bool" where
  "is_ascii s \<longleftrightarrow> (\<forall>c\<in>set s. byte_of c < 0x80)"

lemma rune_cuts_ascii: "is_ascii s \<Longrightarrow> rune_cuts s = map (\<lambda>c. (byte_of c, [c])) s"
  by (induction s) (auto simp: is_ascii_def decode_rune_def)

lemma runes_ascii: "is_ascii s \<Longrightarrow> runes s = map byte_of s"
  by (simp add: runes_def rune_cuts_ascii o_def)

text \<open>\<open>unicode.IsSpace\<close>: Unicode's White_Space property.\<close>

definition is_space :: "rune \<Rightarrow> bool" where
  "is_space r \<longleftrightarrow> r \<in> {0x09, 0x0A, 0x0B, 0x0C, 0x0D, 0x20, 0x85, 0xA0, 0x1680,
     0x2000, 0x2001, 0x2002, 0x2003, 0x2004, 0x2005, 0x2006, 0x2007, 0x2008, 0x2009,
     0x200A, 0x2028, 0x2029, 0x202F, 0x205F, 0x3000}"

definition contains_space :: "string \<Rightarrow> bool" where
  "contains_space s \<longleftrightarrow> list_ex is_space (runes s)"

definition trim_space :: "string \<Rightarrow> string" where
  "trim_space s = concat (map snd
     (rev (dropWhile (is_space \<circ> fst) (rev (dropWhile (is_space \<circ> fst) (rune_cuts s))))))"

text \<open>\<open>strings.Fields\<close>: the maximal runs of runes that are not white space.\<close>

fun fields_acc :: "(rune \<times> string) list \<Rightarrow> string \<Rightarrow> string list" where
  "fields_acc [] cur = (if cur = [] then [] else [cur])"
| "fields_acc ((r, bs) # xs) cur =
     (if is_space r then (if cur = [] then fields_acc xs [] else cur # fields_acc xs [])
      else fields_acc xs (cur @ bs))"

definition fields :: "string \<Rightarrow> string list" where
  "fields s = fields_acc (rune_cuts s) []"

section \<open>ASCII case mapping\<close>

definition ascii_lower :: "char \<Rightarrow> char" where
  "ascii_lower c = (if 65 \<le> byte_of c \<and> byte_of c \<le> 90 then char_of (byte_of c + 32) else c)"

definition ascii_upper :: "char \<Rightarrow> char" where
  "ascii_upper c = (if 97 \<le> byte_of c \<and> byte_of c \<le> 122 then char_of (byte_of c - 32) else c)"

definition to_lower :: "string \<Rightarrow> string" where
  "to_lower = map ascii_lower"

definition to_upper :: "string \<Rightarrow> string" where
  "to_upper = map ascii_upper"

definition equal_fold :: "string \<Rightarrow> string \<Rightarrow> bool" where
  "equal_fold a b \<longleftrightarrow> to_lower a = to_lower b"

lemma byte_of_lt: "byte_of c < 256"
  by (simp add: byte_of_def)

lemma byte_of_char_of: "n < 256 \<Longrightarrow> byte_of (char_of n) = n"
  by (simp add: byte_of_def)

lemma ascii_lower_idem [simp]: "ascii_lower (ascii_lower c) = ascii_lower c"
  by (auto simp: ascii_lower_def byte_of_char_of)

lemma ascii_upper_idem [simp]: "ascii_upper (ascii_upper c) = ascii_upper c"
  by (auto simp: ascii_upper_def byte_of_char_of)

lemma to_lower_idem [simp]: "to_lower (to_lower s) = to_lower s"
  by (simp add: to_lower_def)

lemma to_upper_idem [simp]: "to_upper (to_upper s) = to_upper s"
  by (simp add: to_upper_def)

lemma length_to_lower [simp]: "length (to_lower s) = length s"
  by (simp add: to_lower_def)

lemma to_lower_append: "to_lower (a @ b) = to_lower a @ to_lower b"
  by (simp add: to_lower_def)

section \<open>Decimal text\<close>

text \<open>\<open>strconv.Itoa\<close> and \<open>%d\<close>.\<close>

fun nat_digits :: "nat \<Rightarrow> string" where
  "nat_digits n =
     (if n < 10 then [char_of (48 + n)] else nat_digits (n div 10) @ [char_of (48 + n mod 10)])"

declare nat_digits.simps [simp del]

definition itoa :: "int \<Rightarrow> string" where
  "itoa i = (if i < 0 then CHR ''-'' # nat_digits (nat (- i)) else nat_digits (nat i))"

lemma itoa_2: "itoa 2 = ''2''"
  by (simp add: itoa_def nat_digits.simps char_of_def bit_simps)

end
