(* ===== verification/UserInfo.thy ===== *)
theory UserInfo
  imports GoString
begin

text \<open>
  Package \<open>internal/helpers/userinfo\<close>: the authenticated identity (\<open>DefaultUser\<close>, the only
  implementation of \<open>Info\<close>), its extensions, and the guard on reserved groups. A group
  under \<open>krateo:loa:\<close> is authn's to grant: every identity built from an identity source
  drops it, and only \<open>NewStepUpUser\<close> adds one.
\<close>

section \<open>Extensions\<close>

text \<open>\<open>map[string][]string\<close>; a nil map reads as the empty one.\<close>

type_synonym extensions = "string \<rightharpoonup> string list"

definition ext_values :: "extensions \<Rightarrow> string \<Rightarrow> string list" where
  "ext_values x k = (case x k of None \<Rightarrow> [] | Some vs \<Rightarrow> vs)"

definition ext_add :: "extensions \<Rightarrow> string \<Rightarrow> string \<Rightarrow> extensions" where
  "ext_add x k v = x(k \<mapsto> ext_values x k @ [v])"

definition ext_set :: "extensions \<Rightarrow> string \<Rightarrow> string \<Rightarrow> extensions" where
  "ext_set x k v = x(k \<mapsto> [v])"

definition ext_del :: "extensions \<Rightarrow> string \<Rightarrow> extensions" where
  "ext_del x k = x(k := None)"

definition ext_get :: "extensions \<Rightarrow> string \<Rightarrow> string" where
  "ext_get x k = (case ext_values x k of [] \<Rightarrow> '''' | v # _ \<Rightarrow> v)"

definition ext_has :: "extensions \<Rightarrow> string \<Rightarrow> bool" where
  "ext_has x k \<longleftrightarrow> x k \<noteq> None"

lemma ext_get_add:
  "ext_get (ext_add x k v) j = (if j = k \<and> ext_values x k = [] then v else ext_get x j)"
  by (auto simp: ext_get_def ext_add_def ext_values_def split: list.splits option.splits)

section \<open>Reserved groups\<close>

definition ReservedGroupPrefix :: string where
  "ReservedGroupPrefix = ''krateo:loa:''"

definition StepUpGroup :: "int \<Rightarrow> string" where
  "StepUpGroup level = ReservedGroupPrefix @ itoa level"

definition is_reserved :: "string \<Rightarrow> bool" where
  "is_reserved g \<longleftrightarrow> has_prefix g ReservedGroupPrefix"

text \<open>The loop of \<open>withoutReserved\<close>: kept and dropped groups, in order.\<close>

fun without_reserved :: "string list \<Rightarrow> string list \<times> string list" where
  "without_reserved [] = ([], [])"
| "without_reserved (g # gs) =
     (let (kept, dropped) = without_reserved gs
      in if is_reserved g then (kept, g # dropped) else (g # kept, dropped))"

lemma without_reserved_eq:
  "without_reserved gs = (filter (\<lambda>g. \<not> is_reserved g) gs, filter is_reserved gs)"
  by (induction gs) auto

lemma StepUpGroup_reserved [simp]: "is_reserved (StepUpGroup n)"
  by (simp add: is_reserved_def StepUpGroup_def)

section \<open>DefaultUser\<close>

record user =
  u_name :: string
  u_id :: string
  u_groups :: "string list"
  u_extensions :: extensions
  u_dropped :: "string list"

definition set_groups :: "user \<Rightarrow> string list \<Rightarrow> user" where
  "set_groups d gs =
     d\<lparr>u_groups := fst (without_reserved gs), u_dropped := snd (without_reserved gs)\<rparr>"

definition set_user_name :: "user \<Rightarrow> string \<Rightarrow> user" where
  "set_user_name d n = d\<lparr>u_name := n\<rparr>"

definition set_id :: "user \<Rightarrow> string \<Rightarrow> user" where
  "set_id d i = d\<lparr>u_id := i\<rparr>"

definition set_extensions :: "user \<Rightarrow> extensions \<Rightarrow> user" where
  "set_extensions d x = d\<lparr>u_extensions := x\<rparr>"

definition new_default_user ::
  "string \<Rightarrow> string \<Rightarrow> string list \<Rightarrow> extensions \<Rightarrow> user" where
  "new_default_user name uid groups exts =
     set_groups \<lparr>u_name = name, u_id = uid, u_groups = [], u_extensions = exts, u_dropped = []\<rparr>
       groups"

definition new_step_up_user :: "user \<Rightarrow> int \<Rightarrow> user" where
  "new_step_up_user base level =
     \<lparr>u_name = u_name base, u_id = u_id base, u_groups = u_groups base @ [StepUpGroup level],
      u_extensions = u_extensions base, u_dropped = u_dropped base\<rparr>"

text \<open>An identity no source could have given authority to: it holds no reserved group.\<close>

definition unprivileged :: "user \<Rightarrow> bool" where
  "unprivileged u \<longleftrightarrow> (\<forall>g\<in>set (u_groups u). \<not> is_reserved g)"

lemma set_groups_simps [simp]:
  "u_groups (set_groups d gs) = filter (\<lambda>g. \<not> is_reserved g) gs"
  "u_dropped (set_groups d gs) = filter is_reserved gs"
  "u_name (set_groups d gs) = u_name d"
  "u_id (set_groups d gs) = u_id d"
  "u_extensions (set_groups d gs) = u_extensions d"
  by (simp_all add: set_groups_def without_reserved_eq)

lemma new_default_user_simps [simp]:
  "u_groups (new_default_user n i gs x) = filter (\<lambda>g. \<not> is_reserved g) gs"
  "u_dropped (new_default_user n i gs x) = filter is_reserved gs"
  "u_name (new_default_user n i gs x) = n"
  "u_id (new_default_user n i gs x) = i"
  "u_extensions (new_default_user n i gs x) = x"
  by (simp_all add: new_default_user_def)

lemma new_step_up_user_simps [simp]:
  "u_groups (new_step_up_user b l) = u_groups b @ [StepUpGroup l]"
  "u_name (new_step_up_user b l) = u_name b"
  "u_dropped (new_step_up_user b l) = u_dropped b"
  "u_id (new_step_up_user b l) = u_id b"
  "u_extensions (new_step_up_user b l) = u_extensions b"
  by (simp_all add: new_step_up_user_def)

section \<open>The Info interface\<close>

text \<open>
  What the issuer relies on of any \<open>userinfo.Info\<close>: its groups are those set on it less the
  reserved ones, which are reported, and the setters leave the other fields alone.
\<close>

locale info =
  fixes get_name :: "'i \<Rightarrow> string"
    and set_name :: "'i \<Rightarrow> string \<Rightarrow> 'i"
    and get_groups :: "'i \<Rightarrow> string list"
    and put_groups :: "'i \<Rightarrow> string list \<Rightarrow> 'i"
    and get_dropped :: "'i \<Rightarrow> string list"
  assumes groups_kept: "get_groups (put_groups d gs) = filter (\<lambda>g. \<not> is_reserved g) gs"
    and groups_dropped: "get_dropped (put_groups d gs) = filter is_reserved gs"
    and name_set: "get_name (set_name d n) = n"
    and name_groups: "get_name (put_groups d gs) = get_name d"
    and groups_name: "get_groups (set_name d n) = get_groups d"
begin

lemma no_reserved: "g \<in> set (get_groups (put_groups d gs)) \<Longrightarrow> \<not> is_reserved g"
  by (simp add: groups_kept)

lemma nothing_lost:
  "set (get_groups (put_groups d gs)) \<union> set (get_dropped (put_groups d gs)) = set gs"
  by (auto simp: groups_kept groups_dropped)

lemma set_again: "get_groups (put_groups d (get_groups (put_groups d gs))) = get_groups (put_groups d gs)"
  by (simp add: groups_kept)

lemma rename_keeps_guard:
  "g \<in> set (get_groups (set_name (put_groups d gs) n)) \<Longrightarrow> \<not> is_reserved g"
  by (simp add: groups_name no_reserved)

end

interpretation default_user: info u_name set_user_name u_groups set_groups u_dropped
  by unfold_locales (simp_all add: set_user_name_def)

section \<open>Properties\<close>

lemma new_default_user_unprivileged [simp]: "unprivileged (new_default_user n i gs x)"
  by (simp add: unprivileged_def)

text \<open>
  No identity source can assert an assurance level: whatever groups a login is given, the
  identity built from them holds no reserved group, keeps every other group in order, and
  reports exactly the ones it dropped. Setting the groups again cannot bring one back.
\<close>

lemma sources_cannot_assert_reserved:
  "unprivileged (new_default_user n i gs x)
   \<and> u_groups (new_default_user n i gs x) = filter (\<lambda>g. \<not> is_reserved g) gs
   \<and> set (u_groups (new_default_user n i gs x)) \<union> set (u_dropped (new_default_user n i gs x)) = set gs
   \<and> unprivileged (set_user_name (set_groups d gs) m)"
  using default_user.nothing_lost [of d gs] default_user.rename_keeps_guard [of _ d gs m]
  by (auto simp: unprivileged_def)

text \<open>
  A step-up adds exactly one reserved group to an identity a source built, the one of its
  level, after the groups it had, and changes nothing else of it.
\<close>

lemma step_up_adds_one_level:
  "filter is_reserved (u_groups (new_step_up_user (new_default_user n i gs x) l)) = [StepUpGroup l]
   \<and> filter (\<lambda>g. \<not> is_reserved g) (u_groups (new_step_up_user (new_default_user n i gs x) l))
       = u_groups (new_default_user n i gs x)
   \<and> u_name (new_step_up_user (new_default_user n i gs x) l) = n
   \<and> u_dropped (new_step_up_user (new_default_user n i gs x) l) = filter is_reserved gs"
  by (simp add: filter_empty_conv)

end
