(* ===== verification/GoTime.thy ===== *)
theory GoTime
  imports Prelude
begin

text \<open>
  Package \<open>time\<close>. An instant is the number of nanoseconds since the Unix epoch and a
  duration a number of nanoseconds; both are \<open>int\<close>, with Go's \<open>int64\<close> limits written
  out where Go wraps (\<open>time.Unix\<close>) or saturates (\<open>Sub\<close>, \<open>Add\<close>). The monotonic reading
  of \<open>time.Now\<close> plays no part: every instant it is compared with here was parsed or
  computed. \<open>float64\<close> products of a duration are computed exactly, with their rounding.
\<close>

type_synonym time = int
type_synonym duration = int

definition wrap64 :: "int \<Rightarrow> int" where
  "wrap64 x = (x + 2 ^ 63) mod 2 ^ 64 - 2 ^ 63"

definition clamp64 :: "int \<Rightarrow> int" where
  "clamp64 x = max (- (2 ^ 63)) (min (2 ^ 63 - 1) x)"

abbreviation second :: duration where "second \<equiv> 1000000000"
abbreviation minute :: duration where "minute \<equiv> 60 * second"
abbreviation hour :: duration where "hour \<equiv> 60 * minute"

text \<open>Seconds from year 1, which \<open>time.Time\<close> counts from, to 1970; the zero \<open>Time\<close>.\<close>

definition unix_to_internal :: int where
  "unix_to_internal = 62135596800"

definition zero_time :: time where
  "zero_time = - unix_to_internal * second"

definition time_is_zero :: "time \<Rightarrow> bool" where
  "time_is_zero t \<longleftrightarrow> t = zero_time"

definition time_unix :: "int \<Rightarrow> time" where
  "time_unix s = (wrap64 (s + unix_to_internal) - unix_to_internal) * second"

definition time_add :: "time \<Rightarrow> duration \<Rightarrow> time" where
  "time_add t d =
     (let u = t + d; ext = u div second + unix_to_internal
      in if ext > 2 ^ 63 - 1 then (2 ^ 63 - 1 - unix_to_internal) * second + u mod second
         else if ext < - (2 ^ 63 - 1) then (- (2 ^ 63 - 1) - unix_to_internal) * second + u mod second
         else u)"

definition time_sub :: "time \<Rightarrow> time \<Rightarrow> duration" where
  "time_sub t u = clamp64 (t - u)"

lemma wrap64_id: "- (2 ^ 63) \<le> x \<Longrightarrow> x < 2 ^ 63 \<Longrightarrow> wrap64 x = x"
  by (simp add: wrap64_def)

text \<open>Instants a calendar can hold: within about 290 million years of 1970.\<close>

definition plausible :: "time \<Rightarrow> bool" where
  "plausible t \<longleftrightarrow> \<bar>t\<bar> < 2 ^ 62 * second"

lemma time_add_plain:
  assumes "plausible t" and "\<bar>d\<bar> < 2 ^ 63"
  shows "time_add t d = t + d"
proof -
  have "\<bar>t + d\<bar> < (2 ^ 62 + 2 ^ 34) * second"
    using assms by (auto simp: plausible_def abs_less_iff)
  then have "- (2 ^ 63 - 1) \<le> (t + d) div second + unix_to_internal"
    and "(t + d) div second + unix_to_internal \<le> 2 ^ 63 - 1"
    by (simp_all add: abs_less_iff unix_to_internal_def) linarith+
  then show ?thesis
    by (simp add: time_add_def Let_def)
qed

lemma time_sub_plain: "\<bar>t - u\<bar> < 2 ^ 63 \<Longrightarrow> time_sub t u = t - u"
  unfolding time_sub_def clamp64_def by linarith

lemma time_sub_le_iff:
  "- (2 ^ 63) \<le> d \<Longrightarrow> d < 2 ^ 63 - 1 \<Longrightarrow> time_sub t u \<le> d \<longleftrightarrow> t - u \<le> d"
  unfolding time_sub_def clamp64_def by linarith

lemma time_sub_less: "d < 2 ^ 63 \<Longrightarrow> time_sub t u < d \<Longrightarrow> t - u < d"
  unfolding time_sub_def clamp64_def by linarith

section \<open>\<open>float64\<close> products\<close>

text \<open>
  A positive \<open>float64\<close> factor is \<open>m / 2 ^ k\<close> with \<open>m < 2 ^ 53\<close>. Rounding is to
  nearest, ties to even: \<open>rne n s\<close> is \<open>n / 2 ^ s\<close> so rounded. The values that occur
  are normal numbers: no overflow, no subnormals.
\<close>

type_synonym f64 = "nat \<times> nat"

fun bit_len :: "nat \<Rightarrow> nat" where
  "bit_len n = (if n = 0 then 0 else Suc (bit_len (n div 2)))"

declare bit_len.simps [simp del]

definition rne :: "nat \<Rightarrow> nat \<Rightarrow> nat" where
  "rne n s =
     (if s = 0 then n
      else let q = n div 2 ^ s; r = n mod 2 ^ s; h = 2 ^ (s - 1)
           in if h < r \<or> (r = h \<and> odd q) then q + 1 else q)"

text \<open>\<open>n\<close> rounded to 53 significant bits.\<close>

definition round53 :: "nat \<Rightarrow> nat" where
  "round53 n = rne n (bit_len n - 53) * 2 ^ (bit_len n - 53)"

text \<open>\<open>time.Duration(float64(d) * f)\<close> for a non-negative \<open>d\<close>.\<close>

definition scale :: "f64 \<Rightarrow> duration \<Rightarrow> duration" where
  "scale f d = (case f of (m, k) \<Rightarrow> int (round53 (round53 (nat d) * m) div 2 ^ k))"

lemma bit_len_bounds: "0 < n \<Longrightarrow> 2 ^ (bit_len n - 1) \<le> n \<and> n < 2 ^ bit_len n"
proof (induction n rule: bit_len.induct)
  case (1 n)
  show ?case
  proof (cases "n div 2 = 0")
    case True
    with "1.prems" have "n = 1" by simp
    then show ?thesis by (simp add: bit_len.simps)
  next
    case False
    with "1.prems" "1.IH" have ih: "2 ^ (bit_len (n div 2) - 1) \<le> n div 2"
        "n div 2 < 2 ^ bit_len (n div 2)"
      by auto
    from False obtain b where b: "bit_len (n div 2) = Suc b"
      by (metis bit_len.simps)
    with "1.prems" have "bit_len n = Suc (Suc b)"
      by (simp add: bit_len.simps [of n])
    with ih b show ?thesis by simp linarith
  qed
qed

lemma bit_len_le: "n < 2 ^ b \<Longrightarrow> bit_len n \<le> b"
proof (rule ccontr)
  assume n: "n < 2 ^ b" and "\<not> bit_len n \<le> b"
  then have b: "b \<le> bit_len n - 1" "bit_len n \<noteq> 0" by auto
  then have "0 < n" by (metis bit_len.simps gr0I)
  then have "2 ^ (bit_len n - 1) \<le> n" using bit_len_bounds by blast
  moreover have "(2::nat) ^ b \<le> 2 ^ (bit_len n - 1)"
    using b(1) by (rule power_increasing) simp
  ultimately show False using n by linarith
qed

lemma round53_exact: "n < 2 ^ 53 \<Longrightarrow> round53 n = n"
  using bit_len_le [of n 53] by (simp add: round53_def rne_def)

text \<open>Rounding errs by at most half a unit of the last place kept.\<close>

lemma rne_error: "rne n s * 2 ^ s \<le> n + 2 ^ (s - 1)"
proof (cases "s = 0")
  case False
  define q r h where "q = n div 2 ^ s" and "r = n mod 2 ^ s" and "h = (2::nat) ^ (s - 1)"
  have p: "(2::nat) ^ s = 2 * h" using False by (cases s) (auto simp: h_def)
  have n: "n = q * 2 ^ s + r" unfolding q_def r_def by (simp only: div_mult_mod_eq)
  have e: "rne n s = (if h < r \<or> (r = h \<and> odd q) then q + 1 else q)"
    using False by (simp add: rne_def Let_def q_def r_def h_def)
  have "rne n s * 2 ^ s \<le> (q * 2 ^ s + r) + h"
    unfolding e p by (simp split: if_split)
  then show ?thesis by (simp only: n [symmetric] h_def)
qed (simp add: rne_def)

lemma round53_error: "2 ^ 53 * round53 n \<le> (2 ^ 53 + 1) * n"
proof (cases "bit_len n \<le> 53")
  case True
  then show ?thesis by (simp add: round53_def rne_def)
next
  case False
  define s where "s = bit_len n - 53"
  have s: "bit_len n - 1 = s - 1 + 53" "s \<noteq> 0" using False by (auto simp: s_def)
  have "n \<noteq> 0" using False by (metis bit_len.simps zero_le)
  then have "2 ^ (s - 1) * 2 ^ 53 \<le> n"
    using bit_len_bounds [of n] s(1) by (simp add: power_add)
  then show ?thesis
    using rne_error [of n s] by (simp add: round53_def s_def [symmetric])
qed

text \<open>
  A factor below one by at least two units in the last place never scales a duration
  above itself, however the two roundings fall.
\<close>

definition proper_fraction :: "f64 \<Rightarrow> bool" where
  "proper_fraction f \<longleftrightarrow> (case f of (m, k) \<Rightarrow> 2 ^ 51 * m \<le> (2 ^ 51 - 1) * 2 ^ k)"

lemma scale_bounds:
  assumes "0 \<le> d" and "proper_fraction f"
  shows "0 \<le> scale f d" and "scale f d \<le> d"
proof -
  obtain m k where f: "f = (m, k)" by (cases f)
  define n where "n = nat d"
  define l where "l = round53 n"
  define r where "r = round53 (l * m)"
  have m: "2 ^ 51 * m \<le> (2 ^ 51 - 1) * 2 ^ k"
    using assms(2) by (simp add: proper_fraction_def f)
  have "2 ^ 53 * r \<le> (2 ^ 53 + 1) * (l * m)"
    unfolding r_def by (rule round53_error)
  then have "2 ^ 53 * (2 ^ 53 * r) \<le> (2 ^ 53 + 1) * (2 ^ 53 * l) * m"
    by (simp add: algebra_simps)
  also have "\<dots> \<le> (2 ^ 53 + 1) * ((2 ^ 53 + 1) * n) * m"
    unfolding l_def by (intro mult_le_mono1 mult_le_mono2 round53_error)
  finally have "2 ^ 51 * (2 ^ 53 * (2 ^ 53 * r)) \<le> (2 ^ 53 + 1) * ((2 ^ 53 + 1) * n) * (2 ^ 51 * m)"
    by (simp add: algebra_simps)
  also have "\<dots> \<le> (2 ^ 53 + 1) * ((2 ^ 53 + 1) * n) * ((2 ^ 51 - 1) * 2 ^ k)"
    using m by (intro mult_le_mono2)
  also have "\<dots> \<le> 2 ^ 51 * (2 ^ 53 * (2 ^ 53 * (n * 2 ^ k)))"
    by (simp add: algebra_simps)
  finally have "r \<le> n * 2 ^ k" by simp
  then have "r div 2 ^ k \<le> n"
    by (metis div_le_mono nonzero_mult_div_cancel_right power_not_zero zero_neq_numeral)
  then show "0 \<le> scale f d" and "scale f d \<le> d"
    using assms(1) by (simp_all add: scale_def f r_def l_def n_def)
qed

end
