(* ===== verification/GoError.thy ===== *)
theory GoError
  imports GoString
begin

text \<open>
  Go's \<open>error\<close> values: the concrete error types the program builds or inspects, with the
  chain \<open>Unwrap\<close> follows. \<open>errors.As\<close>, \<open>errors.Is\<close> and the Kubernetes predicates
  (\<open>apierrors.IsNotFound\<close>, ...) are searches of that chain.
\<close>

text \<open>The status reason an apiserver error carries (\<open>metav1.StatusReason\<close>).\<close>

datatype api_reason = ReasonNotFound | ReasonAlreadyExists | ReasonConflict | ReasonOther string

text \<open>The result codes of go-ldap the program tells apart.\<close>

datatype ldap_code =
    LDAPResultInvalidCredentials | LDAPResultInappropriateAuthentication
  | LDAPResultUnwillingToPerform | ErrorEmptyPassword | ErrorNetwork | LdapOther int

datatype gerr =
    Err msg                              \<comment> \<open>\<open>errors.New\<close>, or \<open>fmt.Errorf\<close> without \<open>%w\<close>\<close>
  | Sentinel string                      \<comment> \<open>a package variable compared with \<open>errors.Is\<close>, by its text\<close>
  | Wrap msg gerr msg                    \<comment> \<open>\<open>fmt.Errorf\<close> with \<open>%w\<close>: text before, cause, text after\<close>
  | Joined "gerr list"                   \<comment> \<open>\<open>errors.Join\<close>\<close>
  | ApiErr api_reason string             \<comment> \<open>\<open>*apierrors.StatusError\<close>\<close>
  | CauseE int string gerr "gerr option" \<comment> \<open>\<open>status.CauseError\<close>: code, cause, answered, private\<close>
  | Malformed int msg                    \<comment> \<open>\<open>*decode.MalformedRequest\<close>\<close>
  | SnowplowE int string string          \<comment> \<open>\<open>*restaction.SnowplowError\<close>: code, reason, message\<close>
  | LdapE ldap_code string                     \<comment> \<open>\<open>*ldap.Error\<close>: result code, text\<close>
  | RetrieveE "int option" string        \<comment> \<open>\<open>*oauth2.RetrieveError\<close>: status of the response if any, error code\<close>

text \<open>\<open>err.Error()\<close>.\<close>

fun err_text :: "gerr \<Rightarrow> msg" where
  "err_text (Err m) = m"
| "err_text (Sentinel s) = [Str s]"
| "err_text (Wrap pre e post) = pre @ err_text e @ post"
| "err_text (Joined es) = tl (concat (map (\<lambda>e. Str [char_of (10::nat)] # err_text e) es))"
| "err_text (ApiErr _ s) = [Str s]"
| "err_text (CauseE _ _ e _) = err_text e"
| "err_text (Malformed _ m) = m"
| "err_text (SnowplowE c r m) = [Str ''snowplow answered '', Dec c, Str '' '', Str r, Str '': '', Str m]"
| "err_text (LdapE _ s) = [Str s]"
| "err_text (RetrieveE _ s) = [Str s]"

text \<open>
  The chain in the order \<open>errors.As\<close> and \<open>errors.Is\<close> visit it: the error, then what it
  unwraps to, depth first. The private reason of a \<open>CauseError\<close> is not in it.
\<close>

fun err_chain :: "gerr \<Rightarrow> gerr list" where
  "err_chain (Wrap pre e post) = Wrap pre e post # err_chain e"
| "err_chain (Joined es) = Joined es # concat (map err_chain es)"
| "err_chain (CauseE c t e p) = CauseE c t e p # err_chain e"
| "err_chain e = [e]"

fun the_cause :: "gerr \<Rightarrow> (int \<times> string \<times> gerr \<times> gerr option) option" where
  "the_cause (CauseE c t e p) = Some (c, t, e, p)"
| "the_cause _ = None"

fun the_api :: "gerr \<Rightarrow> api_reason option" where
  "the_api (ApiErr r _) = Some r"
| "the_api _ = None"

definition as_cause :: "gerr \<Rightarrow> (int \<times> string \<times> gerr \<times> gerr option) option" where
  "as_cause e = first_some (map the_cause (err_chain e))"

definition as_api :: "gerr \<Rightarrow> api_reason option" where
  "as_api e = first_some (map the_api (err_chain e))"

definition err_is :: "gerr \<Rightarrow> string \<Rightarrow> bool" where
  "err_is e s \<longleftrightarrow> Sentinel s \<in> set (err_chain e)"

definition is_not_found :: "gerr \<Rightarrow> bool" where
  "is_not_found e \<longleftrightarrow> as_api e = Some ReasonNotFound"

definition is_conflict :: "gerr \<Rightarrow> bool" where
  "is_conflict e \<longleftrightarrow> as_api e = Some ReasonConflict"

definition is_already_exists :: "gerr \<Rightarrow> bool" where
  "is_already_exists e \<longleftrightarrow> as_api e = Some ReasonAlreadyExists"

lemma as_cause_CauseE [simp]: "as_cause (CauseE c t e p) = Some (c, t, e, p)"
  by (simp add: as_cause_def)

lemma as_cause_Wrap [simp]: "as_cause (Wrap pre e post) = as_cause e"
  by (simp add: as_cause_def)

lemma as_cause_plain [simp]:
  "as_cause (Err m) = None" "as_cause (Sentinel s) = None" "as_cause (ApiErr r x) = None"
  by (simp_all add: as_cause_def)

lemma is_not_found_ApiErr [simp]: "is_not_found (ApiErr r s) \<longleftrightarrow> r = ReasonNotFound"
  by (simp add: is_not_found_def as_api_def)

lemma is_not_found_Wrap [simp]: "is_not_found (Wrap pre e post) = is_not_found e"
  by (simp add: is_not_found_def as_api_def)

lemma is_not_found_plain [simp]: "\<not> is_not_found (Err m)" "\<not> is_not_found (Sentinel s)"
  by (simp_all add: is_not_found_def as_api_def)

lemma err_is_Sentinel [simp]: "err_is (Sentinel s) t \<longleftrightarrow> s = t"
  by (auto simp: err_is_def)

lemma err_is_Wrap [simp]: "err_is (Wrap pre e post) t \<longleftrightarrow> err_is e t"
  by (auto simp: err_is_def)

lemma err_is_leaf [simp]: "\<not> err_is (Err m) t" "\<not> err_is (ApiErr r s) t"
  by (simp_all add: err_is_def)

end
