(* ===== verification/Status.thy ===== *)
theory Status
  imports GoError
begin

text \<open>
  Package \<open>internal/status\<close>: the \<open>Status\<close> body of an answer (\<open>New\<close>, \<open>WithCause\<close>,
  \<open>FromError\<close>), the \<open>CauseError\<close> constructors that say whose failure it is, and what
  \<open>LogFailure\<close> puts into the log event.
\<close>

section \<open>Status bodies\<close>

type_synonym cause = string

text \<open>\<open>StatusReason\<close> and its constants; a reason is answered as its name, an unknown one as nothing.\<close>

datatype status_reason =
  StatusReasonUnknown
| StatusReasonUnauthorized
| StatusReasonForbidden
| StatusReasonNotFound
| StatusReasonConflict
| StatusReasonGone
| StatusReasonInvalid
| StatusReasonTimeout
| StatusReasonTooManyRequests
| StatusReasonBadRequest
| StatusReasonMethodNotAllowed
| StatusReasonNotAcceptable
| StatusReasonRequestEntityTooLarge
| StatusReasonUnsupportedMediaType
| StatusReasonInternalError
| StatusReasonServiceUnavailable

fun reason_text :: "status_reason \<Rightarrow> string" where
  "reason_text StatusReasonUnknown = ''''"
| "reason_text StatusReasonUnauthorized = ''Unauthorized''"
| "reason_text StatusReasonForbidden = ''Forbidden''"
| "reason_text StatusReasonNotFound = ''NotFound''"
| "reason_text StatusReasonConflict = ''Conflict''"
| "reason_text StatusReasonGone = ''Gone''"
| "reason_text StatusReasonInvalid = ''Invalid''"
| "reason_text StatusReasonTimeout = ''Timeout''"
| "reason_text StatusReasonTooManyRequests = ''TooManyRequests''"
| "reason_text StatusReasonBadRequest = ''BadRequest''"
| "reason_text StatusReasonMethodNotAllowed = ''MethodNotAllowed''"
| "reason_text StatusReasonNotAcceptable = ''NotAcceptable''"
| "reason_text StatusReasonRequestEntityTooLarge = ''RequestEntityTooLarge''"
| "reason_text StatusReasonUnsupportedMediaType = ''UnsupportedMediaType''"
| "reason_text StatusReasonInternalError = ''InternalError''"
| "reason_text StatusReasonServiceUnavailable = ''ServiceUnavailable''"

record status_cause =
  sc_type :: cause
  sc_message :: msg

record status =
  st_kind :: string
  st_api_version :: string
  st_status :: string
  st_message :: msg
  st_reason :: status_reason
  st_code :: int
  st_details :: "status_cause list option"

definition StatusSuccess :: string where "StatusSuccess = ''Success''"
definition StatusFailure :: string where "StatusFailure = ''Failure''"

definition CauseIssuanceFailed :: cause where "CauseIssuanceFailed = ''IssuanceFailed''"
definition CauseMissingConfigName :: cause where "CauseMissingConfigName = ''MissingConfigName''"
definition CauseMissingAuthorizationCode :: cause where
  "CauseMissingAuthorizationCode = ''MissingAuthorizationCode''"
definition CauseInvalidRequestBody :: cause where "CauseInvalidRequestBody = ''InvalidRequestBody''"

text \<open>The \<open>switch code\<close> of \<open>New\<close>: the status word and the reason of each HTTP code.\<close>

definition status_word_reason :: "int \<Rightarrow> string \<times> status_reason" where
  "status_word_reason code =
     (if code = 400 then (StatusFailure, StatusReasonBadRequest)
      else if code = 401 then (StatusFailure, StatusReasonUnauthorized)
      else if code = 403 then (StatusFailure, StatusReasonForbidden)
      else if code = 404 then (StatusFailure, StatusReasonNotFound)
      else if code = 409 then (StatusFailure, StatusReasonConflict)
      else if code = 410 then (StatusFailure, StatusReasonGone)
      else if code = 501 then (StatusFailure, StatusReasonInvalid)
      else if code = 503 then (StatusFailure, StatusReasonServiceUnavailable)
      else if code = 406 then (StatusFailure, StatusReasonNotAcceptable)
      else if code = 405 then (StatusFailure, StatusReasonMethodNotAllowed)
      else if code = 500 then (StatusFailure, StatusReasonInternalError)
      else if code = 413 then (StatusFailure, StatusReasonRequestEntityTooLarge)
      else if code = 415 then (StatusFailure, StatusReasonUnsupportedMediaType)
      else (if 200 \<le> code \<and> code \<le> 299 then StatusSuccess else StatusFailure, StatusReasonUnknown))"

definition status_new :: "int \<Rightarrow> gerr option \<Rightarrow> status" where
  "status_new code err =
     \<lparr>st_kind = ''Status'', st_api_version = ''v1'',
      st_status = fst (status_word_reason code),
      st_message = (case err of None \<Rightarrow> [] | Some e \<Rightarrow> err_text e),
      st_reason = snd (status_word_reason code),
      st_code = code, st_details = None\<rparr>"

definition with_cause :: "status \<Rightarrow> cause \<Rightarrow> msg \<Rightarrow> status" where
  "with_cause s t m = s\<lparr>st_details := Some [\<lparr>sc_type = t, sc_message = m\<rparr>]\<rparr>"

section \<open>Errors with a cause\<close>

definition bad_request :: "cause \<Rightarrow> gerr \<Rightarrow> gerr" where
  "bad_request c e = CauseE 400 c e None"

definition refused :: "cause \<Rightarrow> gerr \<Rightarrow> gerr" where
  "refused c e = CauseE 403 c e None"

definition refused_privately :: "cause \<Rightarrow> gerr \<Rightarrow> gerr \<Rightarrow> gerr" where
  "refused_privately c pub priv = CauseE 403 c pub (Some priv)"

definition failed :: "cause \<Rightarrow> gerr \<Rightarrow> gerr" where
  "failed c e = CauseE 500 c e None"

definition from_error :: "gerr \<Rightarrow> status" where
  "from_error err =
     (case as_cause err of
        None \<Rightarrow> status_new 500 (Some err)
      | Some (code, cause, e, _) \<Rightarrow> with_cause (status_new code (Some err)) cause (err_text e))"

lemma from_error_CauseE [cause_simps]:
  "from_error (CauseE c t e p) = with_cause (status_new c (Some e)) t (err_text e)"
  by (simp add: from_error_def status_new_def)

lemma st_code_new [simp]: "st_code (status_new c e) = c"
  by (simp add: status_new_def)

lemma st_code_with_cause [simp]: "st_code (with_cause s t m) = st_code s"
  by (simp add: with_cause_def)

lemma st_status_with_cause [simp]: "st_status (with_cause s t m) = st_status s"
  by (simp add: with_cause_def)

lemma st_code_from_error [cause_simps]:
  "st_code (from_error (refused c e)) = 403"
  "st_code (from_error (refused_privately c e p)) = 403"
  "st_code (from_error (failed c e)) = 500"
  "st_code (from_error (bad_request c e)) = 400"
  by (simp_all add: refused_def refused_privately_def failed_def bad_request_def from_error_CauseE)

text \<open>The cause a client reads: \<open>details.causes[0].reason\<close>.\<close>

definition status_cause_of :: "status \<Rightarrow> cause option" where
  "status_cause_of s = (case st_details s of Some (c # _) \<Rightarrow> Some (sc_type c) | _ \<Rightarrow> None)"

lemma status_cause_of_from_error [cause_simps]:
  "status_cause_of (from_error (CauseE c t e p)) = Some t"
  by (simp add: from_error_CauseE with_cause_def status_cause_of_def)

section \<open>What is logged\<close>

datatype log_level = LogWarn | LogError

record log_event =
  le_level :: log_level
  le_err :: gerr
  le_code :: int
  le_cause :: "cause option"
  le_reason :: "gerr option"

definition log_failure :: "gerr \<Rightarrow> log_event" where
  "log_failure err =
     (let st = from_error err
      in \<lparr>le_level = (if st_code st < 500 then LogWarn else LogError),
          le_err = err, le_code = st_code st,
          le_cause = (case st_details st of Some (c # _) \<Rightarrow> Some (sc_type c) | _ \<Rightarrow> None),
          le_reason = (case as_cause err of Some (_, _, _, p) \<Rightarrow> p | None \<Rightarrow> None)\<rparr>)"

section \<open>Properties\<close>

text \<open>
  A reason other than the unknown one names one code; a 422, a 429 and a 504, which the constants
  describe, are answered with no reason.
\<close>

lemma reason_names_code:
  "snd (status_word_reason c) = snd (status_word_reason d) \<Longrightarrow>
     snd (status_word_reason c) \<noteq> StatusReasonUnknown \<Longrightarrow> c = d"
  by (auto simp: status_word_reason_def split: if_splits)

lemma codes_without_reason:
  "list_all (\<lambda>c. status_word_reason c = (StatusFailure, StatusReasonUnknown)) [422, 429, 504]"
  by (simp add: status_word_reason_def)

lemma reason_text_inj: "reason_text r = reason_text q \<Longrightarrow> r = q"
  by (cases r; cases q) simp_all

lemma status_word_iff:
  "fst (status_word_reason c) = StatusSuccess \<longleftrightarrow> 200 \<le> c \<and> c \<le> 299"
  by (simp add: status_word_reason_def StatusSuccess_def StatusFailure_def)

text \<open>
  Whatever the code, a Status says Success exactly for a 2xx and carries the code it was
  made with; an error with a cause is answered with that cause's code and its reason as the
  only detail, and an error with none as authn's own 500 with no details.
\<close>

lemma status_success_iff_2xx:
  "(st_status (status_new c e) = StatusSuccess \<longleftrightarrow> 200 \<le> c \<and> c \<le> 299)
   \<and> st_code (status_new c e) = c
   \<and> (case as_cause err of
        None \<Rightarrow> st_code (from_error err) = 500 \<and> status_cause_of (from_error err) = None
      | Some (code, t, cause, p) \<Rightarrow> st_code (from_error err) = code
          \<and> status_cause_of (from_error err) = Some t \<and> st_message (from_error err) = err_text err)"
  by (auto simp: status_new_def status_word_iff from_error_def with_cause_def status_cause_of_def
      split: option.splits)

text \<open>
  The private reason never reaches the answer: two causes that differ only in it, however
  they are wrapped, are answered by the same Status, and the log event of each carries its own.
\<close>

lemma private_reason_not_answered:
  "from_error (Wrap pre (CauseE c t e p) post) = from_error (Wrap pre (CauseE c t e q) post)
   \<and> from_error (CauseE c t e p) = from_error (CauseE c t e q)
   \<and> le_reason (log_failure (Wrap pre (CauseE c t e p) post)) = p"
  by (simp add: from_error_def log_failure_def status_new_def Let_def)

end
