(* ===== verification/GoHttp.thy ===== *)
theory GoHttp
  imports Status
begin

text \<open>
  What the handlers use of \<open>net/http\<close>: the request, the header map with its canonical keys,
  and the response writer, on which the header is frozen by the first \<open>WriteHeader\<close> and a
  \<open>Write\<close> without one answers 200.
\<close>

section \<open>Headers\<close>

definition is_token_byte :: "char \<Rightarrow> bool" where
  "is_token_byte c \<longleftrightarrow>
     (let b = byte_of c
      in (97 \<le> b \<and> b \<le> 122) \<or> (65 \<le> b \<and> b \<le> 90) \<or> (48 \<le> b \<and> b \<le> 57)
         \<or> b \<in> {33, 35, 36, 37, 38, 39, 42, 43, 45, 46, 94, 95, 96, 124, 126})"

text \<open>\<open>http.CanonicalHeaderKey\<close>: a key that is not a token is left as it is.\<close>

fun canon_bytes :: "bool \<Rightarrow> string \<Rightarrow> string" where
  "canon_bytes up [] = []"
| "canon_bytes up (c # cs) =
     (if up then ascii_upper c else ascii_lower c) # canon_bytes (c = CHR ''-'') cs"

definition canonical_key :: "string \<Rightarrow> string" where
  "canonical_key s = (if list_all is_token_byte s then canon_bytes True s else s)"

type_synonym headers = "string \<rightharpoonup> string list"

definition header_get :: "headers \<Rightarrow> string \<Rightarrow> string" where
  "header_get h k = (case h (canonical_key k) of Some (v # _) \<Rightarrow> v | _ \<Rightarrow> '''')"

definition header_set :: "headers \<Rightarrow> string \<Rightarrow> string \<Rightarrow> headers" where
  "header_set h k v = h(canonical_key k \<mapsto> [v])"

definition header_add :: "headers \<Rightarrow> string \<Rightarrow> string \<Rightarrow> headers" where
  "header_add h k v =
     h(canonical_key k \<mapsto> (case h (canonical_key k) of None \<Rightarrow> [] | Some vs \<Rightarrow> vs) @ [v])"

section \<open>Requests\<close>

text \<open>
  \<open>rq_basic\<close> is the result of \<open>Request.BasicAuth\<close>, \<open>rq_query\<close> that of \<open>URL.Query\<close>.
\<close>

record request =
  rq_method :: string
  rq_path :: string
  rq_query :: "string \<rightharpoonup> string list"
  rq_header :: headers
  rq_basic :: "(string \<times> string) option"
  rq_body :: string

definition query_get :: "request \<Rightarrow> string \<Rightarrow> string" where
  "query_get r k = (case rq_query r k of Some (v # _) \<Rightarrow> v | _ \<Rightarrow> '''')"

definition query_has :: "request \<Rightarrow> string \<Rightarrow> bool" where
  "query_has r k \<longleftrightarrow> rq_query r k \<noteq> None"

section \<open>The response writer\<close>

text \<open>
  \<open>rw_sent\<close> is the status line and header as they went out; \<open>rw_body\<close> the values written,
  each the Go value handed to the encoder. Polymorphic in the body.
\<close>

record 'b writer =
  rw_header :: headers
  rw_sent :: "(int \<times> headers) option"
  rw_body :: "'b list"

definition fresh_writer :: "'b writer" where
  "fresh_writer = \<lparr>rw_header = Map.empty, rw_sent = None, rw_body = []\<rparr>"

definition set_header :: "'b writer \<Rightarrow> string \<Rightarrow> string \<Rightarrow> 'b writer" where
  "set_header w k v = w\<lparr>rw_header := header_set (rw_header w) k v\<rparr>"

definition add_header :: "'b writer \<Rightarrow> string \<Rightarrow> string \<Rightarrow> 'b writer" where
  "add_header w k v = w\<lparr>rw_header := header_add (rw_header w) k v\<rparr>"

definition write_header :: "'b writer \<Rightarrow> int \<Rightarrow> 'b writer" where
  "write_header w code =
     (case rw_sent w of None \<Rightarrow> w\<lparr>rw_sent := Some (code, rw_header w)\<rparr> | Some _ \<Rightarrow> w)"

definition write_body :: "'b writer \<Rightarrow> 'b \<Rightarrow> 'b writer" where
  "write_body w b = (write_header w 200)\<lparr>rw_body := rw_body w @ [b]\<rparr>"

text \<open>The status code a client sees: a handler that never writes answers 200.\<close>

definition answer_code :: "'b writer \<Rightarrow> int" where
  "answer_code w = (case rw_sent w of None \<Rightarrow> 200 | Some (c, _) \<Rightarrow> c)"

definition unanswered :: "'b writer \<Rightarrow> bool" where
  "unanswered w \<longleftrightarrow> rw_sent w = None \<and> rw_body w = []"

text \<open>Answered once: one status line and one body value.\<close>

definition answered_once :: "'b writer \<Rightarrow> bool" where
  "answered_once w \<longleftrightarrow> rw_sent w \<noteq> None \<and> length (rw_body w) = 1"

lemma set_header_sent [body_simps]:
  "rw_sent (set_header w k v) = rw_sent w" "rw_body (set_header w k v) = rw_body w"
  by (simp_all add: set_header_def)

lemma add_header_sent [body_simps]:
  "rw_sent (add_header w k v) = rw_sent w" "rw_body (add_header w k v) = rw_body w"
  by (simp_all add: add_header_def)

lemma write_header_body [body_simps]: "rw_body (write_header w c) = rw_body w"
  by (simp add: write_header_def split: option.splits)

lemma write_header_sent [body_simps]:
  "rw_sent w = None \<Longrightarrow> rw_sent (write_header w c) = Some (c, rw_header w)"
  by (simp add: write_header_def)

lemma write_header_first [body_simps]: "rw_sent w \<noteq> None \<Longrightarrow> write_header w c = w"
  by (auto simp: write_header_def)

lemma write_body_body [body_simps]: "rw_body (write_body w b) = rw_body w @ [b]"
  by (simp add: write_body_def)

lemma write_body_sent [body_simps]: "rw_sent (write_body w b) = rw_sent (write_header w 200)"
  by (simp add: write_body_def)

lemma unanswered_fresh [simp]: "unanswered fresh_writer"
  by (simp add: unanswered_def fresh_writer_def)

lemma header_get_set_same [simp]: "header_get (header_set h k v) k = v"
  by (simp add: header_get_def header_set_def)

lemma header_get_set_other:
  "canonical_key j \<noteq> canonical_key k \<Longrightarrow> header_get (header_set h k v) j = header_get h j"
  by (simp add: header_get_def header_set_def)

end
