(* ===== verification/World.thy ===== *)
theory World
  imports UserInfo GoTime GoHttp
begin

text \<open>
  The world outside the program: the Kubernetes apiserver, the certificate and token
  libraries, the clock, the environment. None of it is under src/, so it is a parameter: a
  record \<open>world\<close> of answers. Each call the program makes is appended to a history of
  \<open>call\<close>s, and an answer may depend on the whole history before it, so the world may change
  between two calls in any way. What the program did is then the history it leaves, and the
  safety properties are statements about it.
\<close>

section \<open>Kubernetes objects\<close>

record selector =
  sel_name :: string
  sel_namespace :: string
  sel_key :: string

record obj_ref =
  ref_name :: string
  ref_namespace :: string

text \<open>\<open>corev1.Secret\<close>: metadata, \<open>Data\<close> and \<open>StringData\<close>.\<close>

record secret =
  sec_name :: string
  sec_namespace :: string
  sec_uid :: string
  sec_version :: string
  sec_annotations :: "string \<rightharpoonup> string"
  sec_data :: "string \<rightharpoonup> string"
  sec_string_data :: "string \<rightharpoonup> string"

text \<open>\<open>basic/v1alpha1.User\<close>.\<close>

record user_cr =
  cr_name :: string
  cr_password_ref :: "selector option"
  cr_display_name :: string
  cr_avatar_url :: string
  cr_groups :: "string list"

text \<open>\<open>serviceaccount/v1alpha1.ServiceAccount\<close>.\<close>

record sa_cr =
  sa_name :: string
  sa_ref :: "obj_ref option"
  sa_groups :: "string list"
  sa_display_name :: string

text \<open>\<open>authenticationv1.TokenReviewStatus\<close>.\<close>

record token_review =
  tr_authenticated :: bool
  tr_error :: string
  tr_audiences :: "string list"
  tr_username :: string

text \<open>
  \<open>certificatesv1.CertificateSigningRequest\<close>, as far as the program fills or reads it.
\<close>

record csr =
  csr_name :: string
  csr_uid :: string
  csr_generate_name :: string
  csr_user_id :: string
  csr_request :: string
  csr_signer :: string
  csr_usages :: "string list"
  csr_seconds :: int
  csr_conditions :: "string list"

text \<open>The fields the program reads of a parsed \<open>x509.Certificate\<close>.\<close>

record cert =
  ct_common_name :: string
  ct_organization :: "string list"
  ct_not_before :: time
  ct_not_after :: time

text \<open>\<open>jwtutil.CreateTokenOptions\<close> (plumbing), the key aside.\<close>

record token_opts =
  jo_username :: string
  jo_groups :: "string list"
  jo_duration :: duration
  jo_key_id :: string

text \<open>\<open>plumbing/signup.Options\<close>, the REST config aside.\<close>

record signup_opts =
  so_namespace :: string
  so_ca_data :: string
  so_server_url :: string
  so_duration :: duration
  so_username :: string
  so_groups :: "string list"

text \<open>\<open>core.Graphics\<close>.\<close>

record graphics =
  gr_icon :: string
  gr_display_name :: string
  gr_background :: string
  gr_text_color :: string

text \<open>\<open>oidc/v1alpha1.OIDCStepUp\<close> and \<open>OIDCConfig\<close>.\<close>

record step_up_spec =
  sp_acr_values :: "string list"
  sp_max_age :: "duration option"
  sp_ttl :: "duration option"

record oidc_cr =
  oc_name :: string
  oc_discovery_url :: string
  oc_issuer :: string
  oc_authorization_url :: string
  oc_token_url :: string
  oc_user_info_url :: string
  oc_redirect_uri :: string
  oc_client_id :: string
  oc_client_secret :: "selector option"
  oc_additional_scopes :: string
  oc_allowed_groups :: "string list"
  oc_step_up :: "step_up_spec option"
  oc_rest_action_ref :: "obj_ref option"
  oc_graphics :: "graphics option"

text \<open>\<open>ldap/v1alpha1.LDAPGroupSearch\<close> and \<open>LDAPConfig\<close>.\<close>

record group_search =
  gs_base_dn :: string
  gs_filter :: string
  gs_name_attribute :: string

record ldap_cr =
  lc_name :: string
  lc_dial_url :: string
  lc_bind_dn :: "string option"
  lc_bind_secret :: "selector option"
  lc_base_dn :: string
  lc_tls :: "bool option"
  lc_group_search :: "group_search option"
  lc_graphics :: "graphics option"

text \<open>\<open>oauth/v1alpha1.OAuthConfig\<close>; the secret reference is never nil in a stored object.\<close>

record oauth_cr =
  oa_name :: string
  oa_client_id :: string
  oa_client_secret_ref :: selector
  oa_auth_url :: string
  oa_token_url :: string
  oa_redirect_url :: string
  oa_scopes :: "string list"
  oa_rest_action_ref :: "obj_ref option"
  oa_graphics :: "graphics option"

text \<open>\<open>oauth2.Config\<close> and the fields the program reads of \<open>oauth2.Token\<close>.\<close>

record oauth_config =
  of_client_id :: string
  of_client_secret :: string
  of_redirect_url :: string
  of_scopes :: "string list"
  of_auth_url :: string
  of_token_url :: string

record oauth_token =
  ot_access_token :: string
  ot_token_type :: string

text \<open>
  An LDAP search request, and an entry of its result with go-ldap's two accessors: the first
  value of the attribute of exactly that name, and of one equal to it up to case, each empty
  when there is none.
\<close>

record ldap_search =
  ls_base :: string
  ls_filter :: string
  ls_attributes :: "string list"

record ldap_entry =
  le_dn :: string
  le_attr :: "string \<Rightarrow> string"
  le_attr_fold :: "string \<Rightarrow> string"

text \<open>
  Snowplow's \<open>RESTAction\<close>: the endpoint reference of each API stage is all the program
  touches; \<open>ra_rest\<close> is the remainder of the spec, which it copies as it is.
\<close>

record rest_action =
  ra_name :: string
  ra_namespace :: string
  ra_version :: string
  ra_api :: "obj_ref option list"
  ra_rest :: string

text \<open>The modulus and the exponent of an \<open>rsa.PublicKey\<close>.\<close>

record rsa_public =
  rsa_n :: nat
  rsa_e :: nat

text \<open>A decoded JSON value; a number is the \<open>float64\<close> it decodes to, as a rational.\<close>

datatype json =
    JNull | JBool bool | JNum rat | JStr string | JArr "json list"
  | JObj "(string \<times> json) list"

section \<open>Calls\<close>

datatype call =
    CUserGet string string
  | CSAList string
  | CSAGet string string
  | CSecretGet string string
  | CSecretList string
  | CSecretCreate secret
  | CSecretUpdate secret
  | CSecretDelete string string "(string \<times> string) option" \<comment> \<open>namespace, name, UID and resourceVersion preconditions\<close>
  | CConfigMapGet string string
  | CTokenReview string "string list"
  | CGenKey
  | CCsrCreate csr
  | CCsrApprove csr
  | CCsrWait string string
  | CCsrDelete string
  | CSignup signup_opts
  | CSign token_opts
  | CNow
  | CNewId
  | CHttp string string "(string \<times> string) list" string     \<comment> \<open>method, URL, headers, body\<close>
  | CUserList string
  | COidcGet string string
  | COidcList string
  | CLdapGet string string
  | CLdapList string
  | COAuthGet string string
  | COAuthList string
  | CRandom
  | CExchange oauth_config string "string option"            \<comment> \<open>configuration, code, PKCE verifier\<close>
  | CLdapDial string
  | CLdapStartTLS
  | CLdapBind string string
  | CLdapSearch ldap_search
  | CLdapClose
  | CRestActionGet string string
  | CRestActionCreate rest_action
  | CRestActionUpdate rest_action
  | CRestActionDelete string string

type_synonym history = "call list"

text \<open>An HTTP answer: status code and body, which may fail to read.\<close>

type_synonym http_answer = "int \<times> (gerr + string)"

record world =
  w_getenv :: "string \<Rightarrow> string"
  w_read_file :: "string \<Rightarrow> gerr + string"
  w_user_get :: "history \<Rightarrow> string \<Rightarrow> string \<Rightarrow> gerr + user_cr"
  w_sa_list :: "history \<Rightarrow> string \<Rightarrow> gerr + sa_cr list"
  w_sa_get :: "history \<Rightarrow> string \<Rightarrow> string \<Rightarrow> gerr + sa_cr"
  w_secret_get :: "history \<Rightarrow> string \<Rightarrow> string \<Rightarrow> gerr + secret"
  w_secret_list :: "history \<Rightarrow> string \<Rightarrow> gerr + secret list"
  w_secret_write :: "history \<Rightarrow> gerr option"
  w_config_map :: "history \<Rightarrow> string \<Rightarrow> string \<Rightarrow> gerr + (string \<rightharpoonup> string)"
  w_token_review :: "history \<Rightarrow> string \<Rightarrow> string list \<Rightarrow> gerr + token_review"
  w_gen_key :: "history \<Rightarrow> gerr + string"
  w_csr_create :: "history \<Rightarrow> csr \<Rightarrow> gerr + csr"
  w_csr_write :: "history \<Rightarrow> gerr option"
  w_csr_wait :: "history \<Rightarrow> string \<Rightarrow> gerr + string"
  w_signup :: "history \<Rightarrow> signup_opts \<Rightarrow> gerr + string"
  w_sign :: "history \<Rightarrow> token_opts \<Rightarrow> gerr + string"
  w_now :: "history \<Rightarrow> time"
  w_new_id :: "history \<Rightarrow> string"
  w_http :: "history \<Rightarrow> gerr + http_answer"
  w_bad_url :: "string \<Rightarrow> gerr option"
  w_user_list :: "history \<Rightarrow> string \<Rightarrow> gerr + user_cr list"
  w_oidc_get :: "history \<Rightarrow> string \<Rightarrow> string \<Rightarrow> gerr + oidc_cr"
  w_oidc_list :: "history \<Rightarrow> string \<Rightarrow> gerr + oidc_cr list"
  w_ldap_get :: "history \<Rightarrow> string \<Rightarrow> string \<Rightarrow> gerr + ldap_cr"
  w_ldap_list :: "history \<Rightarrow> string \<Rightarrow> gerr + ldap_cr list"
  w_oauth_get :: "history \<Rightarrow> string \<Rightarrow> string \<Rightarrow> gerr + oauth_cr"
  w_oauth_list :: "history \<Rightarrow> string \<Rightarrow> gerr + (string \<times> (gerr + oauth_cr)) list"
  w_random :: "history \<Rightarrow> string"
  w_exchange :: "history \<Rightarrow> gerr + oauth_token"
  w_ldap_dial :: "history \<Rightarrow> gerr option"
  w_ldap_do :: "history \<Rightarrow> gerr option"
  w_ldap_search :: "history \<Rightarrow> gerr + ldap_entry list"
  w_rest_action_get :: "history \<Rightarrow> gerr + rest_action"
  w_rest_action_write :: "history \<Rightarrow> gerr option"
  w_json :: "string \<Rightarrow> gerr + json"
  w_json_encode :: "json \<Rightarrow> string"
  w_base64url :: "string \<Rightarrow> gerr + string"
  w_int64_out_of_range :: "rat \<Rightarrow> int"
  w_int64_of_nan :: int
  w_auth_code_url :: "oauth_config \<Rightarrow> string \<Rightarrow> string"
  w_ldap_escape :: "string \<Rightarrow> string"
  w_ldap_filter :: "string \<Rightarrow> gerr option"
  w_template_parse :: "string \<Rightarrow> gerr option"
  w_template_exec :: "string \<Rightarrow> string \<Rightarrow> string \<Rightarrow> gerr + string"
  w_sprintf :: "string \<Rightarrow> string \<Rightarrow> string \<Rightarrow> string"
  w_url_set :: "string \<Rightarrow> (string \<times> string) list \<Rightarrow> gerr + string"
  w_base64 :: "string \<Rightarrow> gerr + string"
  w_base64_enc :: "string \<Rightarrow> string"
  w_client_error :: "gerr option"
  w_pem_encode :: "string \<Rightarrow> string \<Rightarrow> string"
  w_pem_decode :: "string \<Rightarrow> (string \<times> string \<times> string) option"
  w_x509 :: "string \<Rightarrow> gerr + cert"
  w_cert_request :: "string \<Rightarrow> string \<Rightarrow> string list \<Rightarrow> gerr + string"
  w_dns1123 :: "string \<Rightarrow> string"
  w_valid_segment :: "string \<Rightarrow> bool"
  w_sha256 :: "string \<Rightarrow> string"
  w_rfc3339 :: "time \<Rightarrow> string"
  w_to_lower :: "string \<Rightarrow> string" \<comment> \<open>Unicode's case mapping, of text that is not ASCII\<close>
  w_to_upper :: "string \<Rightarrow> string"
  w_rsa_private :: "string \<Rightarrow> gerr + rsa_public"
  w_rsa_public :: "string \<Rightarrow> gerr + rsa_public"
  w_dynamic_error :: "gerr option"

section \<open>Making a call\<close>

text \<open>
  Every primitive returns the world's answer and the history with the call appended.
\<close>

definition ask_user_get where
  "ask_user_get W ns n h = (w_user_get W h ns n, h @ [CUserGet ns n])"

definition ask_sa_list where
  "ask_sa_list W ns h = (w_sa_list W h ns, h @ [CSAList ns])"

definition ask_sa_get where
  "ask_sa_get W ns n h = (w_sa_get W h ns n, h @ [CSAGet ns n])"

definition ask_secret_get where
  "ask_secret_get W ns n h = (w_secret_get W h ns n, h @ [CSecretGet ns n])"

definition ask_secret_list where
  "ask_secret_list W ns h = (w_secret_list W h ns, h @ [CSecretList ns])"

definition ask_secret_create where
  "ask_secret_create W s h = (w_secret_write W (h @ [CSecretCreate s]), h @ [CSecretCreate s])"

definition ask_secret_update where
  "ask_secret_update W s h = (w_secret_write W (h @ [CSecretUpdate s]), h @ [CSecretUpdate s])"

definition ask_secret_delete where
  "ask_secret_delete W ns n pre h =
     (w_secret_write W (h @ [CSecretDelete ns n pre]), h @ [CSecretDelete ns n pre])"

definition ask_config_map where
  "ask_config_map W ns n h = (w_config_map W h ns n, h @ [CConfigMapGet ns n])"

definition ask_token_review where
  "ask_token_review W tok auds h = (w_token_review W h tok auds, h @ [CTokenReview tok auds])"

definition ask_gen_key where
  "ask_gen_key W h = (w_gen_key W h, h @ [CGenKey])"

definition ask_csr_create where
  "ask_csr_create W c h = (w_csr_create W h c, h @ [CCsrCreate c])"

definition ask_csr_approve where
  "ask_csr_approve W c h = (w_csr_write W (h @ [CCsrApprove c]), h @ [CCsrApprove c])"

definition ask_csr_wait where
  "ask_csr_wait W n uid h = (w_csr_wait W (h @ [CCsrWait n uid]) n, h @ [CCsrWait n uid])"

definition ask_csr_delete where
  "ask_csr_delete W n h = (w_csr_write W (h @ [CCsrDelete n]), h @ [CCsrDelete n])"

definition ask_signup where
  "ask_signup W o' h = (w_signup W h o', h @ [CSignup o'])"

definition ask_sign where
  "ask_sign W o' h = (w_sign W h o', h @ [CSign o'])"

definition ask_now where
  "ask_now W h = (w_now W h, h @ [CNow])"

definition ask_new_id where
  "ask_new_id W h = (w_new_id W h, h @ [CNewId])"

definition ask_http where
  "ask_http W m u hs b h = (w_http W (h @ [CHttp m u hs b]), h @ [CHttp m u hs b])"

definition ask_user_list where
  "ask_user_list W ns h = (w_user_list W h ns, h @ [CUserList ns])"

definition ask_oidc_get where
  "ask_oidc_get W ns n h = (w_oidc_get W h ns n, h @ [COidcGet ns n])"

definition ask_oidc_list where
  "ask_oidc_list W ns h = (w_oidc_list W h ns, h @ [COidcList ns])"

definition ask_ldap_get where
  "ask_ldap_get W ns n h = (w_ldap_get W h ns n, h @ [CLdapGet ns n])"

definition ask_ldap_list where
  "ask_ldap_list W ns h = (w_ldap_list W h ns, h @ [CLdapList ns])"

definition ask_oauth_get where
  "ask_oauth_get W ns n h = (w_oauth_get W h ns n, h @ [COAuthGet ns n])"

definition ask_oauth_list where
  "ask_oauth_list W ns h = (w_oauth_list W h ns, h @ [COAuthList ns])"

definition ask_random where
  "ask_random W h = (w_random W h, h @ [CRandom])"

definition ask_exchange where
  "ask_exchange W cfg code v h = (w_exchange W (h @ [CExchange cfg code v]), h @ [CExchange cfg code v])"

definition ask_ldap_dial where
  "ask_ldap_dial W url h = (w_ldap_dial W (h @ [CLdapDial url]), h @ [CLdapDial url])"

definition ask_ldap_start_tls where
  "ask_ldap_start_tls W h = (w_ldap_do W (h @ [CLdapStartTLS]), h @ [CLdapStartTLS])"

definition ask_ldap_bind where
  "ask_ldap_bind W dn pw h = (w_ldap_do W (h @ [CLdapBind dn pw]), h @ [CLdapBind dn pw])"

definition ask_ldap_search where
  "ask_ldap_search W q h = (w_ldap_search W (h @ [CLdapSearch q]), h @ [CLdapSearch q])"

definition ask_rest_action_get where
  "ask_rest_action_get W ns n h =
     (w_rest_action_get W (h @ [CRestActionGet ns n]), h @ [CRestActionGet ns n])"

definition ask_rest_action_create where
  "ask_rest_action_create W ra h =
     (w_rest_action_write W (h @ [CRestActionCreate ra]), h @ [CRestActionCreate ra])"

definition ask_rest_action_update where
  "ask_rest_action_update W ra h =
     (w_rest_action_write W (h @ [CRestActionUpdate ra]), h @ [CRestActionUpdate ra])"

definition ask_rest_action_delete where
  "ask_rest_action_delete W ns n h =
     (w_rest_action_write W (h @ [CRestActionDelete ns n]), h @ [CRestActionDelete ns n])"

lemmas ask_defs =
  ask_user_get_def ask_sa_list_def ask_sa_get_def ask_secret_get_def ask_secret_list_def
  ask_secret_create_def ask_secret_update_def ask_secret_delete_def ask_config_map_def
  ask_token_review_def ask_gen_key_def ask_csr_create_def ask_csr_approve_def ask_csr_wait_def
  ask_csr_delete_def ask_signup_def ask_sign_def ask_now_def ask_new_id_def ask_http_def
  ask_user_list_def ask_oidc_get_def ask_oidc_list_def ask_ldap_get_def ask_ldap_list_def
  ask_oauth_get_def ask_oauth_list_def ask_random_def ask_exchange_def ask_ldap_dial_def
  ask_ldap_start_tls_def ask_ldap_bind_def ask_ldap_search_def ask_rest_action_get_def
  ask_rest_action_create_def ask_rest_action_update_def ask_rest_action_delete_def

section \<open>What a run added to the history\<close>

text \<open>\<open>extends P h h'\<close>: \<open>h'\<close> is \<open>h\<close> followed by calls that all satisfy \<open>P\<close>.\<close>

definition extends :: "(call \<Rightarrow> bool) \<Rightarrow> history \<Rightarrow> history \<Rightarrow> bool" where
  "extends P h h' \<longleftrightarrow> (\<exists>new. h' = h @ new \<and> list_all P new)"

definition new_calls :: "history \<Rightarrow> history \<Rightarrow> call list" where
  "new_calls h h' = drop (length h) h'"

lemma extends_refl [simp, intro]: "extends P h h"
  by (simp add: extends_def)

lemma extends_trans [trans]: "extends P h h' \<Longrightarrow> extends P h' h'' \<Longrightarrow> extends P h h''"
  by (auto simp: extends_def)

lemma extends_one [simp]: "extends P h (h @ [c]) \<longleftrightarrow> P c"
  by (auto simp: extends_def)

lemma extends_snoc: "extends P h h' \<Longrightarrow> P c \<Longrightarrow> extends P h (h' @ [c])"
  by (auto simp: extends_def)

lemma extends_first: "extends P (h @ [c]) h' \<Longrightarrow> P c \<Longrightarrow> extends P h h'"
  by (rule extends_trans [of P h "h @ [c]"]) simp_all

lemma extends_through:
  "extends P (h1 @ [c]) h' \<Longrightarrow> extends P h h1 \<Longrightarrow> P c \<Longrightarrow> extends P h h'"
  by (rule extends_trans) (rule extends_snoc)

lemma extends_mono: "extends P h h' \<Longrightarrow> (\<And>c. P c \<Longrightarrow> Q c) \<Longrightarrow> extends Q h h'"
  by (auto simp: extends_def list_all_iff)

lemma extends_new: "extends P h h' \<Longrightarrow> c \<in> set (new_calls h h') \<Longrightarrow> P c"
  by (auto simp: extends_def new_calls_def list_all_iff)

lemma extends_list_all: "extends P h h' \<Longrightarrow> list_all P (new_calls h h')"
  by (auto simp: extends_def new_calls_def)

lemma new_calls_same [simp]: "new_calls h h = []"
  by (simp add: new_calls_def)

lemma new_calls_append [simp]: "new_calls h (h @ new) = new"
  by (simp add: new_calls_def)

lemma new_calls_trans:
  assumes "extends P h h'" and "extends Q h' h''"
  shows "new_calls h h'' = new_calls h h' @ new_calls h' h''"
  using assms by (auto simp: extends_def new_calls_def)

text \<open>\<open>steps_from P h h'\<close>: \<open>h'\<close> extends \<open>h\<close> by calls each of which satisfies \<open>P\<close> where it is made.\<close>

inductive steps_from :: "(history \<Rightarrow> call \<Rightarrow> bool) \<Rightarrow> history \<Rightarrow> history \<Rightarrow> bool"
  for P :: "history \<Rightarrow> call \<Rightarrow> bool" and h :: history where
  steps_none: "steps_from P h h"
| steps_snoc: "steps_from P h h' \<Longrightarrow> P h' k \<Longrightarrow> steps_from P h (h' @ [k])"

lemma steps_trans [trans]:
  assumes "steps_from P h h'" and "steps_from P h' h''"
  shows "steps_from P h h''"
  using assms(2,1) by induction (auto intro: steps_snoc)

lemma steps_one: "P h k \<Longrightarrow> steps_from P h (h @ [k])"
  by (intro steps_snoc steps_none)

lemma steps_extend: "steps_from P h h' \<Longrightarrow> \<exists>new. h' = h @ new"
  by (induction rule: steps_from.induct) auto

lemma steps_prefix:
  assumes "steps_from P h h'" and "h' = h @ new" and "i < length new"
  shows "P (h @ take i new) (new ! i)"
  using assms
proof (induction arbitrary: new i rule: steps_from.induct)
  case steps_none
  then show ?case by simp
next
  case (steps_snoc h' k)
  obtain pre where pre: "h' = h @ pre" using steps_extend [OF steps_snoc.hyps(1)] by auto
  with steps_snoc.prems have "new = pre @ [k]" by simp
  then show ?case
    using steps_snoc.IH [OF pre, of i] steps_snoc.hyps(2) steps_snoc.prems(2) pre
    by (cases "i < length pre") (auto simp: nth_append less_Suc_eq)
qed

lemma steps_mono: "steps_from P h h' \<Longrightarrow> (\<And>g k. P g k \<Longrightarrow> Q g k) \<Longrightarrow> steps_from Q h h'"
  by (induction rule: steps_from.induct) (auto intro: steps_from.intros)

lemma steps_of_extends:
  assumes "extends P h h'" and "\<And>g k. P k \<Longrightarrow> Q g k"
  shows "steps_from Q h h'"
proof -
  from assms(1) obtain new where "h' = h @ new" "list_all P new" by (auto simp: extends_def)
  then show ?thesis
  proof (induction new arbitrary: h' rule: rev_induct)
    case (snoc k new)
    then show ?case using steps_snoc [of Q h "h @ new" k] assms(2) by simp
  qed (simp add: steps_none)
qed

section \<open>Kinds of calls\<close>

text \<open>A call that changes something outside the process.\<close>

fun mutates :: "call \<Rightarrow> bool" where
  "mutates (CSecretCreate _) = True"
| "mutates (CSecretUpdate _) = True"
| "mutates (CSecretDelete _ _ _) = True"
| "mutates (CCsrCreate _) = True"
| "mutates (CCsrApprove _) = True"
| "mutates (CCsrDelete _) = True"
| "mutates (CSignup _) = True"
| "mutates (CRestActionCreate _) = True"
| "mutates (CRestActionUpdate _) = True"
| "mutates (CRestActionDelete _ _) = True"
| "mutates _ = False"

text \<open>A call that asks for a certificate or signs a token: the marks of an issuance.\<close>

fun issues :: "call \<Rightarrow> bool" where
  "issues (CCsrCreate _) = True"
| "issues (CCsrApprove _) = True"
| "issues (CSignup _) = True"
| "issues (CSign _) = True"
| "issues _ = False"

definition quiet :: "call \<Rightarrow> bool" where
  "quiet c \<longleftrightarrow> \<not> mutates c \<and> \<not> issues c"

lemma quiet_simps [simp]:
  "quiet (CUserGet a b)" "quiet (CSAList a)" "quiet (CSAGet a b)" "quiet (CSecretGet a b)"
  "quiet (CSecretList a)" "quiet (CConfigMapGet a b)" "quiet (CTokenReview t u)" "quiet CGenKey"
  "quiet (CCsrWait a b)" "quiet CNow" "quiet CNewId" "quiet (CHttp m url hs b)"
  "quiet (CUserList a)" "quiet (COidcGet a b)" "quiet (COidcList a)" "quiet (CLdapGet a b)"
  "quiet (CLdapList a)" "quiet (COAuthGet a b)" "quiet (COAuthList a)" "quiet CRandom"
  "quiet (CExchange f a v)" "quiet (CLdapDial a)" "quiet CLdapStartTLS" "quiet (CLdapBind a b)"
  "quiet (CLdapSearch q)" "quiet CLdapClose" "quiet (CRestActionGet a b)"
  by (simp_all add: quiet_def)

section \<open>The operator namespace\<close>

text \<open>\<open>util.GetOperatorNamespace\<close>: the environment first, then the mounted file.\<close>

definition ErrNoNamespace :: gerr where
  "ErrNoNamespace = Err [Str ''namespace not found for current environment'']"

definition NamespaceEnvVar :: string where
  "NamespaceEnvVar = ''POD_NAMESPACE''"

definition namespace_file :: string where
  "namespace_file = ''/var/run/secrets/kubernetes.io/serviceaccount/namespace''"

definition operator_namespace :: "world \<Rightarrow> gerr + string" where
  "operator_namespace W =
     (let ns = w_getenv W NamespaceEnvVar
      in if 0 < length ns then Inr ns
         else (case w_read_file W namespace_file of
                 Inl e \<Rightarrow> Inl (if err_is e ''file does not exist'' then ErrNoNamespace else e)
               | Inr s \<Rightarrow> Inr (trim_space s)))"

section \<open>The namespaces of a background pass\<close>

text \<open>
  The step-up sweep and the identity backfill loop over configured namespaces:
  \<open>if ns == "" || seen[ns] { continue }\<close>: the namespaces visited,
  in order.\<close>

fun distinct_namespaces :: "string set \<Rightarrow> string list \<Rightarrow> string list" where
  "distinct_namespaces seen [] = []"
| "distinct_namespaces seen (ns # nss) =
     (if ns = '''' \<or> ns \<in> seen then distinct_namespaces seen nss
      else ns # distinct_namespaces (insert ns seen) nss)"

lemma distinct_namespaces_set: "set (distinct_namespaces seen nss) = set nss - seen - {''''}"
  by (induction seen nss rule: distinct_namespaces.induct) auto

lemma distinct_namespaces_distinct: "distinct (distinct_namespaces seen nss)"
  by (induction seen nss rule: distinct_namespaces.induct) (auto simp: distinct_namespaces_set)

end
