(* ===== verification/Certs.thy ===== *)
theory Certs
  imports World
begin

text \<open>
  \<open>internal/helpers/kube\<close>: reading the granted validity off an issued certificate
  (certinfo.go) and the certificate signing requests (certs.go). PEM, base64 and X.509
  decoding are the world's; the loop over PEM blocks, the choice of the leaf and the
  arithmetic are the program's.
\<close>

section \<open>Certificates\<close>

text \<open>
  The loop over PEM blocks. \<open>pem.Decode\<close> returns what follows the block, so the data gets
  shorter on every turn; the fuel is one more than its length.
\<close>

fun parse_pem :: "world \<Rightarrow> nat \<Rightarrow> string \<Rightarrow> gerr + cert" where
  "parse_pem W 0 data = Inl (Err [Str ''no CERTIFICATE block in PEM data''])"
| "parse_pem W (Suc n) data =
     (case w_pem_decode W data of
        None \<Rightarrow> Inl (Err [Str ''no CERTIFICATE block in PEM data''])
      | Some (ty, bytes, rest) \<Rightarrow>
          if ty \<noteq> ''CERTIFICATE'' then parse_pem W n rest else w_x509 W bytes)"

definition parse_certificate_pem :: "world \<Rightarrow> string \<Rightarrow> gerr + cert" where
  "parse_certificate_pem W data = parse_pem W (Suc (length data)) data"

definition parse_certificate_base64 :: "world \<Rightarrow> string \<Rightarrow> gerr + cert" where
  "parse_certificate_base64 W s =
     (case w_base64 W (trim_space s) of
        Inl e \<Rightarrow> Inl (Wrap [Str ''decoding base64 certificate: ''] e [])
      | Inr raw \<Rightarrow> parse_certificate_pem W raw)"

definition pem_shrinks :: "world \<Rightarrow> bool" where
  "pem_shrinks W \<longleftrightarrow>
     (\<forall>data ty bytes rest. w_pem_decode W data = Some (ty, bytes, rest) \<longrightarrow> length rest < length data)"

lemma parse_pem_enough:
  "pem_shrinks W \<Longrightarrow> length data < n \<Longrightarrow> parse_pem W n data = parse_certificate_pem W data"
proof (induction n arbitrary: data rule: less_induct)
  case (less n)
  obtain k where n: "n = Suc k" using less.prems by (cases n) auto
  show ?case
  proof (cases "w_pem_decode W data")
    case None
    then show ?thesis by (simp add: n parse_certificate_pem_def)
  next
    case (Some b)
    then obtain ty bytes rest where b: "w_pem_decode W data = Some (ty, bytes, rest)"
      by (cases b) auto
    then have short: "length rest < length data"
      using less.prems by (auto simp: pem_shrinks_def)
    then have "parse_pem W k rest = parse_certificate_pem W rest"
      using less n by simp
    moreover have "parse_pem W (length data) rest = parse_certificate_pem W rest"
      using less.IH [of "length data" rest] less.prems short n by (cases "length data = k") auto
    ultimately show ?thesis
      using b by (simp add: n parse_certificate_pem_def)
  qed
qed

definition lifetime :: "cert \<Rightarrow> duration" where
  "lifetime crt = time_sub (ct_not_after crt) (ct_not_before crt)"

text \<open>The constant 0.9, as the \<open>float64\<close> nearest to it.\<close>

definition shortfall_ratio :: f64 where
  "shortfall_ratio = (8106479329266893, 53)"

definition materially_shorter :: "duration \<Rightarrow> duration \<Rightarrow> bool" where
  "materially_shorter granted requested \<longleftrightarrow>
     (if requested \<le> 0 then False else granted < scale shortfall_ratio requested)"

lemma materially_shorter_less: "materially_shorter g r \<Longrightarrow> g < r"
  using scale_bounds [of r shortfall_ratio]
  by (auto simp: materially_shorter_def proper_fraction_def shortfall_ratio_def split: if_splits)

section \<open>Certificate signing requests\<close>

definition customSignerName :: string where
  "customSignerName = ''kubernetes.io/kube-apiserver-client''"

definition new_private_key :: "world \<Rightarrow> history \<Rightarrow> (gerr + string) \<times> history" where
  "new_private_key W h =
     (case ask_gen_key W h of
        (Inl e, h) \<Rightarrow> (Inl (Wrap [Str ''generating private key: ''] e []), h)
      | (Inr k, h) \<Rightarrow> (Inr k, h))"

definition new_certificate_request :: "world \<Rightarrow> string \<Rightarrow> string \<Rightarrow> string list \<Rightarrow> gerr + string" where
  "new_certificate_request W key username groups =
     (case w_cert_request W key username groups of
        Inl e \<Rightarrow> Inl (Wrap [Str ''creating certificate request: ''] e [])
      | Inr dat \<Rightarrow> Inr (w_pem_encode W ''CERTIFICATE REQUEST'' dat))"

text \<open>\<open>int32(dur.Seconds())\<close>: the whole seconds, truncated towards zero.\<close>

definition whole_seconds :: "duration \<Rightarrow> int" where
  "whole_seconds d = sgn d * (\<bar>d\<bar> div second)"

definition new_csr :: "string \<Rightarrow> duration \<Rightarrow> string \<Rightarrow> string \<Rightarrow> csr" where
  "new_csr req dur userID username =
     \<lparr>csr_name = '''', csr_uid = '''', csr_generate_name = username @ ''-'',
      csr_user_id = userID, csr_request = req, csr_signer = customSignerName,
      csr_usages = [''client auth''], csr_seconds = whole_seconds dur, csr_conditions = []\<rparr>"

text \<open>Approval appends the condition to the CSR it was given, then updates it.\<close>

definition approve_csr :: "world \<Rightarrow> csr \<Rightarrow> history \<Rightarrow> gerr option \<times> history" where
  "approve_csr W c h =
     (case ask_csr_approve W (c\<lparr>csr_conditions := csr_conditions c @ [''Approved'']\<rparr>) h of
        (Some e, h) \<Rightarrow> (Some (Wrap [Str ''approving CertificateSigningRequest: ''] e []), h)
      | (None, h) \<Rightarrow> (None, h))"

definition certificateWaitTimeout :: duration where
  "certificateWaitTimeout = 5 * minute"

definition wait_for_certificate :: "world \<Rightarrow> string \<Rightarrow> string \<Rightarrow> history \<Rightarrow> (gerr + string) \<times> history" where
  "wait_for_certificate W name uid h =
     (case ask_csr_wait W name uid h of
        (Inl e, h) \<Rightarrow> (Inl (Wrap [Str ''waiting for CSR certificate to be generated: ''] e []), h)
      | (Inr crt, h) \<Rightarrow> (Inr crt, h))"

text \<open>Deleting a used CSR that is already gone is no error.\<close>

definition delete_csr :: "world \<Rightarrow> string \<Rightarrow> history \<Rightarrow> gerr option \<times> history" where
  "delete_csr W name h =
     (case ask_csr_delete W name h of
        (Some e, h) \<Rightarrow> (if is_not_found e then None else Some e, h)
      | (None, h) \<Rightarrow> (None, h))"

end
