(* ===== verification/Storage.thy ===== *)
theory Storage
  imports Certs
begin

text \<open>
  \<open>internal/helpers/kube/config/storage\<close>: the Secrets issued credentials are stored in. The
  names of session and step-up Secrets, the annotations that record who a credential was
  issued to (identity.go), and \<open>Put\<close>, which creates the Secret or updates the existing one.
\<close>

section \<open>Labels and names\<close>

definition ClientCertLabel :: string where "ClientCertLabel = ''client-certificate-data''"
definition ClientKeyLabel :: string where "ClientKeyLabel = ''client-key-data''"
definition CALabel :: string where "CALabel = ''certificate-authority-data''"
definition ProxyUrlLabel :: string where "ProxyUrlLabel = ''proxy-url''"
definition ServerUrlLabel :: string where "ServerUrlLabel = ''server-url''"
definition NotBeforeAnnotation :: string where
  "NotBeforeAnnotation = ''authn.krateo.io/certificate-not-before''"
definition NotAfterAnnotation :: string where
  "NotAfterAnnotation = ''authn.krateo.io/certificate-not-after''"
definition StrategyAnnotation :: string where "StrategyAnnotation = ''authn.krateo.io/strategy''"
definition GroupsAnnotation :: string where "GroupsAnnotation = ''authn.krateo.io/groups''"

definition client_config_secret_name :: "world \<Rightarrow> string \<Rightarrow> string" where
  "client_config_secret_name W username = w_dns1123 W username @ ''-clientconfig''"

definition step_up_secret_name :: "world \<Rightarrow> string \<Rightarrow> string" where
  "step_up_secret_name W username = client_config_secret_name W username @ ''-stepup''"

definition stepUpSuffix :: string where "stepUpSuffix = ''-clientconfig-stepup''"

definition is_step_up_secret_name :: "string \<Rightarrow> bool" where
  "is_step_up_secret_name name \<longleftrightarrow>
     has_suffix name stepUpSuffix \<and> length stepUpSuffix < length name"

lemma step_up_name_eq: "step_up_secret_name W u = w_dns1123 W u @ stepUpSuffix"
  by (simp add: step_up_secret_name_def client_config_secret_name_def stepUpSuffix_def)

lemma session_name_last: "last (client_config_secret_name W u) = CHR ''g''"
  by (simp add: client_config_secret_name_def)

lemma step_up_suffix_last: "has_suffix s stepUpSuffix \<Longrightarrow> last s = CHR ''p''"
  by (drule has_suffix_last) (simp_all add: stepUpSuffix_def)

section \<open>Identity annotations\<close>

type_synonym strategy = string

definition StrategyBasic :: strategy where "StrategyBasic = ''basic''"
definition StrategyLDAP :: strategy where "StrategyLDAP = ''ldap''"
definition StrategyOAuth :: strategy where "StrategyOAuth = ''oauth''"
definition StrategyOIDC :: strategy where "StrategyOIDC = ''oidc''"
definition StrategyServiceAccount :: strategy where "StrategyServiceAccount = ''serviceaccount''"
definition StrategySelf :: strategy where "StrategySelf = ''self''"
definition StrategyUnknown :: strategy where "StrategyUnknown = ''unknown''"

definition newline :: char where "newline = char_of (10::nat)"

text \<open>The loop of \<open>ValidateGroups\<close>: the first group with a newline is the error.\<close>

fun validate_groups :: "string list \<Rightarrow> gerr option" where
  "validate_groups [] = None"
| "validate_groups (g # gs) =
     (if contains_sub g [newline]
      then Some (Err [Str ''group '', Quo g, Str '' contains a newline; it cannot be recorded in '',
                      Str GroupsAnnotation])
      else validate_groups gs)"

lemma validate_groups_None: "validate_groups gs = None \<longleftrightarrow> (\<forall>g\<in>set gs. newline \<notin> set g)"
  by (induction gs) auto

lemma validate_groups_Some: "validate_groups gs = Some e \<Longrightarrow> \<exists>g\<in>set gs. newline \<in> set g"
  using validate_groups_None [of gs] by auto

definition identity_annotations :: "world \<Rightarrow> strategy \<Rightarrow> string \<Rightarrow> gerr + (string \<rightharpoonup> string)" where
  "identity_annotations W strategy certData =
     (if strategy = '''' then Inl (Err [Str ''identity annotations: empty strategy''])
      else case parse_certificate_base64 W certData of
        Inl e \<Rightarrow> Inl (Wrap [Str ''identity annotations: ''] e [])
      | Inr crt \<Rightarrow>
          (case validate_groups (ct_organization crt) of
             Some e \<Rightarrow> Inl e
           | None \<Rightarrow> Inr [StrategyAnnotation \<mapsto> strategy,
                          GroupsAnnotation \<mapsto> join [newline] (ct_organization crt)]))"

definition split_groups :: "string \<Rightarrow> string list" where
  "split_groups v = (if v = '''' then [] else split_byte newline v)"

definition cert_validity_annotations :: "world \<Rightarrow> string \<Rightarrow> (string \<rightharpoonup> string) option" where
  "cert_validity_annotations W certData =
     (case parse_certificate_base64 W certData of
        Inl _ \<Rightarrow> None
      | Inr crt \<Rightarrow> Some [NotBeforeAnnotation \<mapsto> w_rfc3339 W (ct_not_before crt),
                         NotAfterAnnotation \<mapsto> w_rfc3339 W (ct_not_after crt)])"

lemma annotations_distinct [simp]:
  "StrategyAnnotation \<noteq> GroupsAnnotation" "GroupsAnnotation \<noteq> StrategyAnnotation"
  "StrategyAnnotation \<noteq> NotBeforeAnnotation" "StrategyAnnotation \<noteq> NotAfterAnnotation"
  "GroupsAnnotation \<noteq> NotBeforeAnnotation" "GroupsAnnotation \<noteq> NotAfterAnnotation"
  by (simp_all add: StrategyAnnotation_def GroupsAnnotation_def NotBeforeAnnotation_def
      NotAfterAnnotation_def)

lemma dom_identity_annotations:
  "identity_annotations W s c = Inr m \<Longrightarrow> dom m = {StrategyAnnotation, GroupsAnnotation}"
  by (auto simp: identity_annotations_def split: if_splits sum.splits option.splits)

section \<open>Storing a credential\<close>

record auth_info =
  ai_server :: string
  ai_proxy_url :: string
  ai_ca_data :: string
  ai_cert_data :: string
  ai_key_data :: string
  ai_strategy :: strategy
  ai_step_up :: bool

definition secret_of :: "world \<Rightarrow> string \<Rightarrow> string \<Rightarrow> auth_info \<Rightarrow> (string \<rightharpoonup> string) \<Rightarrow> secret" where
  "secret_of W ns name nfo identity =
     \<lparr>sec_name = (if ai_step_up nfo then step_up_secret_name W name
                  else client_config_secret_name W name),
      sec_namespace = ns, sec_uid = '''', sec_version = '''',
      sec_annotations = map_merge
        (case cert_validity_annotations W (ai_cert_data nfo) of None \<Rightarrow> Map.empty | Some m \<Rightarrow> m)
        identity,
      sec_data = Map.empty,
      sec_string_data = [CALabel \<mapsto> ai_ca_data nfo, ClientCertLabel \<mapsto> ai_cert_data nfo,
        ClientKeyLabel \<mapsto> ai_key_data nfo, ServerUrlLabel \<mapsto> ai_server nfo,
        ProxyUrlLabel \<mapsto> ai_proxy_url nfo]\<rparr>"

definition store_put :: "world \<Rightarrow> string \<Rightarrow> auth_info \<Rightarrow> history \<Rightarrow> gerr option \<times> history" where
  "store_put W name nfo h =
     (case operator_namespace W of
        Inl e \<Rightarrow> (Some (Wrap [Str ''unable to resolve service namespace: ''] e []), h)
      | Inr ns \<Rightarrow>
          (case identity_annotations W (ai_strategy nfo) (ai_cert_data nfo) of
             Inl e \<Rightarrow> (Some e, h)
           | Inr identity \<Rightarrow>
               let sec = secret_of W ns name nfo identity
               in (case ask_secret_create W sec h of
                     (None, h) \<Rightarrow> (None, h)
                   | (Some e, h) \<Rightarrow>
                       if \<not> is_already_exists e then (Some e, h)
                       else ask_secret_update W sec h)))"

text \<open>A write of one of the given Secrets.\<close>

fun writes_secret :: "call \<Rightarrow> secret option" where
  "writes_secret (CSecretCreate s) = Some s"
| "writes_secret (CSecretUpdate s) = Some s"
| "writes_secret _ = None"

definition stores :: "(secret \<Rightarrow> bool) \<Rightarrow> call \<Rightarrow> bool" where
  "stores P c \<longleftrightarrow> (\<exists>s. writes_secret c = Some s \<and> P s)"

lemma stores_simps [simp]:
  "stores P (CSecretCreate s) \<longleftrightarrow> P s" "stores P (CSecretUpdate s) \<longleftrightarrow> P s"
  by (simp_all add: stores_def)

lemma store_put_calls:
  "store_put W name nfo h = (r, h') \<Longrightarrow>
   extends (stores (\<lambda>s. \<exists>ns m. s = secret_of W ns name nfo m
      \<and> identity_annotations W (ai_strategy nfo) (ai_cert_data nfo) = Inr m)) h h'"
  by (auto simp: store_put_def Let_def ask_defs extends_def
      split: sum.splits option.splits if_splits)

section \<open>The store as an interface\<close>

text \<open>
  \<open>AuthInfoStorage\<close>: what the issuer relies on of any store. It only writes Secrets, each
  under the name of the credential's kind and owner, holding the certificate it was given
  and annotated with the strategy that issued it.
\<close>

locale auth_info_storage =
  fixes put :: "string \<Rightarrow> auth_info \<Rightarrow> history \<Rightarrow> gerr option \<times> history"
    and secret_name :: "bool \<Rightarrow> string \<Rightarrow> string"
  assumes put_calls: "put name nfo h = (r, h') \<Longrightarrow>
      extends (stores (\<lambda>s. sec_name s = secret_name (ai_step_up nfo) name
        \<and> sec_string_data s ClientCertLabel = Some (ai_cert_data nfo)
        \<and> sec_annotations s StrategyAnnotation = Some (ai_strategy nfo))) h h'"
    and names_apart: "secret_name True a \<noteq> secret_name False b"
begin

lemma put_writes:
  assumes "put name nfo h = (r, h')" and "c \<in> set (new_calls h h')"
  obtains s where "writes_secret c = Some s" "sec_name s = secret_name (ai_step_up nfo) name"
    "sec_string_data s ClientCertLabel = Some (ai_cert_data nfo)"
    "sec_annotations s StrategyAnnotation = Some (ai_strategy nfo)"
  using extends_new [OF put_calls [OF assms(1)] assms(2)] by (auto simp: stores_def)

text \<open>Storing one kind of credential never touches a Secret of the other.\<close>

lemma put_other_kind_untouched:
  assumes "put name nfo h = (r, h')" and "c \<in> set (new_calls h h')"
    and "writes_secret c = Some s"
  shows "sec_name s \<noteq> secret_name (\<not> ai_step_up nfo) other"
proof -
  obtain t where "writes_secret c = Some t" "sec_name t = secret_name (ai_step_up nfo) name"
    using put_writes [OF assms(1,2)] .
  then show ?thesis
    using assms(3) names_apart by (cases "ai_step_up nfo") (auto dest: sym)
qed

end

definition credential_name :: "world \<Rightarrow> bool \<Rightarrow> string \<Rightarrow> string" where
  "credential_name W step_up name =
     (if step_up then step_up_secret_name W name else client_config_secret_name W name)"

lemma names_never_collide: "step_up_secret_name W a \<noteq> client_config_secret_name W b"
proof
  assume "step_up_secret_name W a = client_config_secret_name W b"
  then have "last (w_dns1123 W a @ stepUpSuffix) = CHR ''g''"
    using session_name_last [of W b] by (simp add: step_up_name_eq)
  then show False by (simp add: stepUpSuffix_def)
qed

lemma secret_of_simps:
  "sec_name (secret_of W ns name nfo m) = credential_name W (ai_step_up nfo) name"
  "sec_string_data (secret_of W ns name nfo m) ClientCertLabel = Some (ai_cert_data nfo)"
  "identity_annotations W (ai_strategy nfo) (ai_cert_data nfo) = Inr m \<Longrightarrow>
   sec_annotations (secret_of W ns name nfo m) StrategyAnnotation = Some (ai_strategy nfo)"
  by (auto simp: secret_of_def credential_name_def map_merge_apply identity_annotations_def
      ClientCertLabel_def CALabel_def ClientKeyLabel_def ServerUrlLabel_def ProxyUrlLabel_def
      split: if_splits sum.splits option.splits)

interpretation secret_store: auth_info_storage "store_put W" "credential_name W" for W
proof unfold_locales
  fix name nfo h r h'
  assume "store_put W name nfo h = (r, h')"
  then show "extends (stores (\<lambda>s. sec_name s = credential_name W (ai_step_up nfo) name
      \<and> sec_string_data s ClientCertLabel = Some (ai_cert_data nfo)
      \<and> sec_annotations s StrategyAnnotation = Some (ai_strategy nfo))) h h'"
    by (rule extends_mono [OF store_put_calls]) (auto simp: stores_def secret_of_simps)
next
  fix a b show "credential_name W True a \<noteq> credential_name W False b"
    by (simp add: credential_name_def names_never_collide)
qed

section \<open>Properties\<close>

text \<open>
  Session and step-up credentials live apart: no user's session Secret has the name of
  any user's step-up Secret, the classifier accepts every step-up name and no session name,
  and so sweeping by name can never select a session credential.
\<close>

lemma step_up_names_apart:
  "step_up_secret_name W a \<noteq> client_config_secret_name W b
   \<and> \<not> is_step_up_secret_name (client_config_secret_name W b)
   \<and> (is_step_up_secret_name (step_up_secret_name W a) \<longleftrightarrow> w_dns1123 W a \<noteq> '''')"
proof -
  have "\<not> is_step_up_secret_name (client_config_secret_name W b)"
    using step_up_suffix_last [of "client_config_secret_name W b"] session_name_last [of W b]
    by (auto simp: is_step_up_secret_name_def)
  moreover have "is_step_up_secret_name (step_up_secret_name W a) \<longleftrightarrow> w_dns1123 W a \<noteq> ''''"
    by (simp add: is_step_up_secret_name_def step_up_name_eq)
  ultimately show ?thesis
    using names_never_collide by blast
qed

text \<open>
  C23. The groups annotation is faithful: of a certificate whose groups are recorded, splitting
  the annotation gives back exactly its groups, save that a single empty group name reads as
  no group; and recording one is refused only for an empty strategy, a certificate that
  does not parse, or a group holding the separator.
\<close>

theorem groups_annotation_roundtrip:
  "case (parse_certificate_base64 W c, identity_annotations W strategy c) of
     (Inl _, Inl _) \<Rightarrow> True
   | (Inl _, Inr _) \<Rightarrow> False
   | (Inr crt, Inl _) \<Rightarrow> strategy = '''' \<or> (\<exists>g\<in>set (ct_organization crt). newline \<in> set g)
   | (Inr crt, Inr m) \<Rightarrow> m StrategyAnnotation = Some strategy
       \<and> (\<exists>v. m GroupsAnnotation = Some v
           \<and> split_groups v = (if ct_organization crt = [''''] then [] else ct_organization crt))"
proof (cases "parse_certificate_base64 W c")
  case (Inr crt)
  show ?thesis
  proof (cases "validate_groups (ct_organization crt)")
    case None
    then have nl: "\<forall>g\<in>set (ct_organization crt). newline \<notin> set g"
      by (simp add: validate_groups_None)
    have "split_groups (join [newline] (ct_organization crt))
        = (if ct_organization crt = [''''] then [] else ct_organization crt)"
      using nl by (cases "ct_organization crt = []")
        (auto simp: split_groups_def join_eq_Nil split_byte_join)
    with None Inr show ?thesis by (simp add: identity_annotations_def)
  next
    case (Some e)
    then have "\<exists>g\<in>set (ct_organization crt). newline \<in> set g"
      by (rule validate_groups_Some)
    with Some Inr show ?thesis by (simp add: identity_annotations_def)
  qed
qed (simp add: identity_annotations_def)

end
