(* ===== verification/Issue.thy ===== *)
theory Issue
  imports Storage
begin

text \<open>
  \<open>internal/helpers/kube/config\<close> (build.go, gen.go) with \<open>configmaps.CACrt\<close>: minting a
  client certificate through the CSR API, storing it, and building the kubeconfig document.
  The generator keeps two values it resolves on first use, the cluster CA and the server URL,
  so every operation takes the generator and returns it.
\<close>

section \<open>Data\<close>

record cluster_info =
  ci_ca_data :: string
  ci_proxy_url :: string
  ci_server :: string

record cert_info =
  ce_cert_data :: string
  ce_key_data :: string

text \<open>\<open>KubeConfig\<close>, with its named clusters, contexts (cluster, user) and users.\<close>

record kube_config =
  kc_api_version :: string
  kc_kind :: string
  kc_clusters :: "(string \<times> cluster_info) list"
  kc_contexts :: "(string \<times> string \<times> string) list"
  kc_current :: string
  kc_users :: "(string \<times> cert_info) list"

record generator =
  g_ca_data :: string
  g_proxy_url :: string
  g_cluster_name :: string
  g_kubernetes_url :: string
  g_cert_duration :: duration

text \<open>The generator's options, applied in order by \<open>NewGenerator\<close>.\<close>

datatype generator_option =
    OptCAData string | OptProxyURL string | OptClusterName string | OptKubernetesURL string
  | OptCertDuration duration

fun apply_option :: "generator \<Rightarrow> generator_option \<Rightarrow> generator" where
  "apply_option g (OptCAData v) = g\<lparr>g_ca_data := v\<rparr>"
| "apply_option g (OptProxyURL v) = g\<lparr>g_proxy_url := v\<rparr>"
| "apply_option g (OptClusterName v) = g\<lparr>g_cluster_name := v\<rparr>"
| "apply_option g (OptKubernetesURL v) = g\<lparr>g_kubernetes_url := v\<rparr>"
| "apply_option g (OptCertDuration v) = g\<lparr>g_cert_duration := v\<rparr>"

definition new_generator :: "generator_option list \<Rightarrow> generator" where
  "new_generator opts = foldl apply_option
     \<lparr>g_ca_data = '''', g_proxy_url = '''', g_cluster_name = '''', g_kubernetes_url = '''',
      g_cert_duration = 0\<rparr> opts"

section \<open>The group check\<close>

text \<open>The loop of \<open>checkGroups\<close> over the groups: the number of reserved ones, or the refusal.\<close>

fun count_reserved :: "bool \<Rightarrow> string list \<Rightarrow> gerr + nat" where
  "count_reserved stepUp [] = Inr 0"
| "count_reserved stepUp (g # gs) =
     (if \<not> is_reserved g then count_reserved stepUp gs
      else if \<not> stepUp
        then Inl (Err [Str ''group '', Quo g, Str '' is reserved to authn and cannot be issued by a login''])
      else case count_reserved stepUp gs of Inl e \<Rightarrow> Inl e | Inr n \<Rightarrow> Inr (Suc n))"

definition check_groups :: "user \<Rightarrow> bool \<Rightarrow> gerr option" where
  "check_groups u stepUp =
     (case validate_groups (u_groups u) of
        Some e \<Rightarrow> Some e
      | None \<Rightarrow>
          (case count_reserved stepUp (u_groups u) of
             Inl e \<Rightarrow> Some e
           | Inr reserved \<Rightarrow>
               if stepUp \<and> reserved = 0
               then Some (Err [Str ''a step-up credential must carry a '', Str ReservedGroupPrefix, Str '' group''])
               else None))"

lemma count_reserved_session:
  "count_reserved False gs = Inr n \<longleftrightarrow> n = 0 \<and> (\<forall>g\<in>set gs. \<not> is_reserved g)"
  by (induction gs) auto

lemma count_reserved_step_up:
  "count_reserved True gs = Inr (length (filter is_reserved gs))"
  by (induction gs) auto

lemma check_groups_session:
  "check_groups u False = None \<longleftrightarrow> unprivileged u \<and> (\<forall>g\<in>set (u_groups u). newline \<notin> set g)"
proof (cases "count_reserved False (u_groups u)")
  case (Inl e)
  then have "\<not> unprivileged u"
    using count_reserved_session [of "u_groups u" 0] by (auto simp: unprivileged_def)
  with Inl show ?thesis by (auto simp: check_groups_def split: option.splits)
next
  case (Inr n)
  then have "unprivileged u"
    by (simp add: unprivileged_def count_reserved_session)
  with Inr show ?thesis
    by (auto simp: check_groups_def validate_groups_None split: option.splits
        dest: validate_groups_Some)
qed

lemma check_groups_step_up:
  "check_groups u True = None \<longleftrightarrow>
     (\<exists>g\<in>set (u_groups u). is_reserved g) \<and> (\<forall>g\<in>set (u_groups u). newline \<notin> set g)"
  using validate_groups_None [of "u_groups u"]
  by (auto simp: check_groups_def count_reserved_step_up filter_empty_conv split: option.splits
      dest: validate_groups_Some)

section \<open>Minting\<close>

text \<open>
  \<open>generateClientCertAndKey\<close>: certificate and key base64-PEM encoded, and the parsed leaf.
  Once the CSR exists it is deleted whatever happens next (the deferred call), and a failure
  to delete it is only logged.
\<close>

definition generate_client_cert_and_key ::
  "world \<Rightarrow> string \<Rightarrow> string \<Rightarrow> string list \<Rightarrow> duration \<Rightarrow> history
     \<Rightarrow> (gerr + (string \<times> string \<times> cert)) \<times> history" where
  "generate_client_cert_and_key W userID username groups dur h =
     (case new_private_key W h of
        (Inl e, h) \<Rightarrow> (Inl e, h)
      | (Inr key, h) \<Rightarrow>
     (case new_certificate_request W key username groups of
        Inl e \<Rightarrow> (Inl e, h)
      | Inr req \<Rightarrow>
     (case ask_csr_create W (new_csr req dur userID username) h of
        (Inl e, h) \<Rightarrow> (Inl (Wrap [Str ''creating CSR kubernetes object: ''] e []), h)
      | (Inr csr, h) \<Rightarrow>
          let (r, h) =
            (case approve_csr W csr h of
               (Some e, h) \<Rightarrow> (Inl e, h)
             | (None, h) \<Rightarrow>
            (case wait_for_certificate W (csr_name csr) (csr_uid csr) h of
               (Inl e, h) \<Rightarrow> (Inl e, h)
             | (Inr crt, h) \<Rightarrow>
            (case parse_certificate_pem W crt of
               Inl e \<Rightarrow> (Inl (Wrap [Str ''parsing issued certificate: ''] e []), h)
             | Inr leaf \<Rightarrow>
                 (Inr (w_base64_enc W crt,
                       w_base64_enc W (w_pem_encode W ''RSA PRIVATE KEY'' key), leaf), h))))
          in (r, snd (delete_csr W (csr_name csr) h)))))"

text \<open>The configmap every namespace carries the cluster CA in.\<close>

definition ca_crt :: "world \<Rightarrow> history \<Rightarrow> (gerr + string) \<times> history" where
  "ca_crt W h =
     (case operator_namespace W of
        Inl e \<Rightarrow> (Inl e, h)
      | Inr ns \<Rightarrow>
     (case ask_config_map W ns ''kube-root-ca.crt'' h of
        (Inl e, h) \<Rightarrow>
          (Inl (if is_not_found e
                then Err [Str ''configmaps 'kube-root-ca.crt' not found (namespace: '', Str ns, Str '')'']
                else e), h)
      | (Inr data, h) \<Rightarrow>
     (case data ''ca.crt'' of
        None \<Rightarrow> (Inl (Err [Str ''ca.crt key not found in configmaps 'kube-root-ca.crt' (namespace: '',
                          Str ns, Str '')'']), h)
      | Some crt \<Rightarrow> (Inr (w_base64_enc W crt), h))))"

definition join_host_port :: "string \<Rightarrow> string \<Rightarrow> string" where
  "join_host_port host port =
     (if CHR '':'' \<in> set host then ''['' @ host @ '']:'' @ port else host @ '':'' @ port)"

definition ErrNotInCluster :: gerr where
  "ErrNotInCluster = Err [Str ''unable to load in-cluster configuration, KUBERNETES_SERVICE_HOST and KUBERNETES_SERVICE_PORT must be defined'']"

text \<open>The server URL written into the kubeconfig, resolved once.\<close>

definition resolve_url :: "world \<Rightarrow> generator \<Rightarrow> gerr + generator" where
  "resolve_url W g =
     (if length (g_kubernetes_url g) = 0
      then let host = w_getenv W ''KUBERNETES_SERVICE_HOST''; port = w_getenv W ''KUBERNETES_SERVICE_PORT''
           in if length host = 0 \<or> length port = 0 then Inl ErrNotInCluster
              else Inr (g\<lparr>g_kubernetes_url := ''https://'' @ join_host_port host port\<rparr>)
      else Inr g)"

definition generate_cert_and_cluster_info ::
  "world \<Rightarrow> generator \<Rightarrow> user \<Rightarrow> duration \<Rightarrow> history
     \<Rightarrow> (gerr + (cert_info \<times> cluster_info \<times> time)) \<times> generator \<times> history" where
  "generate_cert_and_cluster_info W g u dur h =
     (case resolve_url W g of
        Inl e \<Rightarrow> (Inl e, g, h)
      | Inr g \<Rightarrow>
     (case w_client_error W of
        Some e \<Rightarrow> (Inl e, g, h)
      | None \<Rightarrow>
     (case generate_client_cert_and_key W (u_id u) (u_name u) (u_groups u) dur h of
        (Inl e, h) \<Rightarrow> (Inl e, g, h)
      | (Inr (crt, key, leaf), h) \<Rightarrow>
          (Inr (\<lparr>ce_cert_data = crt, ce_key_data = key\<rparr>,
                \<lparr>ci_ca_data = g_ca_data g, ci_proxy_url = '''', ci_server = g_kubernetes_url g\<rparr>,
                ct_not_after leaf), g, h))))"

definition auth_info_of :: "strategy \<Rightarrow> cert_info \<Rightarrow> cluster_info \<Rightarrow> bool \<Rightarrow> auth_info" where
  "auth_info_of strategy ce ci stepUp =
     \<lparr>ai_server = ci_server ci, ai_proxy_url = ci_proxy_url ci, ai_ca_data = ci_ca_data ci,
      ai_cert_data = ce_cert_data ce, ai_key_data = ce_key_data ce, ai_strategy = strategy,
      ai_step_up = stepUp\<rparr>"

text \<open>\<open>issue\<close>: the CA, the certificate, the Secret.\<close>

definition issue ::
  "world \<Rightarrow> generator \<Rightarrow> strategy \<Rightarrow> user \<Rightarrow> duration \<Rightarrow> bool \<Rightarrow> history
     \<Rightarrow> (gerr + (cert_info \<times> cluster_info \<times> time)) \<times> generator \<times> history" where
  "issue W g strategy u dur stepUp h =
     (case (if length (g_ca_data g) = 0
            then (case ca_crt W h of
                    (Inl e, h) \<Rightarrow> (Inl e, h)
                  | (Inr ca, h) \<Rightarrow> (Inr (g\<lparr>g_ca_data := ca\<rparr>), h))
            else (Inr g, h)) of
        (Inl e, h) \<Rightarrow> (Inl e, g, h)
      | (Inr g, h) \<Rightarrow>
     (case generate_cert_and_cluster_info W g u dur h of
        (Inl e, g, h) \<Rightarrow> (Inl e, g, h)
      | (Inr (ce, ci, notAfter), g, h) \<Rightarrow>
     (case store_put W (u_name u) (auth_info_of strategy ce ci stepUp) h of
        (Some e, h) \<Rightarrow> (Inl e, g, h)
      | (None, h) \<Rightarrow> (Inr (ce, ci, notAfter), g, h))))"

definition kube_config_of :: "generator \<Rightarrow> user \<Rightarrow> cert_info \<Rightarrow> cluster_info \<Rightarrow> kube_config" where
  "kube_config_of g u ce ci =
     \<lparr>kc_api_version = ''v1'', kc_kind = ''Config'',
      kc_clusters = [(g_cluster_name g, ci)],
      kc_contexts = [(g_cluster_name g, g_cluster_name g, u_name u)],
      kc_current = g_cluster_name g,
      kc_users = [(u_name u, ce)]\<rparr>"

definition generate ::
  "world \<Rightarrow> generator \<Rightarrow> strategy \<Rightarrow> user \<Rightarrow> history
     \<Rightarrow> (gerr + (kube_config \<times> time)) \<times> generator \<times> history" where
  "generate W g strategy u h =
     (case check_groups u False of
        Some e \<Rightarrow> (Inl e, g, h)
      | None \<Rightarrow>
     (case issue W g strategy u (g_cert_duration g) False h of
        (Inl e, g, h) \<Rightarrow> (Inl e, g, h)
      | (Inr (ce, ci, notAfter), g, h) \<Rightarrow> (Inr (kube_config_of g u ce ci, notAfter), g, h)))"

definition generate_step_up ::
  "world \<Rightarrow> generator \<Rightarrow> strategy \<Rightarrow> user \<Rightarrow> duration \<Rightarrow> history
     \<Rightarrow> (gerr + time) \<times> generator \<times> history" where
  "generate_step_up W g strategy u ttl h =
     (case check_groups u True of
        Some e \<Rightarrow> (Inl e, g, h)
      | None \<Rightarrow>
     (case issue W g strategy u ttl True h of
        (Inl e, g, h) \<Rightarrow> (Inl e, g, h)
      | (Inr (_, _, notAfter), g, h) \<Rightarrow> (Inr notAfter, g, h)))"

section \<open>What an issuance may do\<close>

text \<open>
  The calls of one issuance for user \<open>u\<close>: it reads the CA, makes a key, has one CSR signed
  and deletes it, and writes Secrets named for the user and the kind of credential.
\<close>

fun issuance_call :: "(string \<Rightarrow> bool) \<Rightarrow> strategy \<Rightarrow> call \<Rightarrow> bool" where
  "issuance_call ok s (CConfigMapGet _ _) = True"
| "issuance_call ok s CGenKey = True"
| "issuance_call ok s (CCsrCreate c) = (csr_signer c = customSignerName)"
| "issuance_call ok s (CCsrApprove _) = True"
| "issuance_call ok s (CCsrWait _ _) = True"
| "issuance_call ok s (CCsrDelete _) = True"
| "issuance_call ok s (CSecretCreate t) = (ok (sec_name t) \<and> sec_annotations t StrategyAnnotation = Some s)"
| "issuance_call ok s (CSecretUpdate t) = (ok (sec_name t) \<and> sec_annotations t StrategyAnnotation = Some s)"
| "issuance_call ok s _ = False"

text \<open>A CSR is left behind when one was created and the last call is not its deletion.\<close>

fun csr_created :: "call \<Rightarrow> bool" where
  "csr_created (CCsrCreate _) = True"
| "csr_created _ = False"

lemma mint_cases:
  assumes "generate_client_cert_and_key W uid n gs d h = (r, h')"
  shows "h' = h @ [CGenKey] \<and> \<not> isOk r
    \<or> (\<exists>key req e. h' = h @ [CGenKey, CCsrCreate (new_csr req d uid n)]
         \<and> new_certificate_request W key n gs = Inr req
         \<and> w_csr_create W (h @ [CGenKey]) (new_csr req d uid n) = Inl e \<and> \<not> isOk r)
    \<or> (\<exists>key req c mid. h' = h @ [CGenKey, CCsrCreate (new_csr req d uid n)] @ mid @ [CCsrDelete (csr_name c)]
         \<and> new_certificate_request W key n gs = Inr req
         \<and> w_csr_create W (h @ [CGenKey]) (new_csr req d uid n) = Inr c
         \<and> mid \<in> {[CCsrApprove (c\<lparr>csr_conditions := csr_conditions c @ [''Approved'']\<rparr>)],
                  [CCsrApprove (c\<lparr>csr_conditions := csr_conditions c @ [''Approved'']\<rparr>), CCsrWait (csr_name c) (csr_uid c)]}
         \<and> (isOk r \<longrightarrow> length mid = 2))"
proof -
  show ?thesis
  proof (cases "w_gen_key W h")
    case (Inl e)
    with assms show ?thesis
      by (auto simp: generate_client_cert_and_key_def new_private_key_def ask_defs)
  next
    case (Inr key)
    note k = this
    show ?thesis
    proof (cases "new_certificate_request W key n gs")
      case (Inl e)
      with assms k show ?thesis
        by (auto simp: generate_client_cert_and_key_def new_private_key_def ask_defs)
    next
      case (Inr req)
      note q = this
      show ?thesis
      proof (cases "w_csr_create W (h @ [CGenKey]) (new_csr req d uid n)")
        case (Inl e)
        with assms k q show ?thesis
          by (auto simp: generate_client_cert_and_key_def new_private_key_def ask_defs)
      next
        case (Inr c)
        let ?a = "CCsrApprove (c\<lparr>csr_conditions := csr_conditions c @ [''Approved'']\<rparr>)"
        let ?w = "CCsrWait (csr_name c) (csr_uid c)"
        have "\<exists>mid. h' = h @ [CGenKey, CCsrCreate (new_csr req d uid n)] @ mid @ [CCsrDelete (csr_name c)]
            \<and> mid \<in> {[?a], [?a, ?w]} \<and> (isOk r \<longrightarrow> length mid = 2)"
          using assms k q Inr
          by (auto simp: generate_client_cert_and_key_def new_private_key_def approve_csr_def
              wait_for_certificate_def delete_csr_def ask_defs Let_def
              split: sum.splits option.splits if_splits prod.splits)
        with q Inr show ?thesis by blast
      qed
    qed
  qed
qed

lemma mint_calls:
  assumes "generate_client_cert_and_key W uid n gs d h = (r, h')"
  shows "extends (issuance_call ok s) h h'"
  using mint_cases [OF assms] by (elim disjE exE conjE) (auto simp: extends_def new_csr_def)

lemma ca_crt_calls: "ca_crt W h = (r, h') \<Longrightarrow> extends (issuance_call ok s) h h'"
  by (auto simp: ca_crt_def ask_defs split: sum.splits option.splits)

lemma cluster_info_calls:
  "generate_cert_and_cluster_info W g u d h = (r, g', h') \<Longrightarrow> extends (issuance_call ok s) h h'"
  by (auto simp: generate_cert_and_cluster_info_def split: sum.splits option.splits prod.splits
      intro: mint_calls)

lemma store_calls:
  assumes "store_put W n (auth_info_of s ce ci stepUp) h = (r, h')"
  shows "extends (issuance_call (\<lambda>x. x = credential_name W stepUp n) s) h h'"
proof (rule extends_mono [OF secret_store.put_calls [OF assms]])
  fix c
  assume "stores (\<lambda>t. sec_name t = credential_name W (ai_step_up (auth_info_of s ce ci stepUp)) n
      \<and> sec_string_data t ClientCertLabel = Some (ai_cert_data (auth_info_of s ce ci stepUp))
      \<and> sec_annotations t StrategyAnnotation = Some (ai_strategy (auth_info_of s ce ci stepUp))) c"
  then show "issuance_call (\<lambda>x. x = credential_name W stepUp n) s c"
    by (cases c) (auto simp: stores_def auth_info_of_def)
qed

lemma issue_calls:
  assumes "issue W g s u d stepUp h = (r, g', h')"
  shows "extends (issuance_call (\<lambda>x. x = credential_name W stepUp (u_name u)) s) h h'"
  using assms unfolding issue_def
  by (auto split: sum.splits option.splits prod.splits if_splits
      dest!: store_calls ca_crt_calls [where s = s and ok = "\<lambda>x. x = credential_name W stepUp (u_name u)"]
        cluster_info_calls [where s = s and ok = "\<lambda>x. x = credential_name W stepUp (u_name u)"]
      intro: extends_trans)

section \<open>The generator as an interface\<close>

text \<open>
  \<open>kubeconfig.Generator\<close>: what the login routes rely on. An identity that fails the group
  check is refused before anything is done; an issuance makes only the calls above, and
  writes no Secret but the one of its user and kind.
\<close>

locale credential_issuer =
  fixes gen :: "'g \<Rightarrow> strategy \<Rightarrow> user \<Rightarrow> history \<Rightarrow> (gerr + 'k) \<times> 'g \<times> history"
    and accepts :: "user \<Rightarrow> bool"
    and owns :: "user \<Rightarrow> string \<Rightarrow> bool"
  assumes gen_refuses: "\<not> accepts u \<Longrightarrow> \<exists>e. gen g s u h = (Inl e, g, h)"
    and gen_calls: "gen g s u h = (r, g', h') \<Longrightarrow> extends (issuance_call (owns u) s) h h'"
begin

lemma gen_ok_accepted: "gen g s u h = (Inr k, g', h') \<Longrightarrow> accepts u"
  using gen_refuses [of u g s h] by force

lemma gen_reads_no_identity:
  "gen g s u h = (r, g', h') \<Longrightarrow> extends (\<lambda>c. \<forall>o'. c \<noteq> CSign o') h h'"
  by (rule extends_mono [OF gen_calls]) (auto simp: issuance_call.simps)

lemma gen_refused_silent: "\<not> accepts u \<Longrightarrow> gen g s u h = (r, g', h') \<Longrightarrow> g' = g \<and> h' = h \<and> \<not> isOk r"
  using gen_refuses [of u g s h] by force

end

text \<open>The groups either kind of credential may carry.\<close>

definition session_accepts :: "user \<Rightarrow> bool" where
  "session_accepts u \<longleftrightarrow> unprivileged u \<and> (\<forall>g\<in>set (u_groups u). newline \<notin> set g)"

definition step_up_accepts :: "user \<Rightarrow> bool" where
  "step_up_accepts u \<longleftrightarrow>
     (\<exists>g\<in>set (u_groups u). is_reserved g) \<and> (\<forall>g\<in>set (u_groups u). newline \<notin> set g)"

lemma generate_calls:
  "generate W g s u h = (r, g', h') \<Longrightarrow>
   extends (issuance_call (\<lambda>x. x = credential_name W False (u_name u)) s) h h'"
  by (auto simp: generate_def split: option.splits prod.splits sum.splits dest: issue_calls)

lemma generate_step_up_calls:
  "generate_step_up W g s u ttl h = (r, g', h') \<Longrightarrow>
   extends (issuance_call (\<lambda>x. x = credential_name W True (u_name u)) s) h h'"
  by (auto simp: generate_step_up_def split: option.splits prod.splits sum.splits dest: issue_calls)

interpretation session_issuer: credential_issuer
  "generate W" session_accepts "\<lambda>u x. x = credential_name W False (u_name u)" for W
proof unfold_locales
  fix u g s h
  assume "\<not> session_accepts u"
  then have "check_groups u False \<noteq> None"
    by (simp add: check_groups_session session_accepts_def)
  then show "\<exists>e. generate W g s u h = (Inl e, g, h)"
    by (auto simp: generate_def)
qed (rule generate_calls)

interpretation step_up_issuer: credential_issuer
  "\<lambda>g s u h. generate_step_up W g s u ttl h" step_up_accepts
  "\<lambda>u x. x = credential_name W True (u_name u)" for W ttl
proof unfold_locales
  fix u g s h
  assume "\<not> step_up_accepts u"
  then have "check_groups u True \<noteq> None"
    by (simp add: check_groups_step_up step_up_accepts_def)
  then show "\<exists>e. generate_step_up W g s u ttl h = (Inl e, g, h)"
    by (auto simp: generate_step_up_def)
qed (rule generate_step_up_calls)

section \<open>Properties\<close>


text \<open>
  C15. No CSR is left behind: whatever fails after the apiserver has accepted a CSR (approval,
  the wait, parsing the certificate), the last call of minting is the deletion of that CSR,
  and a certificate is returned only after it was approved and waited for.
\<close>

theorem csr_always_deleted:
  "case generate_client_cert_and_key W uid n gs d h of (r, h') \<Rightarrow>
     list_all (\<lambda>c. \<not> csr_created c) (new_calls h h') \<and> (\<exists>e. r = Inl e)
     \<or> (\<exists>req e e'. new_calls h h' = [CGenKey, CCsrCreate (new_csr req d uid n)]
          \<and> w_csr_create W (h @ [CGenKey]) (new_csr req d uid n) = Inl e \<and> r = Inl e')
     \<or> (\<exists>req made. w_csr_create W (h @ [CGenKey]) (new_csr req d uid n) = Inr made
          \<and> last h' = CCsrDelete (csr_name made)
          \<and> (case r of Inl _ \<Rightarrow> CCsrCreate (new_csr req d uid n) \<in> set (new_calls h h')
             | Inr _ \<Rightarrow> \<exists>a. new_calls h h' =
                 [CGenKey, CCsrCreate (new_csr req d uid n), CCsrApprove a,
                  CCsrWait (csr_name made) (csr_uid made), CCsrDelete (csr_name made)]))"
proof -
  obtain r h' where g: "generate_client_cert_and_key W uid n gs d h = (r, h')" by force
  from mint_cases [OF g] show ?thesis
    unfolding g prod.case
    by (elim disjE exE conjE) (cases r; auto)+
qed

text \<open>
  What an issuance writes: a login's issuance writes only Secrets named for that user's
  session credential, a step-up's only those of its step-up credential, each annotated with
  the strategy that asked; neither reads or writes another user's Secret or signs a token.
\<close>

lemma issuance_writes_own_secret_only:
  "list_all (issuance_call (\<lambda>x. x = client_config_secret_name W (u_name u)) s)
     (new_calls h (snd (snd (generate W g s u h))))
   \<and> list_all (issuance_call (\<lambda>x. x = step_up_secret_name W (u_name u)) s)
     (new_calls h (snd (snd (generate_step_up W g s u ttl h))))"
proof -
  have "extends (issuance_call (\<lambda>x. x = client_config_secret_name W (u_name u)) s) h
      (snd (snd (generate W g s u h)))"
    using session_issuer.gen_calls [of W g s u h "fst (generate W g s u h)"
        "fst (snd (generate W g s u h))"] by (simp add: credential_name_def)
  moreover have "extends (issuance_call (\<lambda>x. x = step_up_secret_name W (u_name u)) s) h
      (snd (snd (generate_step_up W g s u ttl h)))"
    using step_up_issuer.gen_calls [of W g s u ttl h "fst (generate_step_up W g s u ttl h)"
        "fst (snd (generate_step_up W g s u ttl h))"] by (simp add: credential_name_def)
  ultimately show ?thesis by (simp add: extends_list_all)
qed

end
