(* ===== verification/Encode.thy ===== *)
theory Encode
  imports Issue
begin

text \<open>
  \<open>internal/helpers/encode\<close>: the bodies authn answers with, the lifetime of the token in a
  login answer, and the writing of a success, a failure or an attachment. A body is the Go
  value handed to the JSON encoder.
\<close>

section \<open>Bodies\<close>

text \<open>\<open>encode.Strategy\<close>: the login that issued a session.\<close>

record strategy_ref =
  sr_kind :: string
  sr_name :: string

record login_user =
  lu_display_name :: string
  lu_username :: string
  lu_avatar_url :: string

record login_response =
  lr_access_token :: string
  lr_user :: "login_user option"
  lr_groups :: "string list"
  lr_strategy :: "strategy_ref option"
  lr_data :: "kube_config option"

text \<open>\<open>jwks.jwk\<close>: modulus and exponent base64url-encoded.\<close>

record jwk =
  jwk_kty :: string
  jwk_use :: string
  jwk_alg :: string
  jwk_kid :: string
  jwk_n :: string
  jwk_e :: string

text \<open>\<open>strategies.strategy\<close>: an entry of the list of login strategies.\<close>

record strategy_item =
  si_kind :: string
  si_name :: string
  si_graphics :: "graphics option"
  si_path :: string
  si_extensions :: "string \<rightharpoonup> string"

datatype answer =
    BStatus status
  | BLogin login_response
  | BAttachment kube_config
  | BKeySet "jwk list"
  | BHealth string string
  | BStrategies "strategy_item list"
  | BText string

type_synonym response = "answer writer"

text \<open>Whether a body carries a private key: only a kubeconfig does.\<close>

fun carries_key :: "answer \<Rightarrow> bool" where
  "carries_key (BLogin r) \<longleftrightarrow> lr_data r \<noteq> None"
| "carries_key (BAttachment _) \<longleftrightarrow> True"
| "carries_key _ \<longleftrightarrow> False"

text \<open>Whether a body carries any credential: a key or an access token.\<close>

fun carries_credential :: "answer \<Rightarrow> bool" where
  "carries_credential (BLogin r) \<longleftrightarrow> lr_data r \<noteq> None \<or> lr_access_token r \<noteq> ''''"
| "carries_credential (BAttachment _) \<longleftrightarrow> True"
| "carries_credential _ \<longleftrightarrow> False"

section \<open>Failures and attachments\<close>

definition failure :: "response \<Rightarrow> status \<Rightarrow> response" where
  "failure w st =
     write_body (write_header (set_header w ''Content-Type'' ''application/json'') (st_code st)) (BStatus st)"

definition unauthorized :: "response \<Rightarrow> gerr \<Rightarrow> response" where
  "unauthorized w e = failure w (status_new 401 (Some e))"

definition internal_error :: "response \<Rightarrow> gerr \<Rightarrow> response" where
  "internal_error w e = failure w (status_new 500 (Some e))"

definition method_not_allowed :: "response \<Rightarrow> gerr \<Rightarrow> response" where
  "method_not_allowed w e = failure w (status_new 405 (Some e))"

definition not_found :: "response \<Rightarrow> gerr \<Rightarrow> response" where
  "not_found w e = failure w (status_new 404 (Some e))"

definition forbidden :: "response \<Rightarrow> gerr \<Rightarrow> response" where
  "forbidden w e = failure w (status_new 403 (Some e))"

text \<open>\<open>fmt.Sprintf\<close> of the byte count needs the document's length, a parameter.\<close>

definition attach :: "(kube_config \<Rightarrow> nat) \<Rightarrow> response \<Rightarrow> string \<Rightarrow> kube_config \<Rightarrow> response" where
  "attach len w username dat =
     write_body (write_header
       (set_header (set_header (set_header w
          ''Content-Disposition'' (''attachment; filename='' @ username @ ''.json''))
          ''Content-Type'' ''application/json'')
          ''Content-Length'' (itoa (int (len dat)))) 200) (BAttachment dat)"

section \<open>The token's lifetime\<close>

definition DefaultJwtDuration :: duration where
  "DefaultJwtDuration = 8 * hour"

definition token_duration :: "world \<Rightarrow> duration \<Rightarrow> time \<Rightarrow> history \<Rightarrow> duration \<times> history" where
  "token_duration W requested notAfter h =
     (let requested = (if requested \<le> 0 then DefaultJwtDuration else requested)
      in if time_is_zero notAfter then (requested, h)
         else (case ask_now W h of (now, h) \<Rightarrow>
           let remaining = time_sub notAfter now
           in (if remaining < requested then remaining else requested, h)))"

section \<open>Success\<close>

record extras =
  ex_user :: "user option"
  ex_strategy :: "strategy_ref option"
  ex_jwt_duration :: duration
  ex_has_key :: bool
  ex_key_id :: string
  ex_cert_not_after :: time

definition success_body :: "world \<Rightarrow> kube_config option \<Rightarrow> extras option \<Rightarrow> history
     \<Rightarrow> (gerr + login_response) \<times> history" where
  "success_body W dat extras h =
     (let out = \<lparr>lr_access_token = '''', lr_user = None, lr_groups = [], lr_strategy = None,
                 lr_data = dat\<rparr>
      in case extras of
           None \<Rightarrow> (Inr out, h)
         | Some x \<Rightarrow>
             let out = out\<lparr>lr_strategy := ex_strategy x\<rparr>
             in (case ex_user x of
                   None \<Rightarrow> (Inr out, h)
                 | Some nfo \<Rightarrow>
                     let out = out\<lparr>lr_user := Some
                            \<lparr>lu_display_name = ext_get (u_extensions nfo) ''name'',
                             lu_username = u_name nfo,
                             lu_avatar_url = ext_get (u_extensions nfo) ''avatarUrl''\<rparr>,
                          lr_groups := u_groups nfo\<rparr>
                     in if \<not> ex_has_key x then (Inr out, h)
                        else (case token_duration W (ex_jwt_duration x) (ex_cert_not_after x) h of
                                (d, h) \<Rightarrow>
                              (case ask_sign W \<lparr>jo_username = u_name nfo, jo_groups = u_groups nfo,
                                    jo_duration = d, jo_key_id = ex_key_id x\<rparr> h of
                                 (Inl e, h) \<Rightarrow> (Inl e, h)
                               | (Inr tok, h) \<Rightarrow> (Inr (out\<lparr>lr_access_token := tok\<rparr>), h)))))"

definition success :: "world \<Rightarrow> response \<Rightarrow> kube_config option \<Rightarrow> extras option \<Rightarrow> history
     \<Rightarrow> gerr option \<times> response \<times> history" where
  "success W w dat extras h =
     (case success_body W dat extras h of
        (Inl e, h) \<Rightarrow>
          (Some e,
           failure w (from_error (failed CauseIssuanceFailed (Wrap [Str ''issuing access token: ''] e []))),
           h)
      | (Inr body, h) \<Rightarrow>
          (None, write_body (write_header (set_header w ''Content-Type'' ''application/json'') 200)
                   (BLogin body), h))"

section \<open>Facts the handlers use\<close>

lemma failure_body [body_simps]: "rw_body (failure w st) = rw_body w @ [BStatus st]"
  by (simp add: failure_def body_simps)

lemma failure_sent [body_simps]:
  "rw_sent w = None \<Longrightarrow> rw_sent (failure w st) =
     Some (st_code st, header_set (rw_header w) ''Content-Type'' ''application/json'')"
  by (simp add: failure_def body_simps write_body_def write_header_def set_header_def)

lemma answer_code_failure [body_simps]: "rw_sent w = None \<Longrightarrow> answer_code (failure w st) = st_code st"
  by (simp add: answer_code_def body_simps)

lemma failure_once: "unanswered w \<Longrightarrow> answered_once (failure w st)"
  by (simp add: unanswered_def answered_once_def body_simps)

lemma success_once: "unanswered w \<Longrightarrow> success W w dat x h = (r, w', h') \<Longrightarrow> answered_once w'"
  by (auto simp: success_def unanswered_def answered_once_def body_simps write_body_def
      write_header_def set_header_def split: prod.splits sum.splits)

lemma success_err_body:
  "success W w dat x h = (Some e, w', h') \<Longrightarrow>
   rw_body w' = rw_body w @ [BStatus (from_error (failed CauseIssuanceFailed
      (Wrap [Str ''issuing access token: ''] e [])))]"
  by (auto simp: success_def body_simps split: prod.splits sum.splits)

lemma success_ok_body:
  "success W w dat x h = (None, w', h') \<Longrightarrow>
   \<exists>r. rw_body w' = rw_body w @ [BLogin r] \<and> success_body W dat x h = (Inr r, h')"
  by (auto simp: success_def body_simps split: prod.splits sum.splits)

lemma success_body_data:
  "success_body W dat x h = (Inr r, h') \<Longrightarrow> lr_data r = dat"
  by (auto simp: success_body_def Let_def split: option.splits prod.splits sum.splits if_splits)

text \<open>The calls of a success: at most a look at the clock and one signature.\<close>

definition signs :: "extras option \<Rightarrow> call \<Rightarrow> bool" where
  "signs x c \<longleftrightarrow> (\<exists>e u d. x = Some e \<and> ex_user e = Some u \<and>
     c = CSign \<lparr>jo_username = u_name u, jo_groups = u_groups u, jo_duration = d,
                jo_key_id = ex_key_id e\<rparr>)"

lemma success_body_calls:
  "success_body W dat x h = (r, h') \<Longrightarrow> extends (\<lambda>c. c = CNow \<or> signs x c) h h'"
  by (auto simp: success_body_def token_duration_def Let_def ask_defs extends_def signs_def
      split: option.splits prod.splits sum.splits if_splits)

lemma success_calls:
  "success W w dat x h = (r, w', h') \<Longrightarrow> extends (\<lambda>c. c = CNow \<or> signs x c) h h'"
  by (auto simp: success_def split: prod.splits sum.splits dest: success_body_calls)

section \<open>Properties\<close>

text \<open>
  C16. The token never outlives the certificate it comes with: whatever a login answers, each
  token it has signed is for the user and groups of the answer, lasts at most what was
  requested (eight hours when nothing was), and, the certificate's expiry being known, at
  most what is left of the certificate when the clock is read.
\<close>

theorem token_never_outlives_certificate:
  "list_all (\<lambda>c. case c of
       CSign o' \<Rightarrow>
         jo_duration o' \<le> (if ex_jwt_duration x \<le> 0 then DefaultJwtDuration else ex_jwt_duration x)
         \<and> (time_is_zero (ex_cert_not_after x)
            \<or> jo_duration o' \<le> time_sub (ex_cert_not_after x) (w_now W h))
         \<and> (\<exists>u. ex_user x = Some u \<and> jo_username o' = u_name u \<and> jo_groups o' = u_groups u)
     | _ \<Rightarrow> True)
     (new_calls h (snd (snd (success W w dat (Some x) h))))"
  by (auto simp: success_def success_body_def token_duration_def Let_def ask_defs
      split: option.splits prod.splits sum.splits if_splits)

end
