(* ===== verification/GoUrl.thy ===== *)
theory GoUrl
  imports World
begin

text \<open>
  What the program uses of \<open>net/url\<close> and of \<open>encoding/json\<close>'s decoding into structs and maps:
  query escaping, \<open>url.Values\<close> and its encoding in key order, and reading a field of a
  decoded JSON object. Parsing the JSON text itself is the world's \<open>w_json\<close>.
\<close>

section \<open>Query strings\<close>

definition hex_digit :: "nat \<Rightarrow> char" where
  "hex_digit n = ''0123456789ABCDEF'' ! (n mod 16)"

definition unreserved_byte :: "char \<Rightarrow> bool" where
  "unreserved_byte c \<longleftrightarrow>
     (let b = byte_of c
      in (97 \<le> b \<and> b \<le> 122) \<or> (65 \<le> b \<and> b \<le> 90) \<or> (48 \<le> b \<and> b \<le> 57) \<or> b \<in> {45, 46, 95, 126})"

fun query_escape :: "string \<Rightarrow> string" where
  "query_escape [] = []"
| "query_escape (c # cs) =
     (if unreserved_byte c then [c]
      else if c = CHR '' '' then ''+''
      else [CHR ''%'', hex_digit (byte_of c div 16), hex_digit (byte_of c)]) @ query_escape cs"

fun bytes_less :: "string \<Rightarrow> string \<Rightarrow> bool" where
  "bytes_less _ [] = False"
| "bytes_less [] (_ # _) = True"
| "bytes_less (a # as) (b # bs) = (byte_of a < byte_of b \<or> (a = b \<and> bytes_less as bs))"

type_synonym url_values = "(string \<times> string) list"

text \<open>\<open>Values.Set\<close>: the pairs are kept in key order, one value per key.\<close>

fun val_set :: "url_values \<Rightarrow> string \<Rightarrow> string \<Rightarrow> url_values" where
  "val_set [] k v = [(k, v)]"
| "val_set ((j, w) # vs) k v =
     (if j = k then (k, v) # vs
      else if bytes_less k j then (k, v) # (j, w) # vs
      else (j, w) # val_set vs k v)"

definition val_encode :: "url_values \<Rightarrow> string" where
  "val_encode vs = join ''&'' (map (\<lambda>(k, v). query_escape k @ ''='' @ query_escape v) vs)"

lemma set_val_set: "(j, w) \<in> set (val_set vs k v) \<Longrightarrow> (j, w) = (k, v) \<or> (j, w) \<in> set vs"
  by (induction vs) (auto split: if_splits)

lemma val_set_mem: "(k, v) \<in> set (val_set vs k v)"
  by (induction vs) auto

lemma query_escape_safe:
  "c \<in> set (query_escape s) \<Longrightarrow> unreserved_byte c \<or> c \<in> {CHR ''+'', CHR ''%''}"
proof (induction s)
  case (Cons a s)
  have hx: "unreserved_byte (hex_digit n)" for n
  proof -
    have "n mod 16 \<in> {0..<16}" by simp
    then show ?thesis
      by (auto simp: hex_digit_def unreserved_byte_def Let_def byte_of_def atLeastLessThan_nat_numeral
          nth_Cons split: nat.splits)
  qed
  with Cons show ?case by (auto split: if_splits)
qed simp

section \<open>Decoded JSON\<close>

text \<open>
  Decoding an object into a struct: keys match field names without regard to case, a later
  pair overrides an earlier one, null leaves the field, and a value of another type is an
  error reported at the end. Decoding null into a struct or map leaves it empty.
\<close>

definition ErrJsonType :: gerr where
  "ErrJsonType = Err [Str ''json: cannot unmarshal value of another type into Go struct field'']"

fun json_fields :: "json \<Rightarrow> gerr + (string \<times> json) list" where
  "json_fields JNull = Inr []"
| "json_fields (JObj kvs) = Inr kvs"
| "json_fields _ = Inl ErrJsonType"

fun json_str_field :: "string \<Rightarrow> (string \<times> json) list \<Rightarrow> string \<Rightarrow> string" where
  "json_str_field f [] acc = acc"
| "json_str_field f ((k, v) # kvs) acc =
     json_str_field f kvs (if equal_fold k f then (case v of JStr s \<Rightarrow> s | _ \<Rightarrow> acc) else acc)"

definition json_str_ok :: "string \<Rightarrow> (string \<times> json) list \<Rightarrow> bool" where
  "json_str_ok f kvs \<longleftrightarrow>
     list_all (\<lambda>(k, v). equal_fold k f \<longrightarrow> (case v of JStr _ \<Rightarrow> True | JNull \<Rightarrow> True | _ \<Rightarrow> False)) kvs"

text \<open>An \<open>int\<close> field takes a number written as an integer in range.\<close>

definition json_int_ok :: "string \<Rightarrow> (string \<times> json) list \<Rightarrow> bool" where
  "json_int_ok f kvs \<longleftrightarrow>
     list_all (\<lambda>(k, v). equal_fold k f \<longrightarrow>
       (case v of JNum q \<Rightarrow> of_int \<lfloor>q\<rfloor> = q \<and> - (2 ^ 63) \<le> q \<and> q < 2 ^ 63 | JNull \<Rightarrow> True | _ \<Rightarrow> False)) kvs"

text \<open>
  A \<open>map[string]any\<close>: pairs with distinct keys, in the order a \<open>range\<close> over it happens to
  visit them. Decoding into one, the last pair of a key wins.
\<close>

type_synonym go_map = "(string \<times> json) list"

fun go_put :: "go_map \<Rightarrow> string \<Rightarrow> json \<Rightarrow> go_map" where
  "go_put [] k v = [(k, v)]"
| "go_put ((j, w) # m) k v = (if j = k then (k, v) # m else (j, w) # go_put m k v)"

definition go_put_all :: "go_map \<Rightarrow> (string \<times> json) list \<Rightarrow> go_map" where
  "go_put_all m kvs = foldl (\<lambda>m (k, v). go_put m k v) m kvs"

definition go_get :: "go_map \<Rightarrow> string \<Rightarrow> json option" where
  "go_get m k = map_of m k"

lemma go_get_put: "go_get (go_put m k v) j = (if j = k then Some v else go_get m j)"
  by (induction m k v rule: go_put.induct) (auto simp: go_get_def)

lemma keys_put: "fst ` set (go_put m k v) = insert k (fst ` set m)"
  by (induction m k v rule: go_put.induct) (simp_all add: insert_commute)

lemma distinct_put: "distinct (map fst m) \<Longrightarrow> distinct (map fst (go_put m k v))"
  by (induction m k v rule: go_put.induct) (auto simp: keys_put)

lemma distinct_put_all: "distinct (map fst m) \<Longrightarrow> distinct (map fst (go_put_all m kvs))"
  by (induction kvs arbitrary: m) (auto simp: go_put_all_def distinct_put)

definition unmarshal_map :: "world \<Rightarrow> string \<Rightarrow> gerr + go_map" where
  "unmarshal_map W s =
     (case w_json W s of
        Inl e \<Rightarrow> Inl e
      | Inr j \<Rightarrow> (case json_fields j of Inl e \<Rightarrow> Inl e | Inr kvs \<Rightarrow> Inr (go_put_all [] kvs)))"

text \<open>A field that is a map: null empties it, an object adds its pairs, anything else is an error.\<close>

fun json_map_field :: "string \<Rightarrow> (string \<times> json) list \<Rightarrow> go_map \<Rightarrow> go_map" where
  "json_map_field f [] acc = acc"
| "json_map_field f ((k, v) # kvs) acc =
     json_map_field f kvs
       (if equal_fold k f
        then (case v of JNull \<Rightarrow> [] | JObj xs \<Rightarrow> go_put_all acc xs | _ \<Rightarrow> acc)
        else acc)"

definition json_map_ok :: "string \<Rightarrow> (string \<times> json) list \<Rightarrow> bool" where
  "json_map_ok f kvs \<longleftrightarrow>
     list_all (\<lambda>(k, v). equal_fold k f \<longrightarrow> (case v of JObj _ \<Rightarrow> True | JNull \<Rightarrow> True | _ \<Rightarrow> False)) kvs"

text \<open>
  Go's \<open>int64(f)\<close> of a \<open>float64\<close>: truncation towards zero; out of range the language leaves
  the result to the implementation, a parameter.
\<close>

definition float_to_int64 :: "world \<Rightarrow> rat \<Rightarrow> int" where
  "float_to_int64 W q =
     (let t = (if 0 \<le> q then \<lfloor>q\<rfloor> else \<lceil>q\<rceil>)
      in if - (2 ^ 63) \<le> t \<and> t < 2 ^ 63 then t else w_int64_out_of_range W q)"

end
