(* ===== verification/Resolvers.thy ===== *)
theory Resolvers
  imports GoUrl
begin

text \<open>
  \<open>internal/helpers/kube/resolvers\<close>: the readers of authn's custom resources in the operator
  namespace, with the completion of an OIDC configuration from its discovery document, and
  \<open>secrets.Get\<close>/\<open>List\<close>/\<open>CreateOrUpdate\<close>/\<open>Delete\<close> (\<open>internal/helpers/kube/secrets\<close>).
\<close>

section \<open>Clients\<close>

text \<open>The prologue every resolver starts with: the namespace, then a REST client.\<close>

definition resolver_namespace :: "world \<Rightarrow> gerr + string" where
  "resolver_namespace W =
     (case operator_namespace W of
        Inl e \<Rightarrow> Inl (Wrap [Str ''unable to resolve service namespace: ''] e [])
      | Inr ns \<Rightarrow> (case w_client_error W of Some e \<Rightarrow> Inl e | None \<Rightarrow> Inr ns))"

definition secrets_get :: "world \<Rightarrow> selector \<Rightarrow> history \<Rightarrow> (gerr + secret) \<times> history" where
  "secrets_get W sel h =
     (case w_client_error W of
        Some e \<Rightarrow> (Inl e, h)
      | None \<Rightarrow> ask_secret_get W (sel_namespace sel) (sel_name sel) h)"

definition secrets_list :: "world \<Rightarrow> string \<Rightarrow> history \<Rightarrow> (gerr + secret list) \<times> history" where
  "secrets_list W ns h =
     (case w_client_error W of Some e \<Rightarrow> (Inl e, h) | None \<Rightarrow> ask_secret_list W ns h)"

definition secrets_create :: "world \<Rightarrow> secret \<Rightarrow> history \<Rightarrow> gerr option \<times> history" where
  "secrets_create W s h =
     (case w_client_error W of Some e \<Rightarrow> (Some e, h) | None \<Rightarrow> ask_secret_create W s h)"

definition secrets_update :: "world \<Rightarrow> secret \<Rightarrow> history \<Rightarrow> gerr option \<times> history" where
  "secrets_update W s h =
     (case w_client_error W of Some e \<Rightarrow> (Some e, h) | None \<Rightarrow> ask_secret_update W s h)"

definition secrets_create_or_update :: "world \<Rightarrow> secret \<Rightarrow> history \<Rightarrow> gerr option \<times> history" where
  "secrets_create_or_update W s h =
     (case w_client_error W of
        Some e \<Rightarrow> (Some e, h)
      | None \<Rightarrow>
     (case ask_secret_get W (sec_namespace s) (sec_name s) h of
        (Inl e, h) \<Rightarrow> if is_not_found e then ask_secret_create W s h else (Some e, h)
      | (Inr old, h) \<Rightarrow> ask_secret_update W (s\<lparr>sec_version := sec_version old\<rparr>) h))"

definition secrets_delete :: "world \<Rightarrow> selector \<Rightarrow> history \<Rightarrow> gerr option \<times> history" where
  "secrets_delete W sel h =
     (case w_client_error W of
        Some e \<Rightarrow> (Some e, h)
      | None \<Rightarrow> ask_secret_delete W (sel_namespace sel) (sel_name sel) None h)"

section \<open>Users and mappings\<close>

definition user_list :: "world \<Rightarrow> history \<Rightarrow> (gerr + user_cr list) \<times> history" where
  "user_list W h =
     (case resolver_namespace W of Inl e \<Rightarrow> (Inl e, h) | Inr ns \<Rightarrow> ask_user_list W ns h)"

definition user_get :: "world \<Rightarrow> string \<Rightarrow> history \<Rightarrow> (gerr + user_cr) \<times> history" where
  "user_get W name h =
     (case resolver_namespace W of Inl e \<Rightarrow> (Inl e, h) | Inr ns \<Rightarrow> ask_user_get W ns name h)"

definition ErrNoMapping :: string where "ErrNoMapping = ''no ServiceAccount mapping''"
definition ErrAmbiguousMapping :: string where
  "ErrAmbiguousMapping = ''ambiguous ServiceAccount mapping''"

definition refers_to :: "string \<Rightarrow> string \<Rightarrow> sa_cr \<Rightarrow> bool" where
  "refers_to ns n m \<longleftrightarrow>
     (case sa_ref m of None \<Rightarrow> False | Some r \<Rightarrow> ref_namespace r = ns \<and> ref_name r = n)"

text \<open>The loop of \<open>ServiceAccountForSA\<close>, with the match found so far.\<close>

fun match_mapping :: "string \<Rightarrow> string \<Rightarrow> sa_cr option \<Rightarrow> sa_cr list \<Rightarrow> gerr + sa_cr" where
  "match_mapping ns n None [] =
     Inl (Wrap [] (Sentinel ErrNoMapping)
       [Str '' for serviceaccount '', Str ns, Str ''/'', Str n, Str '' (not in the exchange allowlist)''])"
| "match_mapping ns n (Some m) [] = Inr m"
| "match_mapping ns n found (x # xs) =
     (if refers_to ns n x
      then (case found of
              Some _ \<Rightarrow> Inl (Wrap [] (Sentinel ErrAmbiguousMapping)
                [Str '': multiple ServiceAccount resources reference '', Str ns, Str ''/'', Str n])
            | None \<Rightarrow> match_mapping ns n (Some x) xs)
      else match_mapping ns n found xs)"

definition service_account_for_sa ::
  "world \<Rightarrow> string \<Rightarrow> string \<Rightarrow> history \<Rightarrow> (gerr + sa_cr) \<times> history" where
  "service_account_for_sa W sa_ns sa_n h =
     (case resolver_namespace W of
        Inl e \<Rightarrow> (Inl e, h)
      | Inr ns \<Rightarrow>
     (case ask_sa_list W ns h of
        (Inl e, h) \<Rightarrow> (Inl e, h)
      | (Inr items, h) \<Rightarrow> (match_mapping sa_ns sa_n None items, h)))"

definition service_account_mapping_get :: "world \<Rightarrow> string \<Rightarrow> history \<Rightarrow> (gerr + sa_cr) \<times> history" where
  "service_account_mapping_get W name h =
     (case resolver_namespace W of Inl e \<Rightarrow> (Inl e, h) | Inr ns \<Rightarrow> ask_sa_get W ns name h)"

lemma match_mapping_some:
  "match_mapping ns n (Some m) xs =
     (if filter (refers_to ns n) xs = [] then Inr m
      else Inl (Wrap [] (Sentinel ErrAmbiguousMapping)
                [Str '': multiple ServiceAccount resources reference '', Str ns, Str ''/'', Str n]))"
  by (induction xs) auto

lemma match_mapping_none:
  "match_mapping ns n None xs =
     (case filter (refers_to ns n) xs of
        [] \<Rightarrow> Inl (Wrap [] (Sentinel ErrNoMapping)
            [Str '' for serviceaccount '', Str ns, Str ''/'', Str n, Str '' (not in the exchange allowlist)''])
      | [m] \<Rightarrow> Inr m
      | _ \<Rightarrow> Inl (Wrap [] (Sentinel ErrAmbiguousMapping)
                [Str '': multiple ServiceAccount resources reference '', Str ns, Str ''/'', Str n]))"
  by (induction xs) (auto simp: match_mapping_some split: list.splits)

section \<open>LDAP and OAuth configurations\<close>

definition ldap_config_get :: "world \<Rightarrow> string \<Rightarrow> history \<Rightarrow> (gerr + ldap_cr) \<times> history" where
  "ldap_config_get W name h =
     (case resolver_namespace W of Inl e \<Rightarrow> (Inl e, h) | Inr ns \<Rightarrow> ask_ldap_get W ns name h)"

definition ldap_config_list :: "world \<Rightarrow> history \<Rightarrow> (gerr + ldap_cr list) \<times> history" where
  "ldap_config_list W h =
     (case resolver_namespace W of Inl e \<Rightarrow> (Inl e, h) | Inr ns \<Rightarrow> ask_ldap_list W ns h)"

definition get_oauth_config :: "world \<Rightarrow> string \<Rightarrow> history \<Rightarrow> (gerr + oauth_cr) \<times> history" where
  "get_oauth_config W name h =
     (case resolver_namespace W of Inl e \<Rightarrow> (Inl e, h) | Inr ns \<Rightarrow> ask_oauth_get W ns name h)"

record oauth_strategy =
  os_kind :: string
  os_name :: string
  os_auth_code_url :: string
  os_redirect_url :: string
  os_login_route :: string
  os_graphics :: "graphics option"

text \<open>
  \<open>listOauthConfig\<close>: one entry per object, nil (\<open>None\<close>) where the object did not convert,
  and the error of the last conversion; an API that is not there is no list at all.
\<close>

fun oauth_entries :: "world \<Rightarrow> (string \<times> (gerr + oauth_cr)) list \<Rightarrow> gerr option
     \<Rightarrow> oauth_strategy option list \<times> gerr option" where
  "oauth_entries W [] err = ([], err)"
| "oauth_entries W ((n, Inl e) # xs) err =
     (case oauth_entries W xs (Some e) of (es, r) \<Rightarrow> (None # es, r))"
| "oauth_entries W ((n, Inr el) # xs) err =
     (case oauth_entries W xs None of (es, r) \<Rightarrow>
       (Some \<lparr>os_kind = '''', os_name = n,
              os_auth_code_url = w_auth_code_url W \<lparr>of_client_id = oa_client_id el, of_client_secret = '''',
                 of_redirect_url = oa_redirect_url el, of_scopes = oa_scopes el,
                 of_auth_url = oa_auth_url el, of_token_url = oa_token_url el\<rparr> (oa_name el),
              os_redirect_url = oa_redirect_url el, os_login_route = '''',
              os_graphics = oa_graphics el\<rparr> # es, r))"

definition list_oauth_config ::
  "world \<Rightarrow> history \<Rightarrow> (gerr + oauth_strategy option list option) \<times> history" where
  "list_oauth_config W h =
     (case operator_namespace W of
        Inl e \<Rightarrow> (Inl (Wrap [Str ''unable to resolve service namespace: ''] e []), h)
      | Inr ns \<Rightarrow>
     (case ask_oauth_list W ns h of
        (Inl e, h) \<Rightarrow> (if is_not_found e then Inr None else Inl e, h)
      | (Inr items, h) \<Rightarrow>
          (case oauth_entries W items None of
             (es, None) \<Rightarrow> (Inr (Some es), h)
           | (es, Some e) \<Rightarrow> (Inl e, h))))"

text \<open>
  \<open>ListOAuthConfigs\<close> completes every entry in place. Writing through a nil entry panics:
  \<open>None\<close> is the panic.
\<close>

fun complete_entries :: "oauth_strategy option list \<Rightarrow> oauth_strategy list option" where
  "complete_entries [] = Some []"
| "complete_entries (None # _) = None"
| "complete_entries (Some x # xs) =
     (case complete_entries xs of None \<Rightarrow> None
      | Some ys \<Rightarrow> Some (x\<lparr>os_kind := ''oauth'', os_login_route := ''/oauth/login''\<rparr> # ys))"

definition list_oauth_configs ::
  "world \<Rightarrow> history \<Rightarrow> (gerr + oauth_strategy list) option \<times> history" where
  "list_oauth_configs W h =
     (case list_oauth_config W h of
        (Inl e, h) \<Rightarrow> (Some (Inl e), h)
      | (Inr None, h) \<Rightarrow> (Some (Inr []), h)
      | (Inr (Some es), h) \<Rightarrow> (map_option Inr (complete_entries es), h))"

lemma oauth_entries_spec:
  "oauth_entries W xs err = (es, r) \<Longrightarrow>
     (None \<in> set es \<longleftrightarrow> (\<exists>x\<in>set xs. \<not> isOk (snd x)))
     \<and> (r = None \<longleftrightarrow> (if xs = [] then err = None else isOk (snd (last xs))))"
  by (induction W xs err arbitrary: es r rule: oauth_entries.induct)
    (auto split: prod.splits if_splits)

lemma complete_entries_None: "complete_entries es = None \<longleftrightarrow> None \<in> set es"
  by (induction es rule: complete_entries.induct) (auto split: option.splits)

section \<open>OIDC configurations\<close>

definition ErrIssuerConflict :: string where
  "ErrIssuerConflict = ''spec.issuer differs from the discovered issuer''"
definition ErrDiscoveryFailed :: string where "ErrDiscoveryFailed = ''OIDC discovery failed''"
definition ErrEndpointsMissing :: string where
  "ErrEndpointsMissing = ''authorize or token endpoint unknown''"

record discovery_doc =
  dd_issuer :: string
  dd_authorization_endpoint :: string
  dd_token_endpoint :: string
  dd_userinfo_endpoint :: string

definition empty_discovery :: discovery_doc where
  "empty_discovery = \<lparr>dd_issuer = '''', dd_authorization_endpoint = '''',
     dd_token_endpoint = '''', dd_userinfo_endpoint = ''''\<rparr>"

definition discovery_of :: "(string \<times> json) list \<Rightarrow> gerr + discovery_doc" where
  "discovery_of kvs =
     (if list_all (\<lambda>f. json_str_ok f kvs)
           [''issuer'', ''authorization_endpoint'', ''token_endpoint'', ''userinfo_endpoint'']
      then Inr \<lparr>dd_issuer = json_str_field ''issuer'' kvs '''',
                dd_authorization_endpoint = json_str_field ''authorization_endpoint'' kvs '''',
                dd_token_endpoint = json_str_field ''token_endpoint'' kvs '''',
                dd_userinfo_endpoint = json_str_field ''userinfo_endpoint'' kvs ''''\<rparr>
      else Inl ErrJsonType)"

definition discovery_failed :: "msg \<Rightarrow> gerr" where
  "discovery_failed m = Wrap [] (Sentinel ErrDiscoveryFailed) m"

definition fetch_discovery :: "world \<Rightarrow> string \<Rightarrow> history \<Rightarrow> (gerr + discovery_doc) \<times> history" where
  "fetch_discovery W url h =
     (case w_bad_url W url of
        Some e \<Rightarrow> (Inl (discovery_failed (Str '': creating the request: '' # err_text e)), h)
      | None \<Rightarrow>
     (case ask_http W ''GET'' url [] '''' h of
        (Inl e, h) \<Rightarrow> (Inl (discovery_failed (Str '': '' # err_text e)), h)
      | (Inr (code, body), h) \<Rightarrow>
          if code \<noteq> 200
          then (Inl (discovery_failed [Str '': '', Str url, Str '' answered '', Dec code]), h)
          else (case body of
                  Inl e \<Rightarrow> (Inl (discovery_failed (Str '': reading the response: '' # err_text e)), h)
                | Inr text \<Rightarrow>
                    (case (case w_json W text of Inl e \<Rightarrow> Inl e
                           | Inr j \<Rightarrow> (case json_fields j of Inl e \<Rightarrow> Inl e | Inr kvs \<Rightarrow> discovery_of kvs)) of
                       Inl e \<Rightarrow> (Inl (discovery_failed
                           (Str '': the response is not a discovery document: '' # err_text e)), h)
                     | Inr doc \<Rightarrow> (Inr doc, h)))))"

text \<open>\<open>newState\<close>: the world's 32 random bytes, base64url-encoded, are \<open>w_random\<close>.\<close>

definition auth_code_values :: "oidc_cr \<Rightarrow> string \<Rightarrow> url_values" where
  "auth_code_values cfg state =
     (let v = foldl (\<lambda>vs (k, x). val_set vs k x) []
                [(''response_type'', ''code''), (''response_mode'', ''query''),
                 (''client_id'', oc_client_id cfg)];
          v = (if oc_redirect_uri cfg \<noteq> '''' then val_set v ''redirect_uri'' (oc_redirect_uri cfg) else v);
          v = val_set v ''scope''
                (join '' '' (GoString.fields (''openid email profile '' @ oc_additional_scopes cfg)))
      in val_set v ''state'' state)"

definition auth_code_url :: "world \<Rightarrow> oidc_cr \<Rightarrow> history \<Rightarrow> string \<times> history" where
  "auth_code_url W cfg h =
     (case ask_random W h of (state, h) \<Rightarrow>
       (oc_authorization_url cfg
        @ (if contains_sub (oc_authorization_url cfg) ''?'' then ''&'' else ''?'')
        @ val_encode (auth_code_values cfg state), h))"

text \<open>\<open>applyDiscovery\<close> changes the configuration in place, also when it then fails.\<close>

definition apply_discovery ::
  "world \<Rightarrow> oidc_cr \<Rightarrow> discovery_doc \<Rightarrow> history \<Rightarrow> gerr option \<times> oidc_cr \<times> history" where
  "apply_discovery W cfg doc h =
     (let cfg = (if dd_authorization_endpoint doc \<noteq> ''''
                 then cfg\<lparr>oc_authorization_url := dd_authorization_endpoint doc\<rparr> else cfg);
          cfg = (if dd_token_endpoint doc \<noteq> ''''
                 then cfg\<lparr>oc_token_url := dd_token_endpoint doc\<rparr> else cfg);
          cfg = (if dd_userinfo_endpoint doc \<noteq> ''''
                 then cfg\<lparr>oc_user_info_url := dd_userinfo_endpoint doc\<rparr> else cfg)
      in if (oc_token_url cfg = '''' \<or> oc_authorization_url cfg = '''') \<and> oc_discovery_url cfg = ''''
         then (Some (Wrap [] (Sentinel ErrEndpointsMissing)
                 [Str '': url for discovery and authorize/token endpoints cannot be empty'']), cfg, h)
         else if oc_token_url cfg = '''' \<or> oc_authorization_url cfg = ''''
         then (Some (Wrap [] (Sentinel ErrEndpointsMissing)
                 [Str '': url for authorize/token endpoint cannot be empty'']), cfg, h)
         else (case auth_code_url W cfg h of
                 (url, h) \<Rightarrow> (None, cfg\<lparr>oc_authorization_url := url\<rparr>, h)))"

definition do_discovery :: "world \<Rightarrow> oidc_cr \<Rightarrow> history \<Rightarrow> gerr option \<times> oidc_cr \<times> history" where
  "do_discovery W cfg h =
     (if oc_discovery_url cfg \<noteq> ''''
      then (case fetch_discovery W (oc_discovery_url cfg) h of
              (Inl e, h) \<Rightarrow> (Some e, cfg, h)
            | (Inr doc, h) \<Rightarrow> apply_discovery W cfg doc h)
      else apply_discovery W cfg empty_discovery h)"

text \<open>\<open>resolveOIDCConfig\<close>.\<close>

definition resolve_oidc_config :: "world \<Rightarrow> oidc_cr \<Rightarrow> history \<Rightarrow> gerr option \<times> oidc_cr \<times> history" where
  "resolve_oidc_config W cfg h =
     (if oc_discovery_url cfg = ''''
      then (if oc_authorization_url cfg \<noteq> '''' \<and> \<not> contains_sub (oc_authorization_url cfg) ''?''
            then (case auth_code_url W cfg h of
                    (url, h) \<Rightarrow> (None, cfg\<lparr>oc_authorization_url := url\<rparr>, h))
            else (None, cfg, h))
      else (case fetch_discovery W (oc_discovery_url cfg) h of
              (Inl e, h) \<Rightarrow> (Some e, cfg, h)
            | (Inr doc, h) \<Rightarrow>
                if oc_issuer cfg \<noteq> '''' \<and> dd_issuer doc \<noteq> '''' \<and> dd_issuer doc \<noteq> oc_issuer cfg
                then (Some (Wrap [] (Sentinel ErrIssuerConflict)
                        [Str '': spec.issuer '', Quo (oc_issuer cfg), Str '', discovery '', Quo (dd_issuer doc)]),
                      cfg, h)
                else
                  let cfg = (if oc_issuer cfg = '''' then cfg\<lparr>oc_issuer := dd_issuer doc\<rparr> else cfg)
                  in if oc_authorization_url cfg = '''' \<or> oc_token_url cfg = '''' \<or> oc_user_info_url cfg = ''''
                     then apply_discovery W cfg doc h
                     else if \<not> contains_sub (oc_authorization_url cfg) ''?''
                     then (case auth_code_url W cfg h of
                             (url, h) \<Rightarrow> (None, cfg\<lparr>oc_authorization_url := url\<rparr>, h))
                     else (None, cfg, h)))"

definition oidc_config_get :: "world \<Rightarrow> string \<Rightarrow> history \<Rightarrow> (gerr + oidc_cr) \<times> history" where
  "oidc_config_get W name h =
     (case resolver_namespace W of
        Inl e \<Rightarrow> (Inl e, h)
      | Inr ns \<Rightarrow>
     (case ask_oidc_get W ns name h of
        (Inl e, h) \<Rightarrow> (Inl e, h)
      | (Inr cfg, h) \<Rightarrow>
     (case resolve_oidc_config W cfg h of
        (Some e, _, h) \<Rightarrow> (Inl e, h)
      | (None, cfg, h) \<Rightarrow> (Inr cfg, h))))"

definition list_oidc_configs :: "world \<Rightarrow> history \<Rightarrow> (gerr + oidc_cr list) \<times> history" where
  "list_oidc_configs W h =
     (case resolver_namespace W of Inl e \<Rightarrow> (Inl e, h) | Inr ns \<Rightarrow> ask_oidc_list W ns h)"

text \<open>
  The loop of \<open>OIDCConfigList\<close>. \<open>err\<close> is the Go variable of that name: each item that is
  discovered overwrites it.
\<close>

fun complete_oidc_items :: "world \<Rightarrow> oidc_cr list \<Rightarrow> gerr option \<Rightarrow> history
     \<Rightarrow> gerr option \<times> oidc_cr list \<times> history" where
  "complete_oidc_items W [] err h = (err, [], h)"
| "complete_oidc_items W (x # xs) err h =
     (let (err, y, h) =
        (if (oc_authorization_url x = '''' \<or> oc_token_url x = '''' \<or> oc_user_info_url x = '''')
            \<and> oc_discovery_url x \<noteq> ''''
         then (case do_discovery W x h of
                 (e, z, h) \<Rightarrow> (e, x\<lparr>oc_authorization_url := oc_authorization_url z,
                                    oc_token_url := oc_token_url z,
                                    oc_user_info_url := oc_user_info_url z\<rparr>, h))
         else if oc_authorization_url x \<noteq> '''' \<and> \<not> contains_sub (oc_authorization_url x) ''?''
         then (case auth_code_url W x h of (url, h) \<Rightarrow> (err, x\<lparr>oc_authorization_url := url\<rparr>, h))
         else (err, x, h));
       (err, ys, h) = complete_oidc_items W xs err h
      in (err, y # ys, h))"

definition oidc_config_list :: "world \<Rightarrow> history \<Rightarrow> (gerr + oidc_cr list) \<times> history" where
  "oidc_config_list W h =
     (case list_oidc_configs W h of
        (Inl e, h) \<Rightarrow> (Inl e, h)
      | (Inr items, h) \<Rightarrow>
          (case complete_oidc_items W items None h of
             (Some e, _, h) \<Rightarrow> (Inl e, h)
           | (None, ys, h) \<Rightarrow> (Inr ys, h)))"

definition oidc_configs_without_issuer :: "world \<Rightarrow> history \<Rightarrow> (gerr + string list) \<times> history" where
  "oidc_configs_without_issuer W h =
     (case list_oidc_configs W h of
        (Inl e, h) \<Rightarrow> (Inl e, h)
      | (Inr items, h) \<Rightarrow>
          (Inr (map oc_name (filter (\<lambda>x. oc_issuer x = '''' \<and> oc_discovery_url x = '''') items)), h))"

section \<open>What the resolvers do to the world\<close>

text \<open>Every resolver only reads: no write, no issuance.\<close>

lemma resolvers_quiet:
  "user_get W n h = (ru, h1) \<Longrightarrow> extends quiet h h1"
  "service_account_for_sa W a b h = (rs, h1) \<Longrightarrow> extends quiet h h1"
  "secrets_get W sel h = (rg, h1) \<Longrightarrow> extends quiet h h1"
  "ldap_config_get W n h = (rl, h1) \<Longrightarrow> extends quiet h h1"
  "get_oauth_config W n h = (ro, h1) \<Longrightarrow> extends quiet h h1"
  by (auto simp: user_get_def service_account_for_sa_def secrets_get_def ldap_config_get_def
      get_oauth_config_def ask_defs split: sum.splits option.splits)

lemma fetch_discovery_quiet: "fetch_discovery W u h = (r, h1) \<Longrightarrow> extends quiet h h1"
  by (auto simp: fetch_discovery_def ask_defs split: sum.splits option.splits prod.splits if_splits)

lemma auth_code_url_quiet: "auth_code_url W c h = (r, h1) \<Longrightarrow> extends quiet h h1"
  by (auto simp: auth_code_url_def ask_defs)

lemma apply_discovery_quiet: "apply_discovery W c d h = (r, c', h1) \<Longrightarrow> extends quiet h h1"
  unfolding apply_discovery_def Let_def
  by (auto split: if_splits prod.splits dest: auth_code_url_quiet)

lemma resolve_oidc_config_quiet: "resolve_oidc_config W c h = (r, c', h1) \<Longrightarrow> extends quiet h h1"
  unfolding resolve_oidc_config_def Let_def
  by (auto split: if_splits prod.splits sum.splits
      dest!: auth_code_url_quiet apply_discovery_quiet fetch_discovery_quiet intro: extends_trans)

lemma oidc_config_get_quiet: "oidc_config_get W n h = (r, h1) \<Longrightarrow> extends quiet h h1"
  unfolding oidc_config_get_def ask_oidc_get_def
  by (auto split: prod.splits sum.splits option.splits dest!: resolve_oidc_config_quiet
      elim: extends_first)

section \<open>Properties\<close>

text \<open>
  The exchange allowlist admits a ServiceAccount only through exactly one mapping: a lookup
  over the listed mappings answers one when it is the only one that refers to the
  ServiceAccount, no mapping when none does, and refuses as ambiguous when two or more do.
\<close>

lemma mapping_must_be_unique:
  "case match_mapping ns n None xs of
     Inr m \<Rightarrow> filter (refers_to ns n) xs = [m]
   | Inl e \<Rightarrow> (filter (refers_to ns n) xs = [] \<and> err_is e ErrNoMapping \<and> \<not> err_is e ErrAmbiguousMapping)
       \<or> (2 \<le> length (filter (refers_to ns n) xs) \<and> err_is e ErrAmbiguousMapping \<and> \<not> err_is e ErrNoMapping)"
  by (auto simp: match_mapping_none ErrNoMapping_def ErrAmbiguousMapping_def split: list.splits)

lemma apply_discovery_keeps:
  "apply_discovery W cfg doc h = (r, cfg', h') \<Longrightarrow>
   oc_issuer cfg' = oc_issuer cfg \<and> oc_client_id cfg' = oc_client_id cfg
   \<and> oc_client_secret cfg' = oc_client_secret cfg \<and> oc_allowed_groups cfg' = oc_allowed_groups cfg
   \<and> oc_step_up cfg' = oc_step_up cfg \<and> oc_redirect_uri cfg' = oc_redirect_uri cfg"
  unfolding apply_discovery_def Let_def by (auto split: if_splits prod.splits)

text \<open>
  C24. The issuer a login checks is never chosen by the provider against the configuration: a
  completed configuration keeps a configured issuer, takes the discovered one only when none
  is configured, and has none when there is no discovery; a discovery document naming another
  issuer than the configured one is refused; and client, secret, allowed groups and
  step-up settings are those configured.
\<close>

theorem issuer_pinned_by_configuration:
  "case resolve_oidc_config W cfg h of
     (Some e, _, _) \<Rightarrow> oc_discovery_url cfg \<noteq> ''''
   | (None, cfg', _) \<Rightarrow>
       oc_client_id cfg' = oc_client_id cfg \<and> oc_client_secret cfg' = oc_client_secret cfg
       \<and> oc_allowed_groups cfg' = oc_allowed_groups cfg \<and> oc_step_up cfg' = oc_step_up cfg
       \<and> (if oc_discovery_url cfg = '''' then oc_issuer cfg' = oc_issuer cfg
          else \<exists>doc. fst (fetch_discovery W (oc_discovery_url cfg) h) = Inr doc
            \<and> oc_issuer cfg' = (if oc_issuer cfg = '''' then dd_issuer doc else oc_issuer cfg)
            \<and> dd_issuer doc \<in> {'''', oc_issuer cfg'})"
proof (cases "oc_discovery_url cfg = ''''")
  case True
  then show ?thesis by (simp add: resolve_oidc_config_def split: prod.splits)
next
  case False
  obtain fr h1 where f: "fetch_discovery W (oc_discovery_url cfg) h = (fr, h1)" by force
  show ?thesis
  proof (cases fr)
    case (Inl e)
    with False f show ?thesis by (simp add: resolve_oidc_config_def)
  next
    case (Inr doc)
    define cfg1 where "cfg1 = (if oc_issuer cfg = '''' then cfg\<lparr>oc_issuer := dd_issuer doc\<rparr> else cfg)"
    have keeps: "oc_client_id cfg1 = oc_client_id cfg" "oc_client_secret cfg1 = oc_client_secret cfg"
      "oc_allowed_groups cfg1 = oc_allowed_groups cfg" "oc_step_up cfg1 = oc_step_up cfg"
      "oc_issuer cfg1 = (if oc_issuer cfg = '''' then dd_issuer doc else oc_issuer cfg)"
      by (simp_all add: cfg1_def)
    show ?thesis
    proof (cases "oc_issuer cfg \<noteq> '''' \<and> dd_issuer doc \<noteq> '''' \<and> dd_issuer doc \<noteq> oc_issuer cfg")
      case True
      with False f Inr show ?thesis by (simp add: resolve_oidc_config_def)
    next
      case nc: False
      obtain r cfg' h' where r: "resolve_oidc_config W cfg h = (r, cfg', h')"
        using prod_cases3 by blast
      have "oc_issuer cfg' = oc_issuer cfg1 \<and> oc_client_id cfg' = oc_client_id cfg1
          \<and> oc_client_secret cfg' = oc_client_secret cfg1 \<and> oc_allowed_groups cfg' = oc_allowed_groups cfg1
          \<and> oc_step_up cfg' = oc_step_up cfg1"
        using r False f Inr nc unfolding resolve_oidc_config_def
        by (simp only: if_False prod.case sum.case Let_def cfg1_def [symmetric])
          (auto split: if_splits prod.splits dest: apply_discovery_keeps)
      with keeps nc False f Inr r show ?thesis by (auto split: option.split if_splits)
    qed
  qed
qed

text \<open>
  Listing the OAuth logins panics exactly when some OAuthConfig does not convert while the
  last one listed does: the entry left nil is then written through. In every other case the
  listing returns, with every entry completed or with an error.
\<close>

lemma oauth_listing_panics_iff:
  "fst (list_oauth_configs W h) = None \<longleftrightarrow>
     (\<exists>ns items. operator_namespace W = Inr ns \<and> w_oauth_list W h ns = Inr items
        \<and> (\<exists>x\<in>set items. \<not> isOk (snd x)) \<and> isOk (snd (last items)))"
proof -
  have "fst (list_oauth_configs W h) = None \<longleftrightarrow>
      (\<exists>ns items es. operator_namespace W = Inr ns \<and> w_oauth_list W h ns = Inr items
        \<and> oauth_entries W items None = (es, None) \<and> None \<in> set es)"
    by (auto simp: list_oauth_configs_def list_oauth_config_def ask_oauth_list_def
        complete_entries_None split: sum.splits option.splits prod.splits)
  moreover have "(\<exists>es. oauth_entries W items None = (es, None) \<and> None \<in> set es) \<longleftrightarrow>
      (\<exists>x\<in>set items. \<not> isOk (snd x)) \<and> isOk (snd (last items))" for items
  proof -
    obtain es r where e: "oauth_entries W items None = (es, r)" by force
    from oauth_entries_spec [OF e] e show ?thesis by (auto split: if_splits)
  qed
  ultimately show ?thesis by blast
qed

lemma complete_oidc_items_append:
  "complete_oidc_items W (xs @ ys) err h =
     (let (e1, xs', h1) = complete_oidc_items W xs err h;
          (e2, ys', h2) = complete_oidc_items W ys e1 h1 in (e2, xs' @ ys', h2))"
  by (induction xs arbitrary: err h) (auto split: prod.splits simp: Let_def)

definition discovers :: "oidc_cr \<Rightarrow> bool" where
  "discovers x \<longleftrightarrow> (oc_authorization_url x = '''' \<or> oc_token_url x = '''' \<or> oc_user_info_url x = '''')
     \<and> oc_discovery_url x \<noteq> ''''"

text \<open>
  Of the failures to discover an OIDC provider only the last counts: what the listing
  reports after its last item is that item's own discovery outcome when it is discovered,
  whatever the items before it did, so an earlier failure is lost and a failing last one
  hides them all; an item that needs no discovery changes nothing.
\<close>

lemma only_last_discovery_failure_reported:
  "case complete_oidc_items W xs err h of
     (e, _, h') \<Rightarrow>
       fst (complete_oidc_items W (xs @ [x]) err h) =
         (if discovers x then fst (do_discovery W x h') else e)"
  by (auto simp: complete_oidc_items_append discovers_def Let_def split: prod.splits)

end
