(* ===== verification/Login.thy ===== *)
theory Login
  imports Encode Resolvers
begin

text \<open>
  What every login route does once it has an identity: have the generator issue, then answer
  with the credential or with IssuanceFailed. The generator is any \<open>credential_issuer\<close>; what
  an answer may contain and what an issuance may call is proved here once.
\<close>

record login_opts =
  lo_jwt_duration :: duration
  lo_has_key :: bool
  lo_key_id :: string

definition extras_of :: "login_opts \<Rightarrow> user \<Rightarrow> strategy_ref option \<Rightarrow> time \<Rightarrow> extras" where
  "extras_of opts u ref notAfter =
     \<lparr>ex_user = Some u, ex_strategy = ref, ex_jwt_duration = lo_jwt_duration opts,
      ex_has_key = lo_has_key opts, ex_key_id = lo_key_id opts, ex_cert_not_after = notAfter\<rparr>"

text \<open>
  The last two steps of the handlers of \<open>ldap\<close>, \<open>oauth\<close> and \<open>oidc\<close>: \<open>Generate\<close> and
  \<open>encode.Success\<close>.
\<close>

definition session_answer ::
  "('g \<Rightarrow> strategy \<Rightarrow> user \<Rightarrow> history \<Rightarrow> (gerr + (kube_config \<times> time)) \<times> 'g \<times> history)
   \<Rightarrow> world \<Rightarrow> login_opts \<Rightarrow> strategy \<Rightarrow> string \<Rightarrow> 'g \<Rightarrow> user \<Rightarrow> response \<Rightarrow> history
   \<Rightarrow> response \<times> 'g \<times> history" where
  "session_answer gen W opts strategy name g u w h =
     (case gen g strategy u h of
        (Inl e, g, h) \<Rightarrow>
          (failure w (from_error (failed CauseIssuanceFailed (Wrap [Str ''issuing clientconfig: ''] e []))), g, h)
      | (Inr (dat, notAfter), g, h) \<Rightarrow>
          (case success W w (Some dat)
             (Some (extras_of opts u (Some \<lparr>sr_kind = strategy, sr_name = name\<rparr>) notAfter)) h of
             (_, w, h) \<Rightarrow> (w, g, h)))"

text \<open>
  A call made while issuing to user \<open>u\<close> of strategy \<open>s\<close>: one of the generator's, a look at
  the clock, or a token signed for exactly that user and those groups.
\<close>

definition login_call :: "(string \<Rightarrow> bool) \<Rightarrow> strategy \<Rightarrow> user \<Rightarrow> call \<Rightarrow> bool" where
  "login_call ok s u c \<longleftrightarrow> issuance_call ok s c \<or> c = CNow
     \<or> (\<exists>d k. c = CSign \<lparr>jo_username = u_name u, jo_groups = u_groups u, jo_duration = d, jo_key_id = k\<rparr>)"

lemma success_login_calls:
  assumes "success W w dat (Some (extras_of opts u ref na)) h = (r, w', h')"
  shows "extends (login_call ok s u) h h'"
  using success_calls [OF assms]
  by (rule extends_mono) (auto simp: login_call_def signs_def extras_of_def)

text \<open>Nothing but failures: no body carries a key or a token.\<close>

definition only_failures :: "response \<Rightarrow> bool" where
  "only_failures w \<longleftrightarrow> list_all (\<lambda>b. \<not> carries_credential b) (rw_body w)"

lemma only_failures_failure [simp]: "only_failures (failure w st) \<longleftrightarrow> only_failures w"
  by (simp add: only_failures_def body_simps)

lemma only_failures_set_header [simp]: "only_failures (set_header w k v) \<longleftrightarrow> only_failures w"
  by (simp add: only_failures_def body_simps)

lemma unanswered_only_failures [simp]: "unanswered w \<Longrightarrow> only_failures w"
  by (simp add: only_failures_def unanswered_def)

lemma unanswered_set_header [simp]: "unanswered (set_header w k v) \<longleftrightarrow> unanswered w"
  by (simp add: unanswered_def body_simps)

context credential_issuer begin

lemma gen_login_calls:
  "gen g s u h = (r, g', h') \<Longrightarrow> extends (login_call (owns u) s u) h h'"
  by (rule extends_mono [OF gen_calls]) (auto simp: login_call_def)

end

locale session_issuer_client =
  credential_issuer gen accepts owns
  for gen :: "'g \<Rightarrow> strategy \<Rightarrow> user \<Rightarrow> history \<Rightarrow> (gerr + (kube_config \<times> time)) \<times> 'g \<times> history"
    and accepts :: "user \<Rightarrow> bool"
    and owns :: "user \<Rightarrow> string \<Rightarrow> bool"
begin

lemma session_answer_calls:
  assumes "session_answer gen W opts s n g u w h = (w', g', h')"
  shows "extends (login_call (owns u) s u) h h'"
  using assms unfolding session_answer_def
  by (auto split: prod.splits sum.splits
      dest!: gen_login_calls success_login_calls [where ok = "owns u" and s = s] intro: extends_trans)

lemma session_answer_refused:
  assumes "\<not> accepts u" and "session_answer gen W opts s n g u w h = (w', g', h')"
  shows "only_failures w' = only_failures w \<and> h' = h"
  using gen_refuses [OF assms(1), of g s h] assms(2)
  by (auto simp: session_answer_def)

lemma session_answer_once:
  assumes "unanswered w" and "session_answer gen W opts s n g u w h = (w', g', h')"
  shows "answered_once w'"
  using assms unfolding session_answer_def
  by (auto split: prod.splits sum.splits intro: failure_once success_once)

end

interpretation session_route: session_issuer_client
  "generate W" session_accepts "\<lambda>u x. x = credential_name W False (u_name u)" for W
  by unfold_locales

lemma session_tail_calls:
  assumes "session_answer (generate W) W opts s n g u w h = (w', g', h')"
  shows "extends (\<lambda>c. quiet c \<or> login_call (\<lambda>x. x = client_config_secret_name W (u_name u)) s u c) h h'"
  using session_route.session_answer_calls [OF assms]
  by (rule extends_mono) (simp add: credential_name_def)

lemma quiet_not_issues: "extends quiet h h' \<Longrightarrow> extends (\<lambda>c. \<not> issues c) h h'"
  by (erule extends_mono) (simp add: quiet_def)

lemma quiet_or: "extends quiet h h' \<Longrightarrow> extends (\<lambda>c. quiet c \<or> P c) h h'"
  by (erule extends_mono) simp

end
