(* ===== verification/RestAction.thy ===== *)
theory RestAction
  imports Login
begin

text \<open>
  \<open>internal/helpers/restaction\<close>: how an OIDC or OAuth login completes its identity through a
  RESTAction that snowplow resolves. \<open>Resolve\<close> sends the user's token in the body of one
  POST; the legacy path copies the RESTAction and its endpoint Secrets with the token
  written in, calls the copy and deletes it. Also \<open>internal/helpers/codeexchange\<close>.
\<close>

section \<open>Code exchange failures\<close>

definition CauseAuthorizationCodeRejected :: cause where
  "CauseAuthorizationCodeRejected = ''AuthorizationCodeRejected''"
definition CauseTokenExchangeFailed :: cause where
  "CauseTokenExchangeFailed = ''TokenExchangeFailed''"

definition code_rejections :: "string list" where
  "code_rejections = [''invalid_grant'', ''bad_verification_code'']"

definition exchange_refusal :: "int \<Rightarrow> string \<Rightarrow> gerr \<Rightarrow> gerr" where
  "exchange_refusal httpStatus errorCode detail =
     (if errorCode \<in> set code_rejections
      then refused_privately CauseAuthorizationCodeRejected
             (Err [Str ''the identity provider refused the authorization code ('', Str errorCode, Str '')'']) detail
      else CauseE 500 CauseTokenExchangeFailed
             (Err (if errorCode \<noteq> ''''
                   then [Str ''the identity provider's token endpoint answered '', Dec httpStatus, Str '' ('', Str errorCode, Str '')'']
                   else [Str ''the identity provider's token endpoint answered '', Dec httpStatus]))
             (Some detail))"

definition exchange_failed :: "gerr \<Rightarrow> gerr" where
  "exchange_failed e = CauseE 500 CauseTokenExchangeFailed
     (Err [Str ''the token exchange with the identity provider did not complete'']) (Some e)"

section \<open>The RESTAction context\<close>

text \<open>
  The values a login's context carries for the call to snowplow. \<open>buildRoutes\<close> always installs
  the URL and authn's token; \<open>None\<close> is a token that is not there.
\<close>

record rest_ctx =
  rx_token :: "string option"
  rx_username :: "string option"
  rx_snowplow_url :: string

definition merge_request_context :: "rest_ctx \<Rightarrow> rest_ctx \<Rightarrow> rest_ctx" where
  "merge_request_context reqCtx base =
     \<lparr>rx_token = (case rx_token base of None \<Rightarrow> rx_token reqCtx | t \<Rightarrow> t),
      rx_username = (case rx_username base of None \<Rightarrow> rx_username reqCtx | u \<Rightarrow> u),
      rx_snowplow_url = rx_snowplow_url base\<rparr>"

section \<open>Failures\<close>

definition CauseRESTActionFailed :: cause where "CauseRESTActionFailed = ''RESTActionFailed''"

fun the_snowplow :: "gerr \<Rightarrow> (int \<times> string) option" where
  "the_snowplow (SnowplowE c r _) = Some (c, r)"
| "the_snowplow _ = None"

definition restaction_failed :: "gerr \<Rightarrow> gerr" where
  "restaction_failed e =
     CauseE 500 CauseRESTActionFailed
       (Err (case first_some (map the_snowplow (err_chain e)) of
               None \<Rightarrow> [Str ''the RESTAction could not be resolved'']
             | Some (code, reason) \<Rightarrow>
                 [Str ''the RESTAction could not be resolved: snowplow answered '', Dec code, Str '' '', Str reason]))
       (Some e)"

definition snowplow_error :: "world \<Rightarrow> int \<Rightarrow> string \<Rightarrow> gerr" where
  "snowplow_error W code body =
     (let kvs = (case w_json W body of
                   Inl _ \<Rightarrow> []
                 | Inr j \<Rightarrow> (case json_fields j of Inl _ \<Rightarrow> [] | Inr kvs \<Rightarrow> kvs));
          reason = json_str_field ''reason'' kvs '''';
          message = json_str_field ''message'' kvs ''''
      in SnowplowE code reason (if reason = '''' \<and> message = '''' then body else message))"

section \<open>Resolve\<close>

definition response_status :: "world \<Rightarrow> string \<Rightarrow> gerr + go_map" where
  "response_status W raw =
     (case w_json W raw of
        Inl e \<Rightarrow> Inl e
      | Inr j \<Rightarrow>
     (case json_fields j of
        Inl e \<Rightarrow> Inl e
      | Inr kvs \<Rightarrow> if json_map_ok ''status'' kvs then Inr (json_map_field ''status'' kvs [])
                  else Inl ErrJsonType))"

definition rest_query :: "obj_ref \<Rightarrow> url_values" where
  "rest_query ref = foldl (\<lambda>vs (k, x). val_set vs k x) []
     [(''apiVersion'', ''templates.krateo.io/v1''), (''resource'', ''restactions''),
      (''name'', ref_name ref), (''namespace'', ref_namespace ref)]"

definition rest_resolve ::
  "world \<Rightarrow> rest_ctx \<Rightarrow> obj_ref \<Rightarrow> string \<Rightarrow> history \<Rightarrow> (gerr + go_map) \<times> history" where
  "rest_resolve W ctx ref bearerToken h =
     (if rx_snowplow_url ctx = '''' then (Inl (Err [Str ''snowplow URL is not configured'']), h)
      else
        let body = w_json_encode W (JObj [(''extras'', JObj [(''token'', JStr bearerToken)])]);
            url = rx_snowplow_url ctx @ ''/call/read?'' @ val_encode (rest_query ref)
        in (case w_bad_url W url of
              Some e \<Rightarrow> (Inl (Wrap [Str ''failed to create http request for restaction call to snowplow: ''] e []), h)
            | None \<Rightarrow>
           (case rx_token ctx of
              None \<Rightarrow> (Inl (Err [Str ''failed to retrieve jwt token for authn'']), h)
            | Some jwt \<Rightarrow>
           (case ask_http W ''POST'' url
                   [(''Content-Type'', ''application/json''), (''Accept'', ''application/json''),
                    (''Authorization'', ''Bearer '' @ jwt)] body h of
              (Inl e, h) \<Rightarrow> (Inl (Wrap [Str ''failed to send http request for restaction call to snowplow: ''] e []), h)
            | (Inr (code, ans), h) \<Rightarrow>
           (case ans of
              Inl e \<Rightarrow> (Inl (Wrap [Str ''failed to read snowplow's answer: ''] e []), h)
            | Inr raw \<Rightarrow>
                if code \<noteq> 200 then (Inl (snowplow_error W code raw), h)
                else (case response_status W raw of
                        Inl e \<Rightarrow> (Inl (Err (Str ''snowplow's answer is not a RESTAction: '' # err_text e)), h)
                      | Inr st \<Rightarrow> (Inr st, h)))))))"

section \<open>RESTAction objects\<close>

definition ra_get :: "world \<Rightarrow> obj_ref \<Rightarrow> history \<Rightarrow> (gerr + rest_action) \<times> history" where
  "ra_get W ref h =
     (case w_client_error W of
        Some e \<Rightarrow> (Inl e, h)
      | None \<Rightarrow> ask_rest_action_get W (ref_namespace ref) (ref_name ref) h)"

definition ra_create_or_update :: "world \<Rightarrow> rest_action \<Rightarrow> history \<Rightarrow> gerr option \<times> history" where
  "ra_create_or_update W ra h =
     (case w_client_error W of
        Some e \<Rightarrow> (Some e, h)
      | None \<Rightarrow>
     (case ask_rest_action_get W (ra_namespace ra) (ra_name ra) h of
        (Inl e, h) \<Rightarrow> if is_not_found e then ask_rest_action_create W ra h else (Some e, h)
      | (Inr old, h) \<Rightarrow> ask_rest_action_update W (ra\<lparr>ra_version := ra_version old\<rparr>) h))"

definition ra_update :: "world \<Rightarrow> rest_action \<Rightarrow> history \<Rightarrow> gerr option \<times> history" where
  "ra_update W ra h =
     (case w_client_error W of Some e \<Rightarrow> (Some e, h) | None \<Rightarrow> ask_rest_action_update W ra h)"

definition ra_delete :: "world \<Rightarrow> obj_ref \<Rightarrow> history \<Rightarrow> gerr option \<times> history" where
  "ra_delete W ref h =
     (case w_client_error W of
        Some e \<Rightarrow> (Some e, h)
      | None \<Rightarrow> ask_rest_action_delete W (ref_namespace ref) (ref_name ref) h)"

section \<open>The legacy copy\<close>

definition endpoint_selector :: "obj_ref \<Rightarrow> selector" where
  "endpoint_selector r = \<lparr>sel_name = ref_name r, sel_namespace = ref_namespace r, sel_key = ''''\<rparr>"

definition endpoint_copy :: "world \<Rightarrow> string \<Rightarrow> string \<Rightarrow> secret \<Rightarrow> secret" where
  "endpoint_copy W email bearerToken s =
     \<lparr>sec_name = sec_name s @ ''-'' @ w_dns1123 W email, sec_namespace = sec_namespace s,
      sec_uid = '''', sec_version = '''', sec_annotations = Map.empty, sec_data = sec_data s,
      sec_string_data = (if sec_data s ''token'' = None then [''token'' \<mapsto> bearerToken] else Map.empty)\<rparr>"

text \<open>The loop over the API stages: each endpoint's Secret is copied and the stage pointed at the copy.\<close>

fun copy_endpoints :: "world \<Rightarrow> obj_ref \<Rightarrow> string \<Rightarrow> string \<Rightarrow> obj_ref option list \<Rightarrow> history
     \<Rightarrow> (gerr + obj_ref option list) \<times> history" where
  "copy_endpoints W ref email tok [] h = (Inr [], h)"
| "copy_endpoints W ref email tok (None # apis) h =
     (case copy_endpoints W ref email tok apis h of
        (Inl e, h) \<Rightarrow> (Inl e, h) | (Inr rs, h) \<Rightarrow> (Inr (None # rs), h))"
| "copy_endpoints W ref email tok (Some r # apis) h =
     (case secrets_get W (endpoint_selector r) h of
        (Inl e, h) \<Rightarrow>
          (Inl (Wrap [Str ''could not read endpoint secret object for restaction '', Str (ref_name ref),
                 Str '' '', Str (ref_namespace ref), Str '', endpoint '', Str (ref_name r), Str '' '',
                 Str (ref_namespace r), Str '': ''] e []), h)
      | (Inr s, h) \<Rightarrow>
     (case secrets_create_or_update W (endpoint_copy W email tok s) h of
        (Some e, h) \<Rightarrow>
          (Inl (Wrap [Str ''could not create copy of endpoint secret object for restaction '',
                 Str (ref_name ref), Str '' ('', Str (ref_namespace ref), Str '') '', Str (ref_name r),
                 Str '', endpoint '', Str (sec_name s), Str '' '', Str (ref_namespace r), Str '': ''] e []), h)
      | (None, h) \<Rightarrow>
     (case copy_endpoints W ref email tok apis h of
        (Inl e, h) \<Rightarrow> (Inl e, h)
      | (Inr rs, h) \<Rightarrow> (Inr (Some (r\<lparr>ref_name := sec_name (endpoint_copy W email tok s)\<rparr>) # rs), h))))"

definition copy_rest_action ::
  "world \<Rightarrow> obj_ref \<Rightarrow> string \<Rightarrow> string \<Rightarrow> history \<Rightarrow> (gerr + obj_ref) \<times> history" where
  "copy_rest_action W ref email tok h =
     (case ra_get W ref h of
        (Inl e, h) \<Rightarrow>
          (Inl (Wrap [Str ''could not obtain restaction object for '', Str (ref_name ref), Str '' '',
                 Str (ref_namespace ref), Str '': ''] e []), h)
      | (Inr obj, h) \<Rightarrow>
     (case copy_endpoints W ref email tok (ra_api obj) h of
        (Inl e, h) \<Rightarrow> (Inl e, h)
      | (Inr api, h) \<Rightarrow>
          let cpy = \<lparr>ra_name = ra_name obj @ ''-'' @ w_dns1123 W email, ra_namespace = ra_namespace obj,
                     ra_version = '''', ra_api = api, ra_rest = ra_rest obj\<rparr>
          in (case ra_create_or_update W cpy h of
                (Some e, h) \<Rightarrow>
                  (Inl (Wrap [Str ''could not create copy of restaction object for '', Str (ref_name ref),
                         Str '' ('', Str (ra_name cpy), Str '') '', Str (ref_namespace ref), Str '': ''] e []), h)
              | (None, h) \<Rightarrow> (Inr \<lparr>ref_name = ra_name cpy, ref_namespace = ra_namespace cpy\<rparr>, h))))"

fun has_secret :: "selector list \<Rightarrow> selector \<Rightarrow> bool" where
  "has_secret [] obj = False"
| "has_secret (s # ss) obj =
     (if sel_name s = sel_name obj \<and> sel_namespace s = sel_namespace obj then True else has_secret ss obj)"

fun delete_endpoints :: "world \<Rightarrow> obj_ref \<Rightarrow> selector list \<Rightarrow> obj_ref option list \<Rightarrow> history
     \<Rightarrow> gerr option \<times> history" where
  "delete_endpoints W ref deleted [] h = (None, h)"
| "delete_endpoints W ref deleted (None # apis) h = delete_endpoints W ref deleted apis h"
| "delete_endpoints W ref deleted (Some r # apis) h =
     (if has_secret deleted (endpoint_selector r) then delete_endpoints W ref deleted apis h
      else (case secrets_delete W (endpoint_selector r) h of
              (Some e, h) \<Rightarrow>
                (Some (Wrap [Str ''could not delete copy of endpoint secret object for restaction '',
                   Str (ref_name ref), Str '' '', Str (ref_namespace ref), Str '', endpoint '',
                   Str (ref_name r), Str '' '', Str (ref_namespace r), Str '': ''] e []), h)
            | (None, h) \<Rightarrow> delete_endpoints W ref (deleted @ [endpoint_selector r]) apis h))"

definition delete_rest_action_copy :: "world \<Rightarrow> obj_ref \<Rightarrow> history \<Rightarrow> gerr option \<times> history" where
  "delete_rest_action_copy W ref h =
     (case ra_get W ref h of
        (Inl e, h) \<Rightarrow>
          (Some (Wrap [Str ''could not obtain restaction object to delete for '', Str (ref_name ref),
                 Str '' '', Str (ref_namespace ref), Str '': ''] e []), h)
      | (Inr obj, h) \<Rightarrow>
     (case delete_endpoints W ref [] (ra_api obj) h of
        (Some e, h) \<Rightarrow> (Some e, h)
      | (None, h) \<Rightarrow>
     (case ra_delete W ref h of
        (Some e, h) \<Rightarrow>
          (Some (Wrap [Str ''could not delete copy of restaction object for '', Str (ref_name ref),
                 Str '' '', Str (ref_namespace ref), Str '': ''] e []), h)
      | (None, h) \<Rightarrow> (None, h))))"

text \<open>
  The URL is built by \<open>fmt.Sprintf\<close> with the configured snowplow URL as part of the format: a
  percent sign in it is a verb, left to \<open>w_sprintf\<close>.
\<close>

definition legacy_url :: "world \<Rightarrow> string \<Rightarrow> obj_ref \<Rightarrow> string" where
  "legacy_url W base c =
     (if CHR ''%'' \<in> set base
      then w_sprintf W (base @ ''/call?apiVersion=templates.krateo.io%%2Fv1&resource=restactions&name=%s&namespace=%s'')
             (ref_name c) (ref_namespace c)
      else base @ ''/call?apiVersion=templates.krateo.io%2Fv1&resource=restactions&name='' @ ref_name c
           @ ''&namespace='' @ ref_namespace c)"

definition call_copy ::
  "world \<Rightarrow> rest_ctx \<Rightarrow> obj_ref \<Rightarrow> history \<Rightarrow> (gerr + go_map) \<times> history" where
  "call_copy W ctx cpy h =
     (let url = legacy_url W (rx_snowplow_url ctx) cpy
      in case w_bad_url W url of
           Some e \<Rightarrow> (Inl (Wrap [Str ''failed to create http request for restaction call to snowplow: ''] e []), h)
         | None \<Rightarrow>
        (case rx_token ctx of
           None \<Rightarrow> (Inl (Err [Str ''failed to retrieve jwt token for authn'']), h)
         | Some jwt \<Rightarrow>
        (case ask_http W ''GET'' url [(''Authorization'', ''Bearer '' @ jwt)] '''' h of
           (Inl e, h) \<Rightarrow> (Inl (Wrap [Str ''failed to send http request for restaction call to snowplow: ''] e []), h)
         | (Inr (code, ans), h) \<Rightarrow>
        (case ans of
           Inl e \<Rightarrow> (Inl (Wrap [Str ''failed to read snowplow's answer: ''] e []), h)
         | Inr raw \<Rightarrow>
             if code \<noteq> 200 then (Inl (snowplow_error W code raw), h)
             else (case response_status W raw of
                     Inl e \<Rightarrow> (Inl (Err ([Str ''error parsing userinfo payload JSON: ''] @ err_text e
                                     @ [Str (newline # ''payload: ''), Str raw])), h)
                   | Inr st \<Rightarrow> (Inr st, h))))))"

definition legacy_resolve ::
  "world \<Rightarrow> rest_ctx \<Rightarrow> obj_ref \<Rightarrow> string \<Rightarrow> string \<Rightarrow> history \<Rightarrow> (gerr + go_map) \<times> history" where
  "legacy_resolve W ctx ref email bearerToken h =
     (case copy_rest_action W ref email bearerToken h of
        (Inl e, h) \<Rightarrow> (Inl (Err (Str ''could not resolve restaction: '' # err_text e)), h)
      | (Inr cpy, h) \<Rightarrow>
     (case call_copy W ctx cpy h of
        (Inl e, h) \<Rightarrow> (Inl e, h)
      | (Inr st, h) \<Rightarrow>
     (case delete_rest_action_copy W cpy h of
        (Some e, h) \<Rightarrow>
          (Inl (Err (Str ''error while deleting copy of restaction and secrets: '' # err_text e)), h)
      | (None, h) \<Rightarrow> (Inr st, h))))"

section \<open>Facts\<close>

text \<open>
  What completing an identity may do: read, call out, and write or delete Secrets and
  RESTActions; it never asks for a certificate or a token.
\<close>

fun completion_call :: "call \<Rightarrow> bool" where
  "completion_call (CSecretGet _ _) = True"
| "completion_call (CSecretCreate _) = True"
| "completion_call (CSecretUpdate _) = True"
| "completion_call (CSecretDelete _ _ _) = True"
| "completion_call (CRestActionGet _ _) = True"
| "completion_call (CRestActionCreate _) = True"
| "completion_call (CRestActionUpdate _) = True"
| "completion_call (CRestActionDelete _ _) = True"
| "completion_call (CHttp _ _ _ _) = True"
| "completion_call _ = False"

lemma completion_not_issues: "completion_call c \<Longrightarrow> \<not> issues c"
  by (cases c) auto

lemma rest_resolve_calls: "rest_resolve W ctx ref tok h = (r, h') \<Longrightarrow> extends completion_call h h'"
  unfolding rest_resolve_def Let_def ask_http_def
  by (auto split: if_splits option.splits sum.splits prod.splits)

lemma secrets_ops_calls:
  "secrets_get W sel h = (rg, h') \<Longrightarrow> extends completion_call h h'"
  "secrets_create_or_update W s h = (rc, h') \<Longrightarrow> extends completion_call h h'"
  "secrets_delete W sel h = (rd, h') \<Longrightarrow> extends completion_call h h'"
  by (auto simp: secrets_get_def secrets_create_or_update_def secrets_delete_def ask_defs extends_def
      split: option.splits sum.splits if_splits)

lemma ra_ops_calls:
  "ra_get W ref h = (rg, h') \<Longrightarrow> extends completion_call h h'"
  "ra_create_or_update W ra h = (rc, h') \<Longrightarrow> extends completion_call h h'"
  "ra_delete W ref h = (rd, h') \<Longrightarrow> extends completion_call h h'"
  by (auto simp: ra_get_def ra_create_or_update_def ra_delete_def ask_defs extends_def
      split: option.splits sum.splits if_splits)

lemma copy_endpoints_calls: "copy_endpoints W ref email tok apis h = (r, h') \<Longrightarrow> extends completion_call h h'"
  by (induction W ref email tok apis h arbitrary: r h' rule: copy_endpoints.induct)
    (auto split: sum.splits option.splits prod.splits dest!: secrets_ops_calls intro: extends_trans)

lemma copy_rest_action_calls: "copy_rest_action W ref email tok h = (r, h') \<Longrightarrow> extends completion_call h h'"
  unfolding copy_rest_action_def Let_def
  by (auto split: sum.splits option.splits prod.splits
      dest!: copy_endpoints_calls ra_ops_calls intro: extends_trans)

lemma delete_endpoints_calls: "delete_endpoints W ref ds apis h = (r, h') \<Longrightarrow> extends completion_call h h'"
  by (induction W ref ds apis h arbitrary: r h' rule: delete_endpoints.induct)
    (auto split: sum.splits option.splits prod.splits if_splits dest!: secrets_ops_calls intro: extends_trans)

lemma delete_copy_calls: "delete_rest_action_copy W ref h = (r, h') \<Longrightarrow> extends completion_call h h'"
  unfolding delete_rest_action_copy_def
  by (auto split: sum.splits option.splits prod.splits
      dest!: delete_endpoints_calls ra_ops_calls intro: extends_trans)

lemma call_copy_one:
  "call_copy W ctx c h = (r, h') \<Longrightarrow> h' = h \<or> (\<exists>u hs. h' = h @ [CHttp ''GET'' u hs ''''])"
  unfolding call_copy_def Let_def ask_http_def
  by (auto split: if_splits option.splits sum.splits prod.splits)

lemma call_copy_calls: "call_copy W ctx c h = (r, h') \<Longrightarrow> extends completion_call h h'"
  by (drule call_copy_one) auto

lemma legacy_resolve_calls: "legacy_resolve W ctx ref email tok h = (r, h') \<Longrightarrow> extends completion_call h h'"
  unfolding legacy_resolve_def
  by (auto split: sum.splits option.splits prod.splits
      dest!: copy_rest_action_calls call_copy_calls delete_copy_calls intro: extends_trans)

section \<open>Properties\<close>

text \<open>What a call shows of itself outside its body: what proxies and traces record.\<close>

fun outside_body :: "call \<Rightarrow> call" where
  "outside_body (CHttp m u hs b) = CHttp m u hs ''''"
| "outside_body c = c"

text \<open>
  The user's access token never leaves authn in a URL or a header of the RESTAction call:
  for any two tokens the calls made are the same up to the request body.
\<close>

lemma user_token_only_in_body:
  "map outside_body (new_calls h (snd (rest_resolve W ctx ref t1 h)))
     = map outside_body (new_calls h (snd (rest_resolve W ctx ref t2 h)))"
  by (auto simp: rest_resolve_def Let_def ask_http_def
      split: option.splits sum.splits prod.splits)

fun deletes :: "call \<Rightarrow> bool" where
  "deletes (CSecretDelete _ _ _) = True"
| "deletes (CRestActionDelete _ _) = True"
| "deletes _ = False"

lemma copy_no_deletes:
  "copy_endpoints W ref email tok apis h = (r, h') \<Longrightarrow> extends (\<lambda>c. \<not> deletes c) h h'"
proof (induction W ref email tok apis h arbitrary: r h' rule: copy_endpoints.induct)
  case (3 W ref email tok x apis h)
  have g: "secrets_get W sel h = (rg, h1) \<Longrightarrow> extends (\<lambda>c. \<not> deletes c) h h1" for sel h rg h1
    by (auto simp: secrets_get_def ask_defs split: option.splits)
  have c: "secrets_create_or_update W s h = (rg, h1) \<Longrightarrow> extends (\<lambda>c. \<not> deletes c) h h1" for s h rg h1
    by (auto simp: secrets_create_or_update_def ask_defs extends_def
        split: option.splits sum.splits if_splits)
  from 3 show ?case
    by (auto split: sum.splits option.splits prod.splits dest!: g c intro: extends_trans)
qed (auto split: sum.splits option.splits prod.splits)

lemma copy_rest_action_no_deletes:
  "copy_rest_action W ref email tok h = (r, h') \<Longrightarrow> extends (\<lambda>c. \<not> deletes c) h h'"
proof -
  have g: "ra_get W ref h = (rg, h1) \<Longrightarrow> extends (\<lambda>c. \<not> deletes c) h h1" for rg ref h h1
    by (auto simp: ra_get_def ask_defs split: option.splits)
  have c: "ra_create_or_update W s h = (rg, h1) \<Longrightarrow> extends (\<lambda>c. \<not> deletes c) h h1" for s h rg h1
    by (auto simp: ra_create_or_update_def ask_defs extends_def
        split: option.splits sum.splits if_splits)
  assume "copy_rest_action W ref email tok h = (r, h')"
  then show ?thesis
    unfolding copy_rest_action_def Let_def
    by (auto split: sum.splits option.splits prod.splits
        dest!: g c copy_no_deletes intro: extends_trans)
qed

text \<open>
  A legacy resolution that fails before its last step leaves its copies behind: when copying
  or calling the copy fails, not one Secret or RESTAction is deleted, so endpoint copies
  that already hold the user's token stay in the cluster; only a call that succeeded is
  followed by the deletion, whose failure fails the resolution.
\<close>

lemma failed_legacy_resolution_keeps_the_copies:
  "case copy_rest_action W ref email tok h of
     (Inl e, h1) \<Rightarrow> snd (legacy_resolve W ctx ref email tok h) = h1
        \<and> list_all (\<lambda>c. \<not> deletes c) (new_calls h h1)
   | (Inr cpy, h1) \<Rightarrow>
       (case call_copy W ctx cpy h1 of
          (Inl e, h2) \<Rightarrow> legacy_resolve W ctx ref email tok h = (Inl e, h2)
             \<and> list_all (\<lambda>c. \<not> deletes c) (new_calls h h2)
        | (Inr st, h2) \<Rightarrow>
            (case delete_rest_action_copy W cpy h2 of
               (None, h3) \<Rightarrow> legacy_resolve W ctx ref email tok h = (Inr st, h3)
             | (Some e, h3) \<Rightarrow> \<exists>e'. legacy_resolve W ctx ref email tok h = (Inl e', h3)))"
proof -
  obtain r h1 where c: "copy_rest_action W ref email tok h = (r, h1)" by force
  note nd = copy_rest_action_no_deletes [OF c]
  show ?thesis
  proof (cases r)
    case (Inl e)
    with c nd show ?thesis by (simp add: legacy_resolve_def extends_list_all)
  next
    case (Inr cpy)
    obtain r2 h2 where k: "call_copy W ctx cpy h1 = (r2, h2)" by force
    have "extends (\<lambda>c. \<not> deletes c) h1 h2"
      using call_copy_one [OF k] by auto
    with nd have "extends (\<lambda>c. \<not> deletes c) h h2" by (rule extends_trans)
    with c k Inr show ?thesis
      by (auto simp: legacy_resolve_def extends_list_all split: sum.splits prod.splits option.splits)
  qed
qed

end
