(* ===== verification/Profile.thy ===== *)
theory Profile
  imports RestAction "HOL-Library.Multiset"
begin

text \<open>
  The profile an OIDC or OAuth login builds its identity from, and how a RESTAction's answer
  replaces its fields: \<open>updateConfig\<close> of \<open>oauth/support.go\<close> and \<open>oidc/support.go\<close>, which are the
  same code over \<open>userInfo\<close> and \<open>idToken\<close>, and \<open>checkKeys\<close>. The record is extensible, so one
  definition serves both.
\<close>

record profile =
  pf_name :: string
  pf_email :: string
  pf_preferred_username :: string
  pf_groups :: "string list"
  pf_avatar_url :: string

fun json_strings :: "json list \<Rightarrow> string list option" where
  "json_strings [] = Some []"
| "json_strings (JStr s # vs) = map_option (\<lambda>xs. s # xs) (json_strings vs)"
| "json_strings (_ # vs) = None"

definition not_type :: "string \<Rightarrow> string \<Rightarrow> gerr" where
  "not_type key ty = Err [Str ''error parsing updated config: '', Str key, Str '' is not type '', Str ty]"

text \<open>One turn of the loop: the \<open>switch key\<close>. A key outside the five is passed over.\<close>

definition update_field :: "'a profile_scheme \<Rightarrow> string \<Rightarrow> json \<Rightarrow> gerr + 'a profile_scheme" where
  "update_field c key v =
     (if key = ''name'' then (case v of JStr s \<Rightarrow> Inr (c\<lparr>pf_name := s\<rparr>) | _ \<Rightarrow> Inl (not_type key ''string''))
      else if key = ''email'' then (case v of JStr s \<Rightarrow> Inr (c\<lparr>pf_email := s\<rparr>) | _ \<Rightarrow> Inl (not_type key ''string''))
      else if key = ''preferredUsername''
        then (case v of JStr s \<Rightarrow> Inr (c\<lparr>pf_preferred_username := s\<rparr>) | _ \<Rightarrow> Inl (not_type key ''string''))
      else if key = ''groups''
        then (case v of
                JArr vs \<Rightarrow> (case json_strings vs of
                              None \<Rightarrow> Inl (not_type key ''string array'')
                            | Some gs \<Rightarrow> Inr (c\<lparr>pf_groups := gs\<rparr>))
              | _ \<Rightarrow> Inl (not_type key ''array''))
      else if key = ''avatarURL'' then (case v of JStr s \<Rightarrow> Inr (c\<lparr>pf_avatar_url := s\<rparr>) | _ \<Rightarrow> Inl (not_type key ''string''))
      else Inr c)"

fun update_config :: "'a profile_scheme \<Rightarrow> go_map \<Rightarrow> gerr + 'a profile_scheme" where
  "update_config c [] = Inr c"
| "update_config c ((key, v) # m) =
     (if v = JNull then update_config c m
      else (case update_field c key v of Inl e \<Rightarrow> Inl e | Inr c \<Rightarrow> update_config c m))"

text \<open>\<open>checkKeys\<close>: the same keys and types, and no other key.\<close>

definition check_field :: "string \<Rightarrow> json \<Rightarrow> gerr option" where
  "check_field key v =
     (if key = ''name'' then (case v of JStr _ \<Rightarrow> None | _ \<Rightarrow> Some (Err [Str ''key name not string'']))
      else if key = ''email'' then (case v of JStr _ \<Rightarrow> None | _ \<Rightarrow> Some (Err [Str ''key email not string'']))
      else if key = ''preferredUsername''
        then (case v of JStr _ \<Rightarrow> None | _ \<Rightarrow> Some (Err [Str ''key preferredUsername not string'']))
      else if key = ''groups''
        then (case v of
                JArr vs \<Rightarrow> (if json_strings vs = None then Some (Err [Str ''key in groups not string'']) else None)
              | _ \<Rightarrow> Some (Err [Str ''key groups not []any'']))
      else if key = ''avatarURL'' then (case v of JStr _ \<Rightarrow> None | _ \<Rightarrow> Some (Err [Str ''key avatarURL not string'']))
      else Some (Err [Str ''found unexpected key: '', Str key]))"

fun check_keys :: "go_map \<Rightarrow> gerr option" where
  "check_keys [] = None"
| "check_keys ((key, v) # m) =
     (if v = JNull then check_keys m
      else (case check_field key v of Some e \<Rightarrow> Some e | None \<Rightarrow> check_keys m))"

section \<open>Facts\<close>

text \<open>Whether a pair is usable, and what it does when it is.\<close>

definition usable :: "string \<times> json \<Rightarrow> bool" where
  "usable kv \<longleftrightarrow> snd kv = JNull
     \<or> isOk (update_field \<lparr>pf_name = '''', pf_email = '''', pf_preferred_username = '''', pf_groups = [],
                           pf_avatar_url = ''''\<rparr> (fst kv) (snd kv))"

definition put_field :: "string \<times> json \<Rightarrow> 'a profile_scheme \<Rightarrow> 'a profile_scheme" where
  "put_field kv c = (if snd kv = JNull then c
     else case update_field c (fst kv) (snd kv) of Inl _ \<Rightarrow> c | Inr d \<Rightarrow> d)"

lemma update_field_isOk:
  "isOk (update_field (c :: 'a profile_scheme) k v) = isOk (update_field (d :: 'b profile_scheme) k v)"
  by (auto simp: update_field_def split: json.splits option.splits)

lemma usable_iff: "usable (k, v) \<longleftrightarrow> v = JNull \<or> isOk (update_field c k v)"
  unfolding usable_def using update_field_isOk [of c k v] by auto

lemma update_config_fold:
  "update_config c m = (if list_all usable m then Inr (fold put_field m c) else update_config c m)
   \<and> (isOk (update_config c m) \<longleftrightarrow> list_all usable m)"
proof (induction c m rule: update_config.induct)
  case (2 c key v m)
  show ?case
  proof (cases "v = JNull")
    case True
    moreover have "usable (key, JNull)" by (simp add: usable_def)
    ultimately show ?thesis using 2 by (auto simp: put_field_def)
  next
    case False
    show ?thesis
    proof (cases "update_field c key v")
      case (Inl e)
      with False show ?thesis by (simp add: usable_iff [of key v c])
    next
      case (Inr d)
      with False 2(2)[OF False Inr] show ?thesis
        by (auto simp: usable_iff [of key v c] put_field_def)
    qed
  qed
qed simp

lemma update_config_Inr: "list_all usable m \<Longrightarrow> update_config c m = Inr (fold put_field m c)"
  using update_config_fold [of c m] by simp

lemma update_config_isOk: "isOk (update_config c m) \<longleftrightarrow> list_all usable m"
  using update_config_fold [of c m] by simp

definition str_of :: "json \<Rightarrow> string option" where
  "str_of v = (case v of JStr s \<Rightarrow> Some s | _ \<Rightarrow> None)"

definition strs_of :: "json \<Rightarrow> string list option" where
  "strs_of v = (case v of JArr vs \<Rightarrow> json_strings vs | _ \<Rightarrow> None)"

definition over :: "bool \<Rightarrow> 'a option \<Rightarrow> 'a \<Rightarrow> 'a" where
  "over b x d = (if b then (case x of None \<Rightarrow> d | Some y \<Rightarrow> y) else d)"

lemma put_field_fields:
  "pf_name (put_field kv c) = over (fst kv = ''name'') (str_of (snd kv)) (pf_name c)"
  "pf_email (put_field kv c) = over (fst kv = ''email'') (str_of (snd kv)) (pf_email c)"
  "pf_preferred_username (put_field kv c) =
     over (fst kv = ''preferredUsername'') (str_of (snd kv)) (pf_preferred_username c)"
  "pf_groups (put_field kv c) = over (fst kv = ''groups'') (strs_of (snd kv)) (pf_groups c)"
  "pf_avatar_url (put_field kv c) = over (fst kv = ''avatarURL'') (str_of (snd kv)) (pf_avatar_url c)"
  "profile.more (put_field kv c) = profile.more c"
  by (simp_all add: put_field_def update_field_def over_def str_of_def strs_of_def
      split: json.split option.split)

lemma over_commute: "\<not> (a \<and> b) \<Longrightarrow> over a x (over b y d) = over b y (over a x d)"
  by (cases a; cases b) (simp_all add: over_def)

lemma put_field_commute:
  "fst kv \<noteq> fst lw \<Longrightarrow> put_field kv (put_field lw c) = put_field lw (put_field kv c)"
  by (rule profile.equality; simp add: put_field_fields; rule over_commute; auto)

lemma check_keys_usable: "check_keys m = None \<Longrightarrow> list_all usable m"
proof (induction m rule: check_keys.induct)
  case (2 key v m)
  then show ?case
    by (auto simp: usable_iff [where c = "undefined :: profile"] check_field_def update_field_def
        split: if_splits json.splits option.splits)
qed simp

section \<open>Properties\<close>

text \<open>
  C28. What a RESTAction's answer does to a profile does not depend on the order Go happens to
  visit its keys in: for two orders of one answer either both are refused or both give the
  same profile; and an answer that passed the key check is never refused.
\<close>

theorem profile_update_order_irrelevant:
  fixes c :: "'a profile_scheme"
  assumes "distinct (map fst m)" and "mset m' = mset m"
  shows "(case (update_config c m, update_config c m') of
            (Inr d, Inr d') \<Rightarrow> d = d' | (Inl _, Inl _) \<Rightarrow> True | _ \<Rightarrow> False)
         \<and> (check_keys m = None \<longrightarrow> isOk (update_config c m'))"
proof -
  have all: "list_all P m' = list_all P m" for P
    using assms(2) by (metis list_all_iff set_mset_mset)
  have "fold put_field m' = (fold put_field m :: 'a profile_scheme \<Rightarrow> 'a profile_scheme)"
  proof (rule fold_multiset_equiv)
    fix x y
    assume "x \<in> set m'" "y \<in> set m'"
    then have xy: "x \<in> set m" "y \<in> set m" using assms(2) by (metis set_mset_mset)+
    show "put_field x \<circ> put_field y = (put_field y \<circ> put_field x :: 'a profile_scheme \<Rightarrow> 'a profile_scheme)"
    proof (cases "fst x = fst y")
      case True
      with xy assms(1) have "x = y" by (metis eq_key_imp_eq_value prod.collapse)
      then show ?thesis by simp
    next
      case False
      then show ?thesis by (auto simp: put_field_commute)
    qed
  qed (simp add: assms(2))
  then have same: "fold put_field m c = fold put_field m' c" by simp
  show ?thesis
  proof (cases "list_all usable m")
    case True
    then show ?thesis
      using all [of usable] same by (simp add: update_config_Inr)
  next
    case False
    then have "\<not> isOk (update_config c m)" "\<not> isOk (update_config c m')"
      using all [of usable] by (simp_all add: update_config_isOk)
    moreover have "check_keys m \<noteq> None" using False check_keys_usable by blast
    ultimately show ?thesis by (cases "update_config c m"; cases "update_config c m'") auto
  qed
qed

theorem profile_update_order_irrelevant_witness:
  "(case (update_config \<lparr>pf_name = ''a'', pf_email = ''b'', pf_preferred_username = ''c'', pf_groups = [], pf_avatar_url = ''''\<rparr>
            [(''name'', JStr ''ann''), (''groups'', JArr [JStr ''dev''])],
          update_config \<lparr>pf_name = ''a'', pf_email = ''b'', pf_preferred_username = ''c'', pf_groups = [], pf_avatar_url = ''''\<rparr>
            [(''groups'', JArr [JStr ''dev'']), (''name'', JStr ''ann'')]) of
      (Inr d, Inr d') \<Rightarrow> d = d' | (Inl _, Inl _) \<Rightarrow> True | _ \<Rightarrow> False)
   \<and> isOk (update_config \<lparr>pf_name = ''a'', pf_email = ''b'', pf_preferred_username = ''c'', pf_groups = [], pf_avatar_url = ''''\<rparr>
            [(''groups'', JArr [JStr ''dev'']), (''name'', JStr ''ann'')])"
  using profile_update_order_irrelevant
    [of "[(''name'', JStr ''ann''), (''groups'', JArr [JStr ''dev''])]"
        "[(''groups'', JArr [JStr ''dev'']), (''name'', JStr ''ann'')]"
        "\<lparr>pf_name = ''a'', pf_email = ''b'', pf_preferred_username = ''c'', pf_groups = [], pf_avatar_url = ''''\<rparr>"]
  by (simp add: check_field_def)

end
