(* ===== verification/OAuth.thy ===== *)
theory OAuth
  imports Profile
begin

text \<open>
  \<open>internal/routes/auth/oauth\<close>: \<open>GET /oauth/login\<close>. The authorization code is exchanged through
  golang.org/x/oauth2 (the world's \<open>w_exchange\<close>), and the identity is what the OAuthConfig's
  RESTAction answers; without one it is the empty profile.
\<close>

definition CauseOAuthConfigNotFound :: cause where "CauseOAuthConfigNotFound = ''OAuthConfigNotFound''"
definition CauseOAuthConfigLookupFailed :: cause where
  "CauseOAuthConfigLookupFailed = ''OAuthConfigLookupFailed''"
definition CauseClientSecretLookupFailed :: cause where
  "CauseClientSecretLookupFailed = ''ClientSecretLookupFailed''"

definition authCodeKey :: string where "authCodeKey = ''X-Auth-Code''"
definition codeVerifierKey :: string where "codeVerifierKey = ''X-Code-Verifier''"

definition oauth_config_not_found :: "string \<Rightarrow> gerr" where
  "oauth_config_not_found name =
     CauseE 404 CauseOAuthConfigNotFound (Err [Str ''OAuthConfig '', Quo name, Str '' not found'']) None"

definition oauth_get_config ::
  "world \<Rightarrow> string \<Rightarrow> history \<Rightarrow> (gerr + (oauth_config \<times> obj_ref option)) \<times> history" where
  "oauth_get_config W name h =
     (if \<not> w_valid_segment W name then (Inl (oauth_config_not_found name), h)
      else (case get_oauth_config W name h of
        (Inl e, h) \<Rightarrow>
          (Inl (if is_not_found e then oauth_config_not_found name
                else failed CauseOAuthConfigLookupFailed
                       (Wrap [Str ''unable to resolve OAuth configuration: ''] e [])), h)
      | (Inr ghc, h) \<Rightarrow>
     (case secrets_get W (oa_client_secret_ref ghc) h of
        (Inl e, h) \<Rightarrow>
          (Inl (failed CauseClientSecretLookupFailed
             (Wrap [Str ''unable to read the client secret: ''] e [])), h)
      | (Inr sec, h) \<Rightarrow>
     (case sec_data sec (sel_key (oa_client_secret_ref ghc)) of
        None \<Rightarrow>
          (Inl (failed CauseClientSecretLookupFailed
             (Err [Str ''the client secret has no key '', Quo (sel_key (oa_client_secret_ref ghc))])), h)
      | Some v \<Rightarrow>
          (Inr (\<lparr>of_client_id = oa_client_id ghc, of_client_secret = v,
                 of_redirect_url = oa_redirect_url ghc, of_scopes = oa_scopes ghc,
                 of_auth_url = oa_auth_url ghc, of_token_url = oa_token_url ghc\<rparr>,
                oa_rest_action_ref ghc), h)))))"

fun the_retrieve :: "gerr \<Rightarrow> (int option \<times> string) option" where
  "the_retrieve (RetrieveE c s) = Some (c, s)"
| "the_retrieve _ = None"

definition classify_exchange :: "gerr \<Rightarrow> gerr" where
  "classify_exchange e =
     (case first_some (map the_retrieve (err_chain e)) of
        Some (Some code, errorCode) \<Rightarrow> exchange_refusal code errorCode e
      | _ \<Rightarrow> exchange_failed e)"

text \<open>\<open>validate\<close>: the identity of a profile.\<close>

definition oauth_validate :: "world \<Rightarrow> profile \<Rightarrow> history \<Rightarrow> user \<times> history" where
  "oauth_validate W p h =
     (let exts = ext_add Map.empty ''name'' (pf_name p);
          exts = ext_add exts ''email'' (pf_email p);
          exts = ext_add exts ''avatarUrl'' (pf_avatar_url p)
      in (case ask_new_id W h of (uid, h) \<Rightarrow>
           (new_default_user (w_dns1123 W (pf_preferred_username p)) uid (pf_groups p) exts, h)))"

definition empty_profile :: profile where
  "empty_profile = \<lparr>pf_name = '''', pf_email = '''', pf_preferred_username = '''', pf_groups = [],
                    pf_avatar_url = ''''\<rparr>"

text \<open>
  The RESTAction block of the handler: \<open>Resolve\<close>, its name check, the legacy fallback, and the
  update of the profile. The legacy copy is named by a fresh UUID.
\<close>

definition oauth_complete ::
  "world \<Rightarrow> rest_ctx \<Rightarrow> obj_ref option \<Rightarrow> oauth_token \<Rightarrow> history \<Rightarrow> (gerr + profile) \<times> history" where
  "oauth_complete W ctx restactionRef tok h =
     (case restactionRef of
        None \<Rightarrow> (Inr empty_profile, h)
      | Some ref \<Rightarrow>
          if \<not> equal_fold (ot_token_type tok) ''bearer''
          then (Inl (exchange_failed (Err [Str ''oauth2 token is not type bearer: '', Str (ot_token_type tok)])), h)
          else
            let (r, h) = rest_resolve W ctx ref (ot_access_token tok) h;
                named = (case r of Inl _ \<Rightarrow> False
                         | Inr m \<Rightarrow> (case go_get m ''name'' of Some (JStr v) \<Rightarrow> v \<noteq> '''' | _ \<Rightarrow> False));
                (r, h) = (if named then (r, h)
                          else (case ask_new_id W h of (uuid, h) \<Rightarrow>
                                 legacy_resolve W ctx ref uuid (ot_access_token tok) h))
            in (case r of
                  Inl e \<Rightarrow> (Inl (restaction_failed e), h)
                | Inr m \<Rightarrow>
                    (case update_config empty_profile m of
                       Inl e \<Rightarrow> (Inl (failed CauseRESTActionFailed
                                  (Wrap [Str ''the RESTAction's answer is unusable: ''] e [])), h)
                     | Inr p \<Rightarrow> (Inr p, h))))"

definition oauth_login ::
  "world \<Rightarrow> rest_ctx \<Rightarrow> rest_ctx \<Rightarrow> login_opts \<Rightarrow> generator \<Rightarrow> request \<Rightarrow> response \<Rightarrow> history
     \<Rightarrow> response \<times> generator \<times> history" where
  "oauth_login W reqCtx base opts g req w h =
     (let name = query_get req ''name''; code = header_get (rq_header req) authCodeKey
      in if length name = 0
         then (failure w (from_error (bad_request CauseMissingConfigName
                 (Err [Str ''OAuthConfig 'name' must be specified'']))), g, h)
         else if length code = 0
         then (failure w (from_error (bad_request CauseMissingAuthorizationCode
                 (Err [Str ''the '', Str authCodeKey, Str '' header must carry the authorization code'']))), g, h)
         else (case oauth_get_config W name h of
           (Inl e, h) \<Rightarrow> (failure w (from_error e), g, h)
         | (Inr (oc, restactionRef), h) \<Rightarrow>
             let callCtx = merge_request_context reqCtx base;
                 verifier = header_get (rq_header req) codeVerifierKey
             in (case ask_exchange W oc code (if verifier \<noteq> '''' then Some verifier else None) h of
                   (Inl e, h) \<Rightarrow> (failure w (from_error (classify_exchange e)), g, h)
                 | (Inr tok, h) \<Rightarrow>
                (case oauth_complete W callCtx restactionRef tok h of
                   (Inl e, h) \<Rightarrow> (failure w (from_error e), g, h)
                 | (Inr p, h) \<Rightarrow>
                (case oauth_validate W p h of
                   (u, h) \<Rightarrow> session_answer (generate W) W opts StrategyOAuth name g u w h)))))"

section \<open>Facts\<close>

lemma oauth_get_config_quiet: "oauth_get_config W name h = (r, h') \<Longrightarrow> extends quiet h h'"
  unfolding oauth_get_config_def
  by (auto split: if_splits sum.splits prod.splits option.splits dest!: resolvers_quiet intro: extends_trans)

definition reads_or_completes :: "call \<Rightarrow> bool" where
  "reads_or_completes c \<longleftrightarrow> quiet c \<or> completion_call c"

lemma reads_or_completes_not_issues: "reads_or_completes c \<Longrightarrow> \<not> issues c"
  by (auto simp: reads_or_completes_def quiet_def completion_not_issues)

lemma completes_if_quiet: "extends quiet h h' \<Longrightarrow> extends reads_or_completes h h'"
  by (erule extends_mono) (simp add: reads_or_completes_def)

lemma completes_if_completion: "extends completion_call h h' \<Longrightarrow> extends reads_or_completes h h'"
  by (erule extends_mono) (simp add: reads_or_completes_def)

lemma oauth_complete_calls:
  assumes "oauth_complete W ctx ref tok h = (r, h')"
  shows "extends reads_or_completes h h'"
proof (cases "ref = None \<or> \<not> equal_fold (ot_token_type tok) ''bearer''")
  case True
  with assms show ?thesis by (auto simp: oauth_complete_def split: option.splits)
next
  case False
  then obtain rf where rf: "ref = Some rf" "equal_fold (ot_token_type tok) ''bearer''" by auto
  obtain r1 h1 where r1: "rest_resolve W ctx rf (ot_access_token tok) h = (r1, h1)" by force
  note q1 = completes_if_completion [OF rest_resolve_calls [OF r1]]
  obtain r2 h2 where r2: "legacy_resolve W ctx rf (w_new_id W h1) (ot_access_token tok) (h1 @ [CNewId]) = (r2, h2)"
    by force
  have q2: "extends reads_or_completes h h2"
    using extends_trans [OF extends_snoc [OF q1, of CNewId] completes_if_completion [OF legacy_resolve_calls [OF r2]]]
    by (simp add: reads_or_completes_def)
  have "h' = h1 \<or> h' = h2"
    using assms rf r1 r2 unfolding oauth_complete_def ask_new_id_def Let_def
    by (auto split: if_splits sum.splits prod.splits)
  with q1 q2 show ?thesis by blast
qed

lemma oauth_validate_facts:
  "oauth_validate W p h = (u, h') \<Longrightarrow>
   h' = h @ [CNewId] \<and> unprivileged u \<and> u_name u = w_dns1123 W (pf_preferred_username p)
   \<and> u_groups u = filter (\<lambda>g. \<not> is_reserved g) (pf_groups p)"
  by (auto simp: oauth_validate_def ask_new_id_def Let_def)

section \<open>Properties\<close>

text \<open>How an OAuth login goes: refused on the way, or completed and handed to the session's tail.\<close>

lemma oauth_login_cases:
  assumes b: "oauth_login W reqCtx base opts g req w h = (w', g', h')"
  obtains (refused) "extends reads_or_completes h h'" "only_failures w' = only_failures w"
  | (completed) oc ref h1 x tok p h3 u h4 where "header_get (rq_header req) authCodeKey \<noteq> ''''"
      "oauth_get_config W (query_get req ''name'') h = (Inr (oc, ref), h1)"
      "x = CExchange oc (header_get (rq_header req) authCodeKey)
         (let v = header_get (rq_header req) codeVerifierKey in if v \<noteq> '''' then Some v else None)"
      "w_exchange W (h1 @ [x]) = Inr tok"
      "oauth_complete W (merge_request_context reqCtx base) ref tok (h1 @ [x]) = (Inr p, h3)"
      "oauth_validate W p h3 = (u, h4)" "extends reads_or_completes h h3"
      "session_answer (generate W) W opts StrategyOAuth (query_get req ''name'') g u w h4 = (w', g', h')"
proof (cases "length (query_get req ''name'') = 0 \<or> length (header_get (rq_header req) authCodeKey) = 0")
  case True
  with b show ?thesis by (intro refused) (auto simp: oauth_login_def Let_def split: if_splits)
next
  case named: False
  obtain r1 h1 where c: "oauth_get_config W (query_get req ''name'') h = (r1, h1)" by force
  note q1 = completes_if_quiet [OF oauth_get_config_quiet [OF c]]
  show ?thesis
  proof (cases r1)
    case (Inl e)
    with b named c q1 show ?thesis by (intro refused) (auto simp: oauth_login_def Let_def)
  next
    case (Inr ocr)
    then obtain oc ref where oc: "r1 = Inr (oc, ref)" by (cases ocr) auto
    define x where "x = CExchange oc (header_get (rq_header req) authCodeKey)
      (let v = header_get (rq_header req) codeVerifierKey in if v \<noteq> '''' then Some v else None)"
    have q2: "extends reads_or_completes h (h1 @ [x])"
      using q1 by (rule extends_snoc) (simp add: reads_or_completes_def x_def)
    show ?thesis
    proof (cases "w_exchange W (h1 @ [x])")
      case (Inl e)
      with b named c oc q2 show ?thesis
        by (intro refused) (auto simp: oauth_login_def Let_def ask_exchange_def x_def)
    next
      case tok: (Inr tok)
      obtain r3 h3 where k: "oauth_complete W (merge_request_context reqCtx base) ref tok (h1 @ [x]) = (r3, h3)"
        by force
      note q3 = extends_trans [OF q2 oauth_complete_calls [OF k]]
      obtain u h4 where u: "\<And>p. r3 = Inr p \<Longrightarrow> oauth_validate W p h3 = (u, h4)"
        by (cases r3) (auto, metis surj_pair)
      note go = b named c oc tok k
      show ?thesis
      proof (cases r3)
        case (Inl e)
        with go q3 show ?thesis
          by (intro refused) (auto simp: oauth_login_def Let_def ask_exchange_def x_def)
      next
        case (Inr p)
        have "session_answer (generate W) W opts StrategyOAuth (query_get req ''name'') g u w h4 = (w', g', h')"
          using go Inr u [OF Inr] by (simp add: oauth_login_def Let_def ask_exchange_def x_def)
        with go Inr u [OF Inr] q3 x_def show ?thesis by (intro completed) auto
      qed
    qed
  qed
qed


text \<open>
  An OAuthConfig without a RESTAction gives every caller the same identity: whatever the
  provider answered, the profile is the empty one, so the user is named by the empty string
  made DNS-compatible and has no group.
\<close>

lemma oauth_without_restaction_is_anonymous:
  "oauth_complete W ctx None tok h = (Inr empty_profile, h)
   \<and> (case oauth_validate W empty_profile h of (u, _) \<Rightarrow> u_name u = w_dns1123 W '''' \<and> u_groups u = [])"
  by (simp add: oauth_complete_def oauth_validate_def empty_profile_def ask_new_id_def Let_def)

end
