(* ===== verification/OidcToken.thy ===== *)
theory OidcToken
  imports OAuth
begin

text \<open>
  \<open>internal/routes/auth/oidc\<close>, first part: the ID token (idtoken.go), the reading of claims,
  and the exchange of an authorization code for a validated identity (\<open>getConfig\<close> and
  \<open>doLogin\<close> of support.go).
\<close>

definition CauseIDTokenInvalid :: cause where "CauseIDTokenInvalid = ''IDTokenInvalid''"
definition CauseIssuerMismatch :: cause where "CauseIssuerMismatch = ''IssuerMismatch''"
definition CauseTokenAudienceMismatch :: cause where "CauseTokenAudienceMismatch = ''AudienceMismatch''"
definition CauseTokenExpired :: cause where "CauseTokenExpired = ''TokenExpired''"
definition CauseIssuerUnknown :: cause where "CauseIssuerUnknown = ''IssuerUnknown''"
definition CauseIssuerConflict :: cause where "CauseIssuerConflict = ''IssuerConflict''"
definition CauseOIDCConfigNotFound :: cause where "CauseOIDCConfigNotFound = ''OIDCConfigNotFound''"
definition CauseOIDCConfigLookupFailed :: cause where
  "CauseOIDCConfigLookupFailed = ''OIDCConfigLookupFailed''"
definition CauseOIDCConfigInvalid :: cause where "CauseOIDCConfigInvalid = ''OIDCConfigInvalid''"
definition CauseOIDCDiscoveryFailed :: cause where "CauseOIDCDiscoveryFailed = ''OIDCDiscoveryFailed''"
definition CauseUserInfoFailed :: cause where "CauseUserInfoFailed = ''UserInfoFailed''"

section \<open>Claims\<close>

definition errNotAString :: gerr where "errNotAString = Err [Str ''is not a string'']"
definition errNotANumber :: gerr where "errNotANumber = Err [Str ''is not a number'']"
definition errNotAStringsList :: gerr where "errNotAStringsList = Err [Str ''is not a list of strings'']"

definition string_claim :: "go_map \<Rightarrow> string \<Rightarrow> gerr + string option" where
  "string_claim m key =
     (case go_get m key of
        None \<Rightarrow> Inr None
      | Some JNull \<Rightarrow> Inr None
      | Some (JStr v) \<Rightarrow> Inr (Some v)
      | Some _ \<Rightarrow> Inl errNotAString)"

definition string_list_claim :: "go_map \<Rightarrow> string \<Rightarrow> gerr + string list option" where
  "string_list_claim m key =
     (case go_get m key of
        None \<Rightarrow> Inr None
      | Some JNull \<Rightarrow> Inr None
      | Some (JArr vs) \<Rightarrow> (case json_strings vs of None \<Rightarrow> Inl errNotAStringsList | Some ss \<Rightarrow> Inr (Some ss))
      | Some _ \<Rightarrow> Inl errNotAStringsList)"

definition decode_jwt :: "world \<Rightarrow> string \<Rightarrow> gerr + go_map" where
  "decode_jwt W tok =
     (let parts = split_byte (CHR ''.'') tok
      in if length parts \<noteq> 3
         then Inl (Err [Str ''invalid token: expected 3 parts, got '', Dec (int (length parts))])
         else (case w_base64url W (parts ! 1) of
                 Inl e \<Rightarrow> Inl (Err (Str ''error decoding payload: '' # err_text e))
               | Inr payload \<Rightarrow>
                   (case unmarshal_map W payload of
                      Inl e \<Rightarrow> Inl (Err (Str ''error parsing payload JSON: '' # err_text e))
                    | Inr claims \<Rightarrow> Inr claims)))"

section \<open>The ID token\<close>

definition clockSkew :: duration where "clockSkew = minute"

definition errIssuerUnknown :: gerr where
  "errIssuerUnknown = Err [Str ''no issuer to validate the ID token against: set spec.issuer or spec.discoveryURL'']"

definition audiences :: "json option \<Rightarrow> gerr + string list" where
  "audiences v =
     (case v of
        Some (JStr a) \<Rightarrow> Inr [a]
      | Some (JArr vs) \<Rightarrow>
          (case json_strings vs of
             None \<Rightarrow> Inl (Err [Str ''ID token aud has a non-string value''])
           | Some ss \<Rightarrow> Inr ss)
      | _ \<Rightarrow> Inl (Err [Str ''ID token has no aud'']))"

fun contains_string :: "string list \<Rightarrow> string \<Rightarrow> bool" where
  "contains_string [] want = False"
| "contains_string (x # xs) want = (if x = want then True else contains_string xs want)"

text \<open>A type assertion to string whose success is not looked at: the value, or the empty string.\<close>

definition claim_or_empty :: "go_map \<Rightarrow> string \<Rightarrow> string" where
  "claim_or_empty m key = (case go_get m key of Some (JStr s) \<Rightarrow> s | _ \<Rightarrow> '''')"

definition validate_id_token :: "world \<Rightarrow> go_map \<Rightarrow> string \<Rightarrow> string \<Rightarrow> time \<Rightarrow> gerr option" where
  "validate_id_token W claims issuer clientID now =
     (if issuer = '''' then Some (failed CauseIssuerUnknown errIssuerUnknown)
      else let iss = claim_or_empty claims ''iss''
      in if iss \<noteq> issuer
      then Some (refused CauseIssuerMismatch
             (Err [Str ''ID token issuer '', Quo iss, Str '', expected '', Quo issuer]))
      else (case audiences (go_get claims ''aud'') of
        Inl e \<Rightarrow> Some (refused CauseIDTokenInvalid e)
      | Inr aud \<Rightarrow>
          if \<not> contains_string aud clientID
          then Some (refused CauseTokenAudienceMismatch
                 (Err [Str ''ID token audience '', Quos aud, Str '' does not include client '', Quo clientID]))
          else if 1 < length aud \<and> claim_or_empty claims ''azp'' \<noteq> clientID
          then Some (refused CauseTokenAudienceMismatch
                 (Err [Str ''ID token has several audiences and azp '', Quo (claim_or_empty claims ''azp''),
                       Str '' is not client '', Quo clientID]))
          else (case go_get claims ''exp'' of
            Some (JNum expNum) \<Rightarrow>
              let expiry = time_unix (float_to_int64 W expNum)
              in if time_add expiry clockSkew < now
                 then Some (refused CauseTokenExpired
                        (Err [Str ''ID token expired at '', Str (w_rfc3339 W expiry)]))
                 else None
          | _ \<Rightarrow> Some (refused CauseIDTokenInvalid (Err [Str ''ID token has no numeric exp''])))))"

section \<open>Configuration\<close>

record step_up_config =
  su_acr_values :: "string list"
  su_max_age :: duration
  su_ttl :: duration

definition DefaultStepUpMaxAge :: duration where "DefaultStepUpMaxAge = 5 * minute"
definition DefaultStepUpTTL :: duration where "DefaultStepUpTTL = 15 * minute"
definition MinStepUpTTL :: duration where "MinStepUpTTL = 10 * minute"

definition resolve_step_up :: "step_up_spec option \<Rightarrow> step_up_config option" where
  "resolve_step_up spec =
     (case spec of
        None \<Rightarrow> None
      | Some s \<Rightarrow> Some \<lparr>su_acr_values = sp_acr_values s,
                       su_max_age = (case sp_max_age s of None \<Rightarrow> DefaultStepUpMaxAge | Some d \<Rightarrow> d),
                       su_ttl = (case sp_ttl s of None \<Rightarrow> DefaultStepUpTTL | Some d \<Rightarrow> d)\<rparr>)"

record oidc_config =
  od_step_up :: "step_up_config option"
  od_allowed_groups :: "string list"
  od_discovery_url :: string
  od_issuer :: string
  od_authorize_url :: string
  od_token_url :: string
  od_user_info_url :: string
  od_redirect_uri :: string
  od_client_id :: string
  od_client_secret :: string
  od_additional_scopes :: string
  od_rest_action_ref :: "obj_ref option"

definition oidc_config_not_found :: "string \<Rightarrow> gerr" where
  "oidc_config_not_found name =
     CauseE 404 CauseOIDCConfigNotFound (Err [Str ''OIDCConfig '', Quo name, Str '' not found'']) None"

definition oidc_get_config :: "world \<Rightarrow> string \<Rightarrow> history \<Rightarrow> (gerr + oidc_config) \<times> history" where
  "oidc_get_config W name h =
     (if \<not> w_valid_segment W name then (Inl (oidc_config_not_found name), h)
      else (case oidc_config_get W name h of
        (Inl e, h) \<Rightarrow>
          (Inl (if is_not_found e then oidc_config_not_found name
                else if err_is e ErrIssuerConflict then failed CauseIssuerConflict e
                else if err_is e ErrDiscoveryFailed then failed CauseOIDCDiscoveryFailed e
                else if err_is e ErrEndpointsMissing then failed CauseOIDCConfigInvalid e
                else failed CauseOIDCConfigLookupFailed
                       (Wrap [Str ''unable to resolve OIDC configuration: ''] e [])), h)
      | (Inr cfg, h) \<Rightarrow>
          let res = \<lparr>od_step_up = resolve_step_up (oc_step_up cfg), od_allowed_groups = oc_allowed_groups cfg,
                     od_discovery_url = oc_discovery_url cfg, od_issuer = oc_issuer cfg,
                     od_authorize_url = oc_authorization_url cfg, od_token_url = oc_token_url cfg,
                     od_user_info_url = oc_user_info_url cfg, od_redirect_uri = oc_redirect_uri cfg,
                     od_client_id = oc_client_id cfg, od_client_secret = '''',
                     od_additional_scopes = oc_additional_scopes cfg,
                     od_rest_action_ref = oc_rest_action_ref cfg\<rparr>
          in (case oc_client_secret cfg of
                None \<Rightarrow> (Inr res, h)
              | Some ref \<Rightarrow>
                  (case secrets_get W ref h of
                     (Inl e, h) \<Rightarrow>
                       (Inl (failed CauseClientSecretLookupFailed
                          (Wrap [Str ''unable to read the client secret: ''] e [])), h)
                   | (Inr sec, h) \<Rightarrow>
                       (Inr (case sec_data sec (sel_key ref) of
                               None \<Rightarrow> res | Some v \<Rightarrow> res\<lparr>od_client_secret := v\<rparr>), h)))))"

section \<open>The login\<close>

record id_token = profile +
  it_acr :: string
  it_auth_time :: time
  it_bearer_token :: string

definition empty_id_token :: id_token where
  "empty_id_token = \<lparr>pf_name = '''', pf_email = '''', pf_preferred_username = '''', pf_groups = [],
     pf_avatar_url = '''', it_acr = '''', it_auth_time = zero_time, it_bearer_token = ''''\<rparr>"

text \<open>The table of profile claims with their destinations.\<close>

definition profile_keys :: "string list" where
  "profile_keys = [''preferred_username'', ''name'', ''picture'', ''email'']"

definition set_profile :: "string \<Rightarrow> string \<Rightarrow> id_token \<Rightarrow> id_token" where
  "set_profile key v t =
     (if key = ''preferred_username'' then t\<lparr>pf_preferred_username := v\<rparr>
      else if key = ''name'' then t\<lparr>pf_name := v\<rparr>
      else if key = ''picture'' then t\<lparr>pf_avatar_url := v\<rparr>
      else if key = ''email'' then t\<lparr>pf_email := v\<rparr> else t)"

text \<open>The first loop: read the claims, noting the missing ones; an ill-typed one ends it.\<close>

fun read_profile :: "go_map \<Rightarrow> string list \<Rightarrow> id_token \<Rightarrow> (string \<times> gerr) + (id_token \<times> string list)" where
  "read_profile claims [] t = Inr (t, [])"
| "read_profile claims (key # keys) t =
     (case string_claim claims key of
        Inl e \<Rightarrow> Inl (key, e)
      | Inr None \<Rightarrow> map_sum id (\<lambda>(t, missing). (t, key # missing)) (read_profile claims keys t)
      | Inr (Some v) \<Rightarrow> read_profile claims keys (set_profile key v t))"

text \<open>The second loop: the missing claims, from the UserInfo answer.\<close>

fun fill_profile :: "go_map \<Rightarrow> string list \<Rightarrow> id_token \<Rightarrow> gerr + id_token" where
  "fill_profile userInfo [] t = Inr t"
| "fill_profile userInfo (key # keys) t =
     (case string_claim userInfo key of
        Inl e \<Rightarrow> Inl (failed CauseUserInfoFailed (Wrap [Str ''userinfo field '', Str key, Str '' ''] e []))
      | Inr None \<Rightarrow> fill_profile userInfo keys t
      | Inr (Some v) \<Rightarrow> fill_profile userInfo keys (set_profile key v t))"

definition fetch_user_info :: "world \<Rightarrow> string \<Rightarrow> string \<Rightarrow> history \<Rightarrow> (gerr + go_map) \<times> history" where
  "fetch_user_info W url accessToken h =
     (case w_bad_url W url of
        Some e \<Rightarrow> (Inl (failed CauseUserInfoFailed
                      (Err (Str ''failed to create http request for userinfo endpoint: '' # err_text e))), h)
      | None \<Rightarrow>
     (case ask_http W ''GET'' url
             [(''Authorization'', ''Bearer '' @ accessToken), (''Accept'', ''application/json'')] '''' h of
        (Inl e, h) \<Rightarrow> (Inl (failed CauseUserInfoFailed
                         (Err (Str ''failed to send userinfo request: '' # err_text e))), h)
      | (Inr (code, body), h) \<Rightarrow>
          if code \<noteq> 200
          then (Inl (failed CauseUserInfoFailed (Err [Str ''userinfo endpoint answered '', Dec code])), h)
          else (case body of
             Inl e \<Rightarrow> (Inl (failed CauseUserInfoFailed
                          (Err (Str ''failed to read userinfo response: '' # err_text e))), h)
           | Inr text \<Rightarrow>
               (case unmarshal_map W text of
                  Inl e \<Rightarrow> (Inl (failed CauseUserInfoFailed
                               (Err (Str ''error parsing userinfo payload JSON: '' # err_text e))), h)
                | Inr m \<Rightarrow> (Inr m, h)))))"

record token_response =
  tk_access_token :: string
  tk_id_token :: string

definition token_response_of :: "world \<Rightarrow> string \<Rightarrow> gerr + token_response" where
  "token_response_of W body =
     (case w_json W body of
        Inl e \<Rightarrow> Inl e
      | Inr j \<Rightarrow>
     (case json_fields j of
        Inl e \<Rightarrow> Inl e
      | Inr kvs \<Rightarrow>
          if list_all (\<lambda>f. json_str_ok f kvs) [''access_token'', ''token_type'', ''scope'', ''id_token'']
             \<and> json_int_ok ''expires_in'' kvs
          then Inr \<lparr>tk_access_token = json_str_field ''access_token'' kvs '''',
                    tk_id_token = json_str_field ''id_token'' kvs ''''\<rparr>
          else Inl ErrJsonType))"

definition token_error_code :: "world \<Rightarrow> string \<Rightarrow> string" where
  "token_error_code W body =
     (case w_json W body of
        Inl _ \<Rightarrow> ''''
      | Inr j \<Rightarrow> (case json_fields j of Inl _ \<Rightarrow> '''' | Inr kvs \<Rightarrow> json_str_field ''error'' kvs ''''))"

definition token_form :: "oidc_config \<Rightarrow> string \<Rightarrow> string \<Rightarrow> url_values" where
  "token_form cfg code verifier =
     (let d = val_set [] ''client_id'' (od_client_id cfg);
          d = val_set d ''client_secret'' (od_client_secret cfg);
          d = val_set d ''code'' code;
          d = (if verifier \<noteq> '''' then val_set d ''code_verifier'' verifier else d);
          d = val_set d ''redirect_uri'' (od_redirect_uri cfg)
      in val_set d ''grant_type'' ''authorization_code'')"

text \<open>The exchange: from the code to the token response.\<close>

definition exchange_code ::
  "world \<Rightarrow> string \<Rightarrow> string \<Rightarrow> oidc_config \<Rightarrow> history \<Rightarrow> (gerr + token_response) \<times> history" where
  "exchange_code W code verifier cfg h =
     (case w_bad_url W (od_token_url cfg) of
        Some e \<Rightarrow> (Inl (exchange_failed (Err (Str ''failed to create request to token endpoint: '' # err_text e))), h)
      | None \<Rightarrow>
     (case ask_http W ''POST'' (od_token_url cfg)
             [(''Content-Type'', ''application/x-www-form-urlencoded''), (''Accept'', ''application/json'')]
             (val_encode (token_form cfg code verifier)) h of
        (Inl e, h) \<Rightarrow> (Inl (exchange_failed (Err (Str ''failed to send request to token endpoint: '' # err_text e))), h)
      | (Inr (status, body), h) \<Rightarrow>
     (case body of
        Inl e \<Rightarrow> (Inl (exchange_failed (Err (Str ''failed to read response body: '' # err_text e))), h)
      | Inr text \<Rightarrow>
          if status \<noteq> 200
          then (Inl (exchange_refusal status (token_error_code W text)
                  (Err [Str ''token endpoint answered '', Dec status, Str '': '', Str text])), h)
          else (case token_response_of W text of
                  Inl e \<Rightarrow> (Inl (exchange_failed (Err (Str ''failed to unmarshal token response: '' # err_text e))), h)
                | Inr t \<Rightarrow> (Inr t, h)))))"

definition invalid_claim :: "string \<Rightarrow> gerr \<Rightarrow> gerr" where
  "invalid_claim key e = refused CauseIDTokenInvalid (Wrap [Str ''ID token claim '', Str key, Str '' ''] e [])"

text \<open>
  What \<open>doLogin\<close> reads of validated claims: acr, auth_time, the profile claims with the missing
  ones, and the groups.
\<close>

definition auth_time_claim :: "world \<Rightarrow> go_map \<Rightarrow> gerr + time" where
  "auth_time_claim W claims =
     (case go_get claims ''auth_time'' of
        None \<Rightarrow> Inr zero_time
      | Some JNull \<Rightarrow> Inr zero_time
      | Some (JNum q) \<Rightarrow> Inr (time_unix (float_to_int64 W q))
      | Some _ \<Rightarrow> Inl errNotANumber)"

definition read_claims :: "world \<Rightarrow> go_map \<Rightarrow> string \<Rightarrow> gerr + (id_token \<times> string list)" where
  "read_claims W claims accessToken =
     (case string_claim claims ''acr'' of
        Inl e \<Rightarrow> Inl (invalid_claim ''acr'' e)
      | Inr acr \<Rightarrow>
     (case auth_time_claim W claims of
        Inl e \<Rightarrow> Inl (invalid_claim ''auth_time'' e)
      | Inr authTime \<Rightarrow>
     (case read_profile claims profile_keys
             (empty_id_token\<lparr>it_acr := (case acr of None \<Rightarrow> '''' | Some a \<Rightarrow> a), it_auth_time := authTime\<rparr>) of
        Inl (key, e) \<Rightarrow> Inl (invalid_claim key e)
      | Inr (t, missing) \<Rightarrow>
     (case string_list_claim claims ''groups'' of
        Inl e \<Rightarrow> Inl (invalid_claim ''groups'' e)
      | Inr gs \<Rightarrow>
          Inr (t\<lparr>it_bearer_token := accessToken,
                 pf_groups := (case gs of None \<Rightarrow> [] | Some x \<Rightarrow> x)\<rparr>, missing)))))"

definition oidc_do_login ::
  "world \<Rightarrow> string \<Rightarrow> string \<Rightarrow> oidc_config \<Rightarrow> history \<Rightarrow> (gerr + id_token) \<times> history" where
  "oidc_do_login W code verifier cfg h =
     (case exchange_code W code verifier cfg h of
        (Inl e, h) \<Rightarrow> (Inl e, h)
      | (Inr token, h) \<Rightarrow>
     (case decode_jwt W (tk_id_token token) of
        Inl e \<Rightarrow> (Inl (refused CauseIDTokenInvalid (Err (Str ''failed to decode JWT token: '' # err_text e))), h)
      | Inr claims \<Rightarrow>
     (case ask_now W h of (now, h) \<Rightarrow>
     (case validate_id_token W claims (od_issuer cfg) (od_client_id cfg) now of
        Some e \<Rightarrow> (Inl e, h)
      | None \<Rightarrow>
     (case read_claims W claims (tk_access_token token) of
        Inl e \<Rightarrow> (Inl e, h)
      | Inr (t, missing) \<Rightarrow>
          if length missing = 0 \<or> od_user_info_url cfg = '''' then (Inr t, h)
          else if tk_access_token token = ''''
          then (Inl (exchange_failed
                 (Err [Str ''the token response has no access_token, which the userinfo call needs''])), h)
          else (case fetch_user_info W (od_user_info_url cfg) (tk_access_token token) h of
                  (Inl e, h) \<Rightarrow> (Inl e, h)
                | (Inr m, h) \<Rightarrow> (fill_profile m missing t, h)))))))"

section \<open>Facts\<close>

lemma contains_string_iff: "contains_string xs w \<longleftrightarrow> w \<in> set xs"
  by (induction xs) auto

lemma exchange_code_quiet: "exchange_code W code v cfg h = (r, h') \<Longrightarrow> extends quiet h h'"
  unfolding exchange_code_def ask_http_def
  by (auto split: option.splits sum.splits prod.splits if_splits)

lemma fetch_user_info_quiet: "fetch_user_info W u t h = (r, h') \<Longrightarrow> extends quiet h h'"
  unfolding fetch_user_info_def ask_http_def
  by (auto split: option.splits sum.splits prod.splits if_splits)

lemma oidc_get_config_quiet: "oidc_get_config W name h = (r, h') \<Longrightarrow> extends quiet h h'"
  unfolding oidc_get_config_def Let_def
  by (auto split: if_splits sum.splits prod.splits option.splits
      dest!: oidc_config_get_quiet resolvers_quiet intro: extends_trans)

lemma oidc_do_login_quiet: "oidc_do_login W code v cfg h = (r, h') \<Longrightarrow> extends quiet h h'"
  unfolding oidc_do_login_def ask_now_def
  by (auto split: if_splits sum.splits prod.splits option.splits
      dest!: exchange_code_quiet fetch_user_info_quiet
      intro: extends_snoc elim: extends_through)

lemma set_profile_keeps [simp]:
  "it_acr (set_profile k v t) = it_acr t" "it_auth_time (set_profile k v t) = it_auth_time t"
  "pf_groups (set_profile k v t) = pf_groups t" "it_bearer_token (set_profile k v t) = it_bearer_token t"
  by (simp_all add: set_profile_def)

lemma read_profile_keeps:
  "read_profile claims keys t = Inr (t', missing) \<Longrightarrow>
   it_acr t' = it_acr t \<and> it_auth_time t' = it_auth_time t"
  by (induction claims keys t arbitrary: t' missing rule: read_profile.induct)
    (force split: sum.splits option.splits simp: map_sum_def)+

lemma fill_profile_keeps:
  "fill_profile m keys t = Inr t' \<Longrightarrow>
   it_acr t' = it_acr t \<and> it_auth_time t' = it_auth_time t \<and> pf_groups t' = pf_groups t"
  by (induction m keys t arbitrary: t' rule: fill_profile.induct)
    (auto split: sum.splits option.splits)

text \<open>What the ID token says, taken at its word.\<close>

definition proven :: "world \<Rightarrow> go_map \<Rightarrow> string \<Rightarrow> time \<Rightarrow> string list \<Rightarrow> bool" where
  "proven W claims acr authTime groups \<longleftrightarrow>
     (case string_claim claims ''acr'' of Inr a \<Rightarrow> acr = (case a of None \<Rightarrow> '''' | Some x \<Rightarrow> x) | Inl _ \<Rightarrow> False)
     \<and> auth_time_claim W claims = Inr authTime
     \<and> (case string_list_claim claims ''groups'' of Inr g \<Rightarrow> groups = (case g of None \<Rightarrow> [] | Some x \<Rightarrow> x)
        | Inl _ \<Rightarrow> False)"

lemma read_claims_proven:
  "read_claims W claims tok = Inr (t, missing) \<Longrightarrow> proven W claims (it_acr t) (it_auth_time t) (pf_groups t)"
  unfolding read_claims_def proven_def
  by (auto split: sum.splits option.splits dest!: read_profile_keeps)

lemma oidc_do_login_ok:
  assumes "oidc_do_login W code v cfg h = (Inr t, h')"
  shows "\<exists>token h1 claims. exchange_code W code v cfg h = (Inr token, h1)
     \<and> decode_jwt W (tk_id_token token) = Inr claims
     \<and> validate_id_token W claims (od_issuer cfg) (od_client_id cfg) (w_now W h1) = None
     \<and> proven W claims (it_acr t) (it_auth_time t) (pf_groups t)"
  using assms unfolding oidc_do_login_def ask_now_def
  by (force split: if_splits sum.splits prod.splits option.splits
      dest: read_claims_proven fill_profile_keeps)

section \<open>Properties\<close>

text \<open>
  C8. An ID token is accepted exactly when OpenID Connect Core says a client may: the expected
  issuer is known and is the token's, the client is among its audiences, a token for several
  audiences names the client as authorized party, and it expired at most a minute ago. Every
  other token is refused, and only an unknown issuer is authn's own failure.
\<close>

theorem id_token_accepted_exactly:
  "(validate_id_token W claims issuer client now = None) =
     (issuer \<noteq> '''' \<and> go_get claims ''iss'' = Some (JStr issuer)
      \<and> (\<exists>aud. audiences (go_get claims ''aud'') = Inr aud \<and> client \<in> set aud
           \<and> (length aud \<le> 1 \<or> claim_or_empty claims ''azp'' = client))
      \<and> (\<exists>q. go_get claims ''exp'' = Some (JNum q)
           \<and> now \<le> time_add (time_unix (float_to_int64 W q)) clockSkew))
   \<and> (case validate_id_token W claims issuer client now of None \<Rightarrow> True
      | Some e \<Rightarrow> st_code (from_error e) = (if issuer = '''' then 500 else 403))"
proof -
  have iss: "claim_or_empty claims ''iss'' = issuer \<longleftrightarrow> go_get claims ''iss'' = Some (JStr issuer)"
    if "issuer \<noteq> ''''" using that by (auto simp: claim_or_empty_def split: option.splits json.splits)
  show ?thesis
  proof (cases "issuer = '''' \<or> claim_or_empty claims ''iss'' \<noteq> issuer")
    case True
    then show ?thesis using iss by (auto simp: validate_id_token_def Let_def cause_simps)
  next
    case False
    then show ?thesis
      using iss by (cases "audiences (go_get claims ''aud'')")
        (auto simp: validate_id_token_def Let_def cause_simps contains_string_iff not_le not_less
          split: option.splits json.splits)
  qed
qed

text \<open>
  What a step-up will trust is what the ID token said: the acr, the authentication time and
  the groups of a login's identity are those claims of a validated token, and nothing read
  afterwards from the UserInfo endpoint can change them.
\<close>

lemma assurance_comes_from_the_validated_token:
  "case oidc_do_login W code v cfg h of
     (Inl _, _) \<Rightarrow> True
   | (Inr t, _) \<Rightarrow> \<exists>token h1 claims. exchange_code W code v cfg h = (Inr token, h1)
       \<and> decode_jwt W (tk_id_token token) = Inr claims
       \<and> validate_id_token W claims (od_issuer cfg) (od_client_id cfg) (w_now W h1) = None
       \<and> proven W claims (it_acr t) (it_auth_time t) (pf_groups t)"
  using oidc_do_login_ok [of W code v cfg h] by (auto split: prod.split sum.split)

end
