(* ===== verification/Oidc.thy ===== *)
theory Oidc
  imports OidcToken
begin

text \<open>
  \<open>internal/routes/auth/oidc\<close>, second part: \<open>authenticate\<close>, which \<open>GET /oidc/login\<close> and
  \<open>POST /oidc/stepup\<close> share, the allowed-groups check, the decision on a step-up and the two
  handlers.
\<close>

definition CauseGroupNotAllowed :: cause where "CauseGroupNotAllowed = ''GroupNotAllowed''"
definition CauseStepUpNotEnabled :: cause where "CauseStepUpNotEnabled = ''StepUpNotEnabled''"
definition CauseInsufficientAssurance :: cause where
  "CauseInsufficientAssurance = ''InsufficientAssurance''"
definition CauseStaleAuthentication :: cause where "CauseStaleAuthentication = ''StaleAuthentication''"
definition CauseStepUpMisconfigured :: cause where "CauseStepUpMisconfigured = ''StepUpMisconfigured''"

definition StepUpLevel :: int where "StepUpLevel = 2"
definition StepUpPath :: string where "StepUpPath = ''/oidc/stepup''"

section \<open>The identity\<close>

definition oidc_validate :: "world \<Rightarrow> id_token \<Rightarrow> history \<Rightarrow> user \<times> history" where
  "oidc_validate W t h =
     (let exts = ext_add Map.empty ''name'' (pf_name t);
          exts = ext_add exts ''avatarUrl'' (pf_avatar_url t);
          exts = ext_add exts ''email'' (pf_email t)
      in (case ask_new_id W h of (uid, h) \<Rightarrow>
           (new_default_user (w_dns1123 W (pf_preferred_username t)) uid (pf_groups t) exts, h)))"

fun some_allowed :: "string list \<Rightarrow> string list \<Rightarrow> bool" where
  "some_allowed allowed [] = False"
| "some_allowed allowed (g # gs) = (if contains_string allowed g then True else some_allowed allowed gs)"

definition check_allowed_groups :: "string list \<Rightarrow> user \<Rightarrow> gerr option" where
  "check_allowed_groups allowed nfo =
     (if length allowed = 0 then None
      else if some_allowed allowed (u_groups nfo) then None
      else Some (refused CauseGroupNotAllowed
             (Err [Str ''user '', Quo (u_name nfo), Str '' is in none of the groups this OIDCConfig admits''])))"

section \<open>Authentication\<close>

text \<open>The RESTAction block of \<open>authenticate\<close>.\<close>

definition oidc_complete ::
  "world \<Rightarrow> rest_ctx \<Rightarrow> obj_ref option \<Rightarrow> id_token \<Rightarrow> history \<Rightarrow> (gerr + id_token) \<times> history" where
  "oidc_complete W ctx restactionRef tok h =
     (case restactionRef of
        None \<Rightarrow> (Inr tok, h)
      | Some ref \<Rightarrow>
          let (r, h) = rest_resolve W ctx ref (it_bearer_token tok) h;
              ok = (case r of Inl _ \<Rightarrow> False | Inr m \<Rightarrow> check_keys m = None);
              (r, h) = (if ok then (r, h)
                        else legacy_resolve W ctx ref (pf_email tok) (it_bearer_token tok) h)
          in (case r of
                Inl e \<Rightarrow> (Inl (restaction_failed e), h)
              | Inr m \<Rightarrow>
                  (case update_config tok m of
                     Inl e \<Rightarrow> (Inl (failed CauseRESTActionFailed
                                (Wrap [Str ''the RESTAction's answer is unusable: ''] e [])), h)
                   | Inr t \<Rightarrow> (Inr t, h))))"

text \<open>
  \<open>authenticate\<close>: the failure to answer with, or the configuration, the ID token and the
  identity.
\<close>

definition authenticate ::
  "world \<Rightarrow> rest_ctx \<Rightarrow> rest_ctx \<Rightarrow> request \<Rightarrow> history
     \<Rightarrow> (status + (oidc_config \<times> id_token \<times> user)) \<times> history" where
  "authenticate W reqCtx base req h =
     (let name = query_get req ''name''; code = header_get (rq_header req) authCodeKey
      in if length name = 0
         then (Inl (from_error (bad_request CauseMissingConfigName
                 (Err [Str ''OIDCConfig 'name' must be specified'']))), h)
         else if length code = 0
         then (Inl (from_error (bad_request CauseMissingAuthorizationCode
                 (Err [Str ''the '', Str authCodeKey, Str '' header must carry the authorization code'']))), h)
         else
           let callCtx = merge_request_context reqCtx base
           in (case oidc_get_config W name h of
                 (Inl e, h) \<Rightarrow> (Inl (from_error e), h)
               | (Inr cfg, h) \<Rightarrow>
              (case oidc_do_login W code (header_get (rq_header req) codeVerifierKey) cfg h of
                 (Inl e, h) \<Rightarrow> (Inl (from_error e), h)
               | (Inr tok, h) \<Rightarrow>
              (case oidc_complete W callCtx (od_rest_action_ref cfg) tok h of
                 (Inl e, h) \<Rightarrow> (Inl (from_error e), h)
               | (Inr tok, h) \<Rightarrow>
              (case oidc_validate W tok h of (nfo, h) \<Rightarrow>
              (case check_allowed_groups (od_allowed_groups cfg) nfo of
                 Some e \<Rightarrow> (Inl (from_error e), h)
               | None \<Rightarrow> (Inr (cfg, tok, nfo), h)))))))"

definition oidc_login ::
  "world \<Rightarrow> rest_ctx \<Rightarrow> rest_ctx \<Rightarrow> login_opts \<Rightarrow> generator \<Rightarrow> request \<Rightarrow> response \<Rightarrow> history
     \<Rightarrow> response \<times> generator \<times> history" where
  "oidc_login W reqCtx base opts g req w h =
     (case authenticate W reqCtx base req h of
        (Inl st, h) \<Rightarrow> (failure w st, g, h)
      | (Inr (_, _, nfo), h) \<Rightarrow>
          session_answer (generate W) W opts StrategyOIDC (query_get req ''name'') g nfo w h)"

section \<open>Step-up\<close>

text \<open>The loop of \<open>validate\<close> over the configured acr values.\<close>

fun check_acr_values :: "string list \<Rightarrow> gerr option" where
  "check_acr_values [] = None"
| "check_acr_values (v # vs) =
     (if v = '''' \<or> contains_space v
      then Some (failed CauseStepUpMisconfigured
             (Err [Str ''spec.stepUp.acrValues has '', Quo v, Str '': an acr value must be non-empty and contain no whitespace'']))
      else check_acr_values vs)"

definition step_up_validate :: "step_up_config \<Rightarrow> gerr option" where
  "step_up_validate cfg =
     (if length (su_acr_values cfg) = 0 \<or> su_max_age cfg \<le> 0 \<or> su_ttl cfg < MinStepUpTTL
      then Some (failed CauseStepUpMisconfigured
             (Err [Str ''spec.stepUp needs acrValues, a positive maxAge and a ttl of at least '', Dec MinStepUpTTL,
                   Str '' (got '', Dec (int (length (su_acr_values cfg))), Str '' acrValues, maxAge '',
                   Dec (su_max_age cfg), Str '', ttl '', Dec (su_ttl cfg), Str '')'']))
      else check_acr_values (su_acr_values cfg))"

definition check_step_up :: "step_up_config option \<Rightarrow> id_token \<Rightarrow> time \<Rightarrow> gerr option" where
  "check_step_up cfg tok now =
     (case cfg of
        None \<Rightarrow> Some (refused CauseStepUpNotEnabled
                  (Err [Str ''step-up is not enabled for this OIDCConfig (spec.stepUp)'']))
      | Some cfg \<Rightarrow>
     (case step_up_validate cfg of
        Some e \<Rightarrow> Some e
      | None \<Rightarrow>
          if \<not> contains_string (su_acr_values cfg) (it_acr tok)
          then Some (refused CauseInsufficientAssurance
                 (Err [Str ''ID token acr '', Quo (it_acr tok), Str '' is not one of '', Quos (su_acr_values cfg)]))
          else if time_is_zero (it_auth_time tok)
          then Some (refused CauseStaleAuthentication
                 (Err [Str ''ID token has no auth_time, so the authentication's age is unknown'']))
          else let age = time_sub now (it_auth_time tok)
          in if su_max_age cfg < age
             then Some (refused CauseStaleAuthentication
                    (Err [Str ''authenticated '', Dec age, Str '' ago, more than the '', Dec (su_max_age cfg),
                          Str '' step-up allows'']))
             else None))"

text \<open>
  The \<open>/strategies\<close> extensions of a step-up: \<open>w_url_set\<close> parses the URL, sets the query values
  and renders it, or fails when it isn't an absolute URL.
\<close>

definition step_up_extensions ::
  "world \<Rightarrow> step_up_spec option \<Rightarrow> string \<Rightarrow> gerr + (string \<rightharpoonup> string)" where
  "step_up_extensions W spec authCodeURL =
     (case resolve_step_up spec of
        None \<Rightarrow> Inr Map.empty
      | Some cfg \<Rightarrow>
     (case step_up_validate cfg of
        Some e \<Rightarrow> Inl e
      | None \<Rightarrow>
          let acrValues = join '' '' (su_acr_values cfg);
              maxAge = itoa (su_max_age cfg div second)
          in (case w_url_set W authCodeURL [(''acr_values'', acrValues), (''max_age'', maxAge)] of
                Inl e \<Rightarrow> Inl (Err ([Str ''authCodeURL '', Quo authCodeURL, Str '' is not an absolute URL: ''] @ err_text e))
              | Inr u \<Rightarrow> Inr [''stepUpAuthCodeURL'' \<mapsto> u, ''stepUpPath'' \<mapsto> StepUpPath,
                             ''stepUpAcrValues'' \<mapsto> acrValues, ''stepUpMaxAge'' \<mapsto> maxAge])))"

definition oidc_step_up ::
  "world \<Rightarrow> rest_ctx \<Rightarrow> rest_ctx \<Rightarrow> login_opts \<Rightarrow> generator \<Rightarrow> request \<Rightarrow> response \<Rightarrow> history
     \<Rightarrow> response \<times> generator \<times> history" where
  "oidc_step_up W reqCtx base opts g req w h =
     (case authenticate W reqCtx base req h of
        (Inl st, h) \<Rightarrow> (failure w st, g, h)
      | (Inr (cfg, tok, nfo), h) \<Rightarrow>
     (case ask_now W h of (now, h) \<Rightarrow>
     (case check_step_up (od_step_up cfg) tok now of
        Some e \<Rightarrow> (failure w (from_error e), g, h)
      | None \<Rightarrow>
          let up = new_step_up_user nfo StepUpLevel;
              ttl = (case od_step_up cfg of None \<Rightarrow> 0 | Some c \<Rightarrow> su_ttl c)
          in (case generate_step_up W g StrategyOIDC up ttl h of
                (Inl e, g, h) \<Rightarrow>
                  (failure w (from_error (failed CauseIssuanceFailed
                     (Wrap [Str ''issuing step-up credential: ''] e []))), g, h)
              | (Inr notAfter, g, h) \<Rightarrow>
                  (case success W w None
                     (Some (extras_of (opts\<lparr>lo_jwt_duration := ttl\<rparr>) up None notAfter)) h of
                     (_, w, h) \<Rightarrow> (w, g, h))))))"

section \<open>Facts\<close>

lemma some_allowed_iff: "some_allowed allowed gs \<longleftrightarrow> (\<exists>g\<in>set gs. g \<in> set allowed)"
  by (induction gs) (auto simp: contains_string_iff)

lemma check_acr_values_iff:
  "check_acr_values vs = None \<longleftrightarrow> list_all (\<lambda>v. v \<noteq> '''' \<and> \<not> contains_space v) vs"
  by (induction vs) auto

lemma oidc_complete_calls:
  assumes "oidc_complete W ctx ref tok h = (r, h')"
  shows "extends reads_or_completes h h'"
proof (cases ref)
  case None
  with assms show ?thesis by (auto simp: oidc_complete_def)
next
  case (Some rf)
  obtain r1 h1 where r1: "rest_resolve W ctx rf (it_bearer_token tok) h = (r1, h1)" by force
  note q1 = completes_if_completion [OF rest_resolve_calls [OF r1]]
  obtain r2 h2 where r2: "legacy_resolve W ctx rf (pf_email tok) (it_bearer_token tok) h1 = (r2, h2)"
    by force
  note q2 = extends_trans [OF q1 completes_if_completion [OF legacy_resolve_calls [OF r2]]]
  have "h' = h1 \<or> h' = h2"
    using assms Some r1 r2 unfolding oidc_complete_def Let_def
    by (auto split: if_splits sum.splits prod.splits)
  with q1 q2 show ?thesis by blast
qed

lemma update_field_token:
  "update_field (t :: id_token) k v = Inr t' \<Longrightarrow> it_acr t' = it_acr t \<and> it_auth_time t' = it_auth_time t"
  unfolding update_field_def by (auto split: if_splits json.splits option.splits)

lemma update_config_token:
  "update_config (t :: id_token) m = Inr t' \<Longrightarrow> it_acr t' = it_acr t \<and> it_auth_time t' = it_auth_time t"
  by (induction t m rule: update_config.induct)
    (auto split: if_splits sum.splits dest!: update_field_token)

lemma oidc_complete_keeps:
  "oidc_complete W ctx ref t h = (Inr t', h') \<Longrightarrow> it_acr t' = it_acr t \<and> it_auth_time t' = it_auth_time t"
  unfolding oidc_complete_def Let_def
  by (auto split: option.splits prod.splits sum.splits if_splits dest!: update_config_token)

text \<open>
  What a login or step-up has established before anything is issued: the claims of a token
  response to the caller's code, validated against the configured issuer and client.
\<close>

definition authenticated ::
  "world \<Rightarrow> request \<Rightarrow> history \<Rightarrow> oidc_config \<Rightarrow> id_token \<Rightarrow> user \<Rightarrow> bool" where
  "authenticated W req h cfg tok nfo \<longleftrightarrow>
     (\<exists>h1 token h2 claims groups.
        header_get (rq_header req) authCodeKey \<noteq> ''''
        \<and> oidc_get_config W (query_get req ''name'') h = (Inr cfg, h1)
        \<and> exchange_code W (header_get (rq_header req) authCodeKey)
            (header_get (rq_header req) codeVerifierKey) cfg h1 = (Inr token, h2)
        \<and> decode_jwt W (tk_id_token token) = Inr claims
        \<and> validate_id_token W claims (od_issuer cfg) (od_client_id cfg) (w_now W h2) = None
        \<and> proven W claims (it_acr tok) (it_auth_time tok) groups)
     \<and> unprivileged nfo \<and> u_name nfo = w_dns1123 W (pf_preferred_username tok)
     \<and> u_groups nfo = filter (\<lambda>g. \<not> is_reserved g) (pf_groups tok)
     \<and> (od_allowed_groups cfg = [] \<or> (\<exists>g\<in>set (u_groups nfo). g \<in> set (od_allowed_groups cfg)))"

lemma authenticate_calls:
  assumes "authenticate W reqCtx base req h = (r, h')"
  shows "extends reads_or_completes h h'"
proof -
  have v: "oidc_validate W t h1 = (u, h2) \<Longrightarrow> extends reads_or_completes h1 h2" for t h1 u h2
    by (auto simp: oidc_validate_def ask_new_id_def Let_def reads_or_completes_def)
  from assms show ?thesis
    unfolding authenticate_def Let_def
    by (auto split: if_splits prod.splits sum.splits option.splits
        dest!: v oidc_complete_calls completes_if_quiet [OF oidc_get_config_quiet]
          completes_if_quiet [OF oidc_do_login_quiet] intro: extends_trans)
qed

lemma authenticate_ok:
  assumes "authenticate W reqCtx base req h = (Inr (cfg, tok, nfo), h')"
  shows "authenticated W req h cfg tok nfo"
proof -
  from assms obtain h1 tok0 h2 h3 where
    code: "header_get (rq_header req) authCodeKey \<noteq> ''''"
    and c: "oidc_get_config W (query_get req ''name'') h = (Inr cfg, h1)"
    and l: "oidc_do_login W (header_get (rq_header req) authCodeKey)
        (header_get (rq_header req) codeVerifierKey) cfg h1 = (Inr tok0, h2)"
    and k: "oidc_complete W (merge_request_context reqCtx base) (od_rest_action_ref cfg) tok0 h2 = (Inr tok, h3)"
    and v: "oidc_validate W tok h3 = (nfo, h')"
    and g: "check_allowed_groups (od_allowed_groups cfg) nfo = None"
    unfolding authenticate_def Let_def
    by (auto split: if_splits prod.splits sum.splits option.splits)
  have "unprivileged nfo \<and> u_name nfo = w_dns1123 W (pf_preferred_username tok)
      \<and> u_groups nfo = filter (\<lambda>g. \<not> is_reserved g) (pf_groups tok)"
    using v by (auto simp: oidc_validate_def ask_new_id_def Let_def)
  moreover have "od_allowed_groups cfg = [] \<or> (\<exists>g\<in>set (u_groups nfo). g \<in> set (od_allowed_groups cfg))"
    using g by (auto simp: check_allowed_groups_def some_allowed_iff split: if_splits)
  ultimately show ?thesis
    using code c oidc_do_login_ok [OF l] oidc_complete_keeps [OF k]
    unfolding authenticated_def by fastforce
qed

lemma oidc_step_up_cases:
  assumes "oidc_step_up W reqCtx base opts g req w h = (w', g', h')"
  obtains (refused) "extends reads_or_completes h h'" "only_failures w' = only_failures w"
  | (granted) cfg tok nfo h1 c where
      "authenticate W reqCtx base req h = (Inr (cfg, tok, nfo), h1)" "od_step_up cfg = Some c"
      "check_step_up (Some c) tok (w_now W h1) = None"
      "extends reads_or_completes h (h1 @ [CNow])"
      "extends (login_call (\<lambda>x. x = step_up_secret_name W (u_name nfo)) StrategyOIDC
         (new_step_up_user nfo StepUpLevel)) (h1 @ [CNow]) h'"
proof -
  obtain r h1 where a: "authenticate W reqCtx base req h = (r, h1)" by force
  note q1 = authenticate_calls [OF a]
  show ?thesis
  proof (cases r)
    case (Inl st)
    with assms a q1 show ?thesis by (intro refused) (auto simp: oidc_step_up_def)
  next
    case (Inr t)
    then obtain cfg tok nfo where t: "r = Inr (cfg, tok, nfo)" by (cases t) auto
    have q2: "extends reads_or_completes h (h1 @ [CNow])"
      using q1 by (rule extends_snoc) (simp add: reads_or_completes_def)
    show ?thesis
    proof (cases "check_step_up (od_step_up cfg) tok (w_now W h1)")
      case (Some e)
      with assms a t q2 show ?thesis
        by (intro refused) (auto simp: oidc_step_up_def ask_now_def)
    next
      case None
      then obtain c where c: "od_step_up cfg = Some c"
        by (cases "od_step_up cfg") (auto simp: check_step_up_def)
      let ?up = "new_step_up_user nfo StepUpLevel"
      have "extends (login_call (\<lambda>x. x = step_up_secret_name W (u_name ?up)) StrategyOIDC ?up) (h1 @ [CNow]) h'"
        using assms a t None c
        by (auto simp: oidc_step_up_def ask_now_def Let_def credential_name_def
            split: sum.splits prod.splits dest!: step_up_issuer.gen_login_calls
              success_login_calls [where s = StrategyOIDC and ok = "\<lambda>x. x = step_up_secret_name W (u_name nfo)"]
            intro: extends_trans)
      with None c a t q2 show ?thesis by (intro granted) auto
    qed
  qed
qed

lemma oidc_login_cases:
  assumes b: "oidc_login W reqCtx base opts g req w h = (w', g', h')"
  obtains (refused) "extends reads_or_completes h h'" "only_failures w' = only_failures w"
  | (admitted) cfg tok u where "authenticated W req h cfg tok u"
      "extends (\<lambda>c. reads_or_completes c
        \<or> login_call (\<lambda>x. x = client_config_secret_name W (u_name u)) StrategyOIDC u c) h h'"
proof -
  obtain r h1 where a: "authenticate W reqCtx base req h = (r, h1)" by force
  note q1 = authenticate_calls [OF a]
  show ?thesis
  proof (cases r)
    case (Inl st)
    with b a have "w' = failure w st" "h' = h1" by (simp_all add: oidc_login_def)
    with q1 show ?thesis by (intro refused) simp_all
  next
    case (Inr t)
    then obtain cfg tok u where t: "r = Inr (cfg, tok, u)" by (cases t) auto
    let ?P = "\<lambda>c. reads_or_completes c
        \<or> login_call (\<lambda>x. x = client_config_secret_name W (u_name u)) StrategyOIDC u c"
    have "session_answer (generate W) W opts StrategyOIDC (query_get req ''name'') g u w h1 = (w', g', h')"
      using b a t by (simp add: oidc_login_def)
    from session_tail_calls [OF this] have "extends ?P h1 h'"
      by (rule extends_mono) (auto simp: reads_or_completes_def)
    moreover have "extends ?P h h1" using q1 by (rule extends_mono) simp
    ultimately have "extends ?P h h'" by (rule extends_trans [rotated])
    with authenticate_ok [OF a [unfolded t]] show ?thesis by (rule admitted)
  qed
qed

section \<open>Properties\<close>

text \<open>
  C7. A step-up is granted exactly when it is enabled and soundly configured, the token's acr is
  one of the configured values, and the user authenticated at a known time no longer ago
  than the configured age; a configured acr value is never empty, so a token without an acr
  proves nothing.
\<close>

theorem step_up_granted_exactly:
  "(check_step_up cfg tok now = None) =
     (case cfg of
        None \<Rightarrow> False
      | Some c \<Rightarrow> su_acr_values c \<noteq> [] \<and> 0 < su_max_age c \<and> MinStepUpTTL \<le> su_ttl c
          \<and> list_all (\<lambda>v. v \<noteq> '''' \<and> \<not> contains_space v) (su_acr_values c)
          \<and> it_acr tok \<in> set (su_acr_values c) \<and> it_acr tok \<noteq> ''''
          \<and> \<not> time_is_zero (it_auth_time tok)
          \<and> time_sub now (it_auth_time tok) \<le> su_max_age c)"
proof (cases cfg)
  case (Some c)
  show ?thesis
    using check_acr_values_iff [of "su_acr_values c"]
    by (cases "check_acr_values (su_acr_values c)")
      (auto simp: Some check_step_up_def step_up_validate_def contains_string_iff Let_def list_all_iff not_less)
qed (simp add: check_step_up_def)



lemma oidc_step_up_bodies:
  "oidc_step_up W reqCtx base opts g req w h = (w', g', h') \<Longrightarrow> rw_body w = [] \<Longrightarrow>
   list_all (\<lambda>b. \<not> carries_key b) (rw_body w')"
  unfolding oidc_step_up_def Let_def
  by (auto split: option.splits prod.splits sum.splits
      simp: body_simps success_def dest!: success_body_data)

lemma oidc_step_up_once:
  "oidc_step_up W reqCtx base opts g req fresh_writer h = (w', g', h') \<Longrightarrow> answered_once w'"
  unfolding oidc_step_up_def Let_def
  by (auto split: option.splits prod.splits sum.splits
      intro: failure_once success_once [OF unanswered_fresh])

text \<open>
  The step-up key never leaves the cluster: no body a step-up writes holds a kubeconfig, and
  it answers exactly once.
\<close>

lemma step_up_never_answers_a_key:
  "case oidc_step_up W reqCtx base opts g req fresh_writer h of (w', _, _) \<Rightarrow>
     list_all (\<lambda>b. \<not> carries_key b) (rw_body w') \<and> answered_once w'"
  using oidc_step_up_bodies [of W reqCtx base opts g req fresh_writer h]
    oidc_step_up_once [of W reqCtx base opts g req h]
  by (auto simp: fresh_writer_def split: prod.split)

end
