(* ===== verification/Decode.thy ===== *)
theory Decode
  imports GoHttp
begin

text \<open>
  \<open>internal/helpers/decode\<close>: reading one JSON document out of a request body, with every way
  the decoder fails mapped to the status the caller is blamed with.
\<close>

text \<open>
  What \<open>json.Decoder.Decode\<close>, with unknown fields disallowed and the body capped, answers for
  the first document; the decoder itself is a parameter, as is whether the input ends after it.
\<close>

datatype 'a decoded =
    DecOk 'a
  | DecSyntax int
  | DecUnexpectedEOF
  | DecType string int
  | DecUnknownField string
  | DecEOF
  | DecTooLarge
  | DecOther gerr

definition malformed :: "int \<Rightarrow> msg \<Rightarrow> gerr" where
  "malformed code m = Malformed code m"

text \<open>
  \<open>JSONBody\<close>: the error if any, and the destination, which keeps its zero value \<open>z\<close> unless the
  first document decoded. \<open>media\<close> is the media type of the Content-Type header, \<open>dec\<close> the
  decoder's answer for a body and whether nothing follows the first document.
\<close>

definition json_body ::
  "(headers \<Rightarrow> string) \<Rightarrow> (string \<Rightarrow> 'a decoded \<times> bool) \<Rightarrow> 'a \<Rightarrow> request \<Rightarrow> gerr option \<times> 'a" where
  "json_body media dec z r =
     (if header_get (rq_header r) ''Content-Type'' \<noteq> '''' \<and> media (rq_header r) \<noteq> ''application/json''
      then (Some (malformed 415 [Str ''Content-Type header is not application/json'']), z)
      else case dec (rq_body r) of
        (DecSyntax off, _) \<Rightarrow>
          (Some (malformed 400 [Str ''Request body contains badly-formed JSON (at position '', Dec off, Str '')'']), z)
      | (DecUnexpectedEOF, _) \<Rightarrow> (Some (malformed 400 [Str ''Request body contains badly-formed JSON'']), z)
      | (DecType f off, _) \<Rightarrow>
          (Some (malformed 400 [Str ''Request body contains an invalid value for the '', Quo f,
                   Str '' field (at position '', Dec off, Str '')'']), z)
      | (DecUnknownField f, _) \<Rightarrow> (Some (malformed 400 [Str ''Request body contains unknown field '', Str f]), z)
      | (DecEOF, _) \<Rightarrow> (Some (malformed 204 [Str ''Request body is empty'']), z)
      | (DecTooLarge, _) \<Rightarrow> (Some (malformed 413 [Str ''Request body must not be larger than 1MB'']), z)
      | (DecOther e, _) \<Rightarrow> (Some e, z)
      | (DecOk v, False) \<Rightarrow>
          (Some (malformed 400 [Str ''Request body must only contain a single JSON object'']), v)
      | (DecOk v, True) \<Rightarrow> (None, v))"

fun the_malformed :: "gerr \<Rightarrow> int option" where
  "the_malformed (Malformed c _) = Some c"
| "the_malformed _ = None"

definition is_empty_body_error :: "gerr \<Rightarrow> bool" where
  "is_empty_body_error e \<longleftrightarrow> first_some (map the_malformed (err_chain e)) = Some 204"

lemma json_body_accepts:
  "json_body media dec z r = (None, v) \<longleftrightarrow>
     (header_get (rq_header r) ''Content-Type'' = '''' \<or> media (rq_header r) = ''application/json'')
     \<and> dec (rq_body r) = (DecOk v, True)"
  by (auto simp: json_body_def malformed_def split: decoded.splits prod.splits bool.splits if_splits)

end
