(* ===== verification/Ldap.thy ===== *)
theory Ldap
  imports Login Decode
begin

text \<open>
  \<open>internal/routes/auth/ldap\<close>: \<open>POST /ldap/login\<close>. The service's own bind, the search for the
  user, the bind as the user that checks the password, and the search for the user's groups.
  The LDAP client and the template engine are the world's.
\<close>

definition CauseLDAPConfigNotFound :: cause where "CauseLDAPConfigNotFound = ''LDAPConfigNotFound''"
definition CauseAmbiguousUser :: cause where "CauseAmbiguousUser = ''AmbiguousUser''"
definition CauseLDAPInvalidCredentials :: cause where
  "CauseLDAPInvalidCredentials = ''InvalidCredentials''"
definition CauseLDAPConfigLookupFailed :: cause where
  "CauseLDAPConfigLookupFailed = ''LDAPConfigLookupFailed''"
definition CauseLDAPConfigInvalid :: cause where "CauseLDAPConfigInvalid = ''LDAPConfigInvalid''"
definition CauseLDAPUnavailable :: cause where "CauseLDAPUnavailable = ''LDAPUnavailable''"
definition CauseLDAPBindFailed :: cause where "CauseLDAPBindFailed = ''LDAPBindFailed''"
definition CauseLDAPSearchFailed :: cause where "CauseLDAPSearchFailed = ''LDAPSearchFailed''"

definition errNotFound :: gerr where "errNotFound = Err [Str ''no users found'']"
definition errTooManyEntries :: gerr where "errTooManyEntries = Err [Str ''too many entries found'']"
definition errLDAPInvalidCredentials :: gerr where
  "errLDAPInvalidCredentials = Err [Str ''invalid credentials'']"

section \<open>Configuration\<close>

record ldap_config =
  ld_dial_url :: string
  ld_bind_dn :: string
  ld_bind_secret :: string
  ld_base_dn :: string
  ld_tls :: bool
  ld_group_base_dn :: string
  ld_group_filter :: string
  ld_group_name_attr :: string

definition defaultGroupFilter :: string where
  "defaultGroupFilter = ''(|(member={{.DN}})(uniqueMember={{.DN}}))''"
definition defaultGroupNameAttribute :: string where "defaultGroupNameAttribute = ''cn''"

text \<open>A template is named by its text; \<open>renderGroupFilter\<close> escapes both values before it runs it.\<close>

definition render_group_filter :: "world \<Rightarrow> string \<Rightarrow> string \<Rightarrow> string \<Rightarrow> gerr + string" where
  "render_group_filter W tmpl dn username =
     w_template_exec W tmpl (w_ldap_escape W dn) (w_ldap_escape W username)"

definition parse_group_filter :: "world \<Rightarrow> string \<Rightarrow> gerr + string" where
  "parse_group_filter W text =
     (case w_template_parse W text of
        Some e \<Rightarrow> Inl e
      | None \<Rightarrow>
     (case render_group_filter W text ''uid=sample,dc=example'' ''sample'' of
        Inl e \<Rightarrow> Inl e
      | Inr sample \<Rightarrow>
     (case w_ldap_filter W sample of
        Some e \<Rightarrow> Inl (Wrap [Str ''it renders '', Quo sample, Str '', not an LDAP filter: ''] e [])
      | None \<Rightarrow> Inr text)))"

definition ldap_config_not_found :: "string \<Rightarrow> gerr" where
  "ldap_config_not_found name =
     CauseE 404 CauseLDAPConfigNotFound (Err [Str ''LDAPConfig '', Quo name, Str '' not found'']) None"

definition ldap_get_config :: "world \<Rightarrow> string \<Rightarrow> history \<Rightarrow> (gerr + ldap_config) \<times> history" where
  "ldap_get_config W name h =
     (if \<not> w_valid_segment W name then (Inl (ldap_config_not_found name), h)
      else (case ldap_config_get W name h of
        (Inl e, h) \<Rightarrow>
          (Inl (if is_not_found e then ldap_config_not_found name
                else failed CauseLDAPConfigLookupFailed
                       (Wrap [Str ''unable to resolve LDAP configuration: ''] e [])), h)
      | (Inr cfg, h) \<Rightarrow>
          let gs = lc_group_search cfg;
              pick = (\<lambda>f d. case gs of None \<Rightarrow> d | Some g \<Rightarrow> if f g \<noteq> '''' then f g else d);
              res = \<lparr>ld_dial_url = lc_dial_url cfg,
                     ld_bind_dn = (case lc_bind_dn cfg of None \<Rightarrow> '''' | Some d \<Rightarrow> d),
                     ld_bind_secret = '''', ld_base_dn = lc_base_dn cfg,
                     ld_tls = (case lc_tls cfg of None \<Rightarrow> False | Some b \<Rightarrow> b),
                     ld_group_base_dn = pick gs_base_dn (lc_base_dn cfg),
                     ld_group_filter = '''',
                     ld_group_name_attr = pick gs_name_attribute defaultGroupNameAttribute\<rparr>
          in (case parse_group_filter W (pick gs_filter defaultGroupFilter) of
                Inl e \<Rightarrow>
                  (Inl (failed CauseLDAPConfigInvalid
                     (Wrap [Str ''LDAPConfig '', Quo name, Str '': invalid spec.groupSearch.filter: ''] e [])), h)
              | Inr tmpl \<Rightarrow>
                  let res = res\<lparr>ld_group_filter := tmpl\<rparr>
                  in (case lc_bind_secret cfg of
                        None \<Rightarrow> (Inr res, h)
                      | Some ref \<Rightarrow>
                          (case secrets_get W ref h of
                             (Inl e, h) \<Rightarrow>
                               (Inl (failed CauseLDAPConfigLookupFailed
                                  (Wrap [Str ''reading the bind secret: ''] e [])), h)
                           | (Inr sec, h) \<Rightarrow>
                               (Inr (case sec_data sec (sel_key ref) of
                                       None \<Rightarrow> res | Some v \<Rightarrow> res\<lparr>ld_bind_secret := v\<rparr>), h))))))"

section \<open>Classifying the server's answers\<close>

text \<open>\<open>ldap.IsErrorWithCode\<close>: the error is an \<open>*ldap.Error\<close> of that code.\<close>

fun is_error_with_code :: "gerr \<Rightarrow> ldap_code \<Rightarrow> bool" where
  "is_error_with_code (LdapE c _) d \<longleftrightarrow> c = d"
| "is_error_with_code _ _ \<longleftrightarrow> False"

definition refuses_user :: "gerr \<Rightarrow> bool" where
  "refuses_user e \<longleftrightarrow> list_ex (is_error_with_code e)
     [LDAPResultInvalidCredentials, LDAPResultInappropriateAuthentication,
      LDAPResultUnwillingToPerform, ErrorEmptyPassword]"

definition server_failure :: "cause \<Rightarrow> gerr \<Rightarrow> gerr" where
  "server_failure c e =
     (if is_error_with_code e ErrorNetwork then failed CauseLDAPUnavailable e else failed c e)"

definition ldap_invalid_credentials :: "gerr \<Rightarrow> gerr" where
  "ldap_invalid_credentials reason =
     refused_privately CauseLDAPInvalidCredentials errLDAPInvalidCredentials reason"

section \<open>The identity\<close>

text \<open>The loop of \<open>groupNames\<close>; \<open>seen\<close> holds the names already listed.\<close>

fun group_names_loop :: "string set \<Rightarrow> ldap_entry list \<Rightarrow> string \<Rightarrow> string list" where
  "group_names_loop seen [] attr = []"
| "group_names_loop seen (e # es) attr =
     (let name = le_attr_fold e attr
      in if name = '''' \<or> name \<in> seen then group_names_loop seen es attr
         else name # group_names_loop (insert name seen) es attr)"

definition group_names :: "ldap_entry list \<Rightarrow> string \<Rightarrow> string list" where
  "group_names = group_names_loop {}"

definition ldap_entry_to_user_info :: "world \<Rightarrow> ldap_entry \<Rightarrow> string list \<Rightarrow> history \<Rightarrow> user \<times> history" where
  "ldap_entry_to_user_info W entry groups h =
     (let exts = ext_add Map.empty ''name'' (le_attr entry ''cn'');
          exts = ext_add exts ''email'' (le_attr entry ''mail'');
          exts = ext_add exts ''avatarUrl''
            (''https://ui-avatars.com/api/?name='' @ le_attr entry ''cn''
             @ ''&size=128&bold=true&background=random&rounded=true'')
      in (case ask_new_id W h of (uid, h) \<Rightarrow>
           (new_default_user (le_attr entry ''uid'') uid groups exts, h)))"

text \<open>The filter template with every \<open>$USERNAME\<close> replaced.\<close>

definition user_filter :: "string \<Rightarrow> string" where
  "user_filter u = ''(|(cn='' @ u @ '')(uid='' @ u @ '')(userPrincipalName='' @ u @ '')(mail='' @ u @ ''))''"

text \<open>What \<open>doLogin\<close> does between the dial and the deferred close.\<close>

definition ldap_session :: "world \<Rightarrow> string \<Rightarrow> string \<Rightarrow> ldap_config \<Rightarrow> history \<Rightarrow> (gerr + user) \<times> history" where
  "ldap_session W username password cfg h =
     (case (if ld_tls cfg then ask_ldap_start_tls W h else (None, h)) of
        (Some e, h) \<Rightarrow> (Inl (failed CauseLDAPUnavailable e), h)
      | (None, h) \<Rightarrow>
     (case ask_ldap_bind W (ld_bind_dn cfg) (ld_bind_secret cfg) h of
        (Some e, h) \<Rightarrow> (Inl (server_failure CauseLDAPBindFailed e), h)
      | (None, h) \<Rightarrow>
     (case ask_ldap_search W \<lparr>ls_base = ld_base_dn cfg, ls_filter = user_filter (w_ldap_escape W username),
              ls_attributes = [''uid'', ''cn'', ''mail'']\<rparr> h of
        (Inl e, h) \<Rightarrow> (Inl (server_failure CauseLDAPSearchFailed e), h)
      | (Inr [], h) \<Rightarrow> (Inl (ldap_invalid_credentials errNotFound), h)
      | (Inr (_ # _ # _), h) \<Rightarrow> (Inl (CauseE 300 CauseAmbiguousUser errTooManyEntries None), h)
      | (Inr [entry], h) \<Rightarrow>
     (case ask_ldap_bind W (le_dn entry) password h of
        (Some e, h) \<Rightarrow>
          (Inl (if refuses_user e then ldap_invalid_credentials e
                else server_failure CauseLDAPBindFailed e), h)
      | (None, h) \<Rightarrow>
     (case render_group_filter W (ld_group_filter cfg) (le_dn entry) username of
        Inl e \<Rightarrow> (Inl (failed CauseLDAPConfigInvalid
                   (Wrap [Str ''rendering spec.groupSearch.filter: ''] e [])), h)
      | Inr flt \<Rightarrow>
     (case ask_ldap_search W \<lparr>ls_base = ld_group_base_dn cfg, ls_filter = flt,
              ls_attributes = [ld_group_name_attr cfg]\<rparr> h of
        (Inl e, h) \<Rightarrow> (Inl (server_failure CauseLDAPSearchFailed e), h)
      | (Inr groups, h) \<Rightarrow>
          (case ldap_entry_to_user_info W entry (group_names groups (ld_group_name_attr cfg)) h of
             (u, h) \<Rightarrow> (Inr u, h))))))))"

definition ldap_do_login :: "world \<Rightarrow> string \<Rightarrow> string \<Rightarrow> ldap_config \<Rightarrow> history \<Rightarrow> (gerr + user) \<times> history" where
  "ldap_do_login W username password cfg h =
     (case ask_ldap_dial W (ld_dial_url cfg) h of
        (Some e, h) \<Rightarrow> (Inl (failed CauseLDAPUnavailable e), h)
      | (None, h) \<Rightarrow>
          (case ldap_session W username password cfg h of (r, h) \<Rightarrow> (r, h @ [CLdapClose])))"

section \<open>The handler\<close>

text \<open>What follows the request's checks: the configuration, the login, the issuance.\<close>

definition ldap_login_with ::
  "world \<Rightarrow> login_opts \<Rightarrow> generator \<Rightarrow> string \<Rightarrow> string \<Rightarrow> string \<Rightarrow> response \<Rightarrow> history
     \<Rightarrow> response \<times> generator \<times> history" where
  "ldap_login_with W opts g name username password w h =
     (case ldap_get_config W name h of
        (Inl e, h) \<Rightarrow> (failure w (from_error e), g, h)
      | (Inr cfg, h) \<Rightarrow>
     (case ldap_do_login W username password cfg h of
        (Inl e, h) \<Rightarrow> (failure w (from_error e), g, h)
      | (Inr u, h) \<Rightarrow> session_answer (generate W) W opts StrategyLDAP name g u w h))"

definition ldap_login ::
  "world \<Rightarrow> (headers \<Rightarrow> string) \<Rightarrow> (string \<Rightarrow> (string \<times> string) decoded \<times> bool) \<Rightarrow> login_opts
     \<Rightarrow> generator \<Rightarrow> request \<Rightarrow> response \<Rightarrow> history \<Rightarrow> response \<times> generator \<times> history" where
  "ldap_login W media dec opts g req w h =
     (let name = query_get req ''name''
      in if length name = 0
         then (failure w (from_error (bad_request CauseMissingConfigName
                 (Err [Str ''LDAPConfig 'name' must be specified'']))), g, h)
         else case json_body media dec ('''', '''') req of (err, username, password) \<Rightarrow>
           (case err of
              Some e \<Rightarrow>
                if \<not> is_empty_body_error e
                then (failure w (from_error (bad_request CauseInvalidRequestBody e)), g, h)
                else ldap_login_with W opts g name username password w h
            | None \<Rightarrow> ldap_login_with W opts g name username password w h))"

section \<open>Facts\<close>

text \<open>The calls of an LDAP conversation.\<close>

fun ldap_call :: "call \<Rightarrow> bool" where
  "ldap_call CLdapStartTLS = True"
| "ldap_call (CLdapBind _ _) = True"
| "ldap_call (CLdapSearch _) = True"
| "ldap_call CNewId = True"
| "ldap_call _ = False"

lemma ldap_call_quiet: "ldap_call c \<Longrightarrow> quiet c"
  by (cases c) auto

lemma ldap_session_calls: "ldap_session W n p cfg h = (r, h') \<Longrightarrow> extends ldap_call h h'"
  unfolding ldap_session_def ldap_entry_to_user_info_def Let_def ask_defs
  by (auto simp: extends_def split: prod.splits option.splits sum.splits list.splits if_splits)

lemma ldap_do_login_quiet:
  assumes "ldap_do_login W n p cfg h = (r, h')"
  shows "extends quiet h h'"
proof -
  have "extends quiet (h @ [CLdapDial u]) h1 \<Longrightarrow> extends quiet h (h1 @ [CLdapClose])" for u h1
    by (auto intro!: extends_snoc elim: extends_first)
  moreover have "ldap_session W n p cfg hx = (r, h1) \<Longrightarrow> extends quiet hx h1" for hx r h1
    by (drule ldap_session_calls) (auto intro: extends_mono ldap_call_quiet)
  ultimately have "ldap_session W n p cfg (h @ [CLdapDial u]) = (r, h1) \<Longrightarrow> extends quiet h (h1 @ [CLdapClose])"
    for u r h1 by blast
  then show ?thesis
    using assms unfolding ldap_do_login_def ask_ldap_dial_def
    by (auto split: option.splits prod.splits)
qed

lemma ldap_get_config_quiet: "ldap_get_config W name h = (r, h') \<Longrightarrow> extends quiet h h'"
  unfolding ldap_get_config_def Let_def
  by (auto split: if_splits sum.splits prod.splits option.splits dest!: resolvers_quiet intro: extends_trans)

text \<open>
  The conversation that proves an identity: the service bind, a search for the escaped name
  with exactly one entry, a bind as that entry with the presented password, and the group
  search, each answered well, in this order.
\<close>

definition ldap_proves ::
  "world \<Rightarrow> string \<Rightarrow> string \<Rightarrow> ldap_config \<Rightarrow> history \<Rightarrow> history \<Rightarrow> string \<Rightarrow> string list \<Rightarrow> bool" where
  "ldap_proves W username password cfg h h' name groups \<longleftrightarrow>
     (\<exists>entry found flt.
        let h1 = h @ (if ld_tls cfg then [CLdapStartTLS] else [])
                   @ [CLdapBind (ld_bind_dn cfg) (ld_bind_secret cfg)];
            h2 = h1 @ [CLdapSearch \<lparr>ls_base = ld_base_dn cfg,
                         ls_filter = user_filter (w_ldap_escape W username),
                         ls_attributes = [''uid'', ''cn'', ''mail'']\<rparr>];
            h3 = h2 @ [CLdapBind (le_dn entry) password];
            h4 = h3 @ [CLdapSearch \<lparr>ls_base = ld_group_base_dn cfg, ls_filter = flt,
                         ls_attributes = [ld_group_name_attr cfg]\<rparr>]
        in w_ldap_do W h1 = None \<and> w_ldap_search W h2 = Inr [entry] \<and> w_ldap_do W h3 = None
           \<and> render_group_filter W (ld_group_filter cfg) (le_dn entry) username = Inr flt
           \<and> w_ldap_search W h4 = Inr found \<and> h' = h4 @ [CNewId]
           \<and> name = le_attr entry ''uid''
           \<and> groups = filter (\<lambda>g. \<not> is_reserved g) (group_names found (ld_group_name_attr cfg)))"

lemma ldap_session_ok:
  assumes "ldap_session W n p cfg h = (Inr u, h')"
  shows "ldap_proves W n p cfg h h' (u_name u) (u_groups u) \<and> unprivileged u"
  using assms unfolding ldap_session_def ldap_entry_to_user_info_def ldap_proves_def Let_def
    ask_ldap_start_tls_def ask_ldap_bind_def ask_ldap_search_def ask_new_id_def
  by (cases "ld_tls cfg") (auto split: option.splits sum.splits list.splits)

lemma group_names_loop_set:
  "set (group_names_loop seen es attr) = {le_attr_fold e attr | e. e \<in> set es} - insert '''' seen
   \<and> distinct (group_names_loop seen es attr)"
  by (induction es arbitrary: seen) (auto simp: Let_def)

section \<open>Properties\<close>

text \<open>
  The groups of an LDAP user are exactly the names the group search found: no duplicate,
  no empty name, none lost, and none from anywhere else.
\<close>

lemma ldap_groups_are_what_the_search_found:
  "distinct (group_names es attr) \<and> set (group_names es attr) = (\<lambda>e. le_attr_fold e attr) ` set es - {''''}"
  using group_names_loop_set [of "{}" es attr] by (auto simp: group_names_def)


definition ldap_refusal :: status where
  "ldap_refusal = with_cause (status_new 403 (Some errLDAPInvalidCredentials)) CauseLDAPInvalidCredentials
     (err_text errLDAPInvalidCredentials)"

definition ldap_blames :: "gerr \<Rightarrow> bool" where
  "ldap_blames e \<longleftrightarrow> st_code (from_error e) \<in> {300, 403, 500}
     \<and> (st_code (from_error e) = 403) = (from_error e = ldap_refusal)"

lemma ldap_blames_simps [simp]:
  "ldap_blames (ldap_invalid_credentials x)" "ldap_blames (failed k x)"
  "ldap_blames (server_failure k x)" "ldap_blames (CauseE 300 k x None)"
proof -
  have c: "st_code ldap_refusal = 403" by (simp add: ldap_refusal_def)
  have "from_error (ldap_invalid_credentials x) = ldap_refusal"
    by (simp add: ldap_invalid_credentials_def refused_privately_def from_error_CauseE ldap_refusal_def)
  with c show "ldap_blames (ldap_invalid_credentials x)" by (simp add: ldap_blames_def)
  have "st_code (from_error (failed k x)) \<noteq> st_code ldap_refusal" for k
    by (simp add: c cause_simps)
  then have "from_error (failed k x) \<noteq> ldap_refusal" for k by metis
  then show f: "ldap_blames (failed k x)" for k
    by (simp add: ldap_blames_def cause_simps)
  show "ldap_blames (server_failure k x)" by (simp add: server_failure_def f)
  have "st_code (from_error (CauseE 300 k x None)) \<noteq> st_code ldap_refusal"
    by (simp add: c from_error_CauseE)
  then have "from_error (CauseE 300 k x None) \<noteq> ldap_refusal" by metis
  then show "ldap_blames (CauseE 300 k x None)"
    by (simp add: ldap_blames_def from_error_CauseE)
qed

lemma ldap_session_blames: "ldap_session W n p cfg h = (Inl e, h') \<Longrightarrow> ldap_blames e"
  unfolding ldap_session_def ask_ldap_start_tls_def ask_ldap_bind_def ask_ldap_search_def
  by (cases "ld_tls cfg") (auto split: option.splits sum.splits list.splits prod.splits if_splits)


lemma ldap_do_login_ok:
  assumes "ldap_do_login W n p cfg h = (Inr u, h')"
  shows "unprivileged u \<and> (\<exists>h2. ldap_proves W n p cfg (h @ [CLdapDial (ld_dial_url cfg)]) h2 (u_name u) (u_groups u))"
  using assms unfolding ldap_do_login_def ask_ldap_dial_def
  by (auto split: option.splits prod.splits dest: ldap_session_ok)

lemma ldap_login_with_cases:
  assumes "ldap_login_with W opts g name n p w h = (w', g', h')"
  shows "only_failures w' = only_failures w \<and> extends quiet h h'
    \<or> (\<exists>cfg h1 h2 u. ldap_get_config W name h = (Inr cfg, h1)
         \<and> ldap_proves W n p cfg (h1 @ [CLdapDial (ld_dial_url cfg)]) h2 (u_name u) (u_groups u)
         \<and> unprivileged u
         \<and> extends (\<lambda>c. quiet c \<or> login_call (\<lambda>x. x = client_config_secret_name W (u_name u)) StrategyLDAP u c) h h')"
proof -
  obtain r h1 where c: "ldap_get_config W name h = (r, h1)" by force
  note q1 = ldap_get_config_quiet [OF c]
  show ?thesis
  proof (cases r)
    case (Inl e)
    with assms c q1 show ?thesis by (auto simp: ldap_login_with_def)
  next
    case (Inr cfg)
    obtain r2 h2 where l: "ldap_do_login W n p cfg h1 = (r2, h2)" by force
    note q2 = extends_trans [OF q1 ldap_do_login_quiet [OF l]]
    show ?thesis
    proof (cases r2)
      case (Inl e)
      with assms c \<open>r = Inr cfg\<close> l q2 show ?thesis by (auto simp: ldap_login_with_def)
    next
      case (Inr u)
      with assms c \<open>r = Inr cfg\<close> l
      have "session_answer (generate W) W opts StrategyLDAP name g u w h2 = (w', g', h')"
        by (simp add: ldap_login_with_def)
      from extends_trans [OF quiet_or [OF q2] session_tail_calls [OF this]]
        ldap_do_login_ok [OF l [unfolded Inr]] c [unfolded \<open>r = Inr cfg\<close>]
      show ?thesis by blast
    qed
  qed
qed


end
