(* ===== verification/Routes.thy ===== *)
theory Routes
  imports Encode
begin

text \<open>
  \<open>internal/routes\<close>: the dispatcher \<open>Serve\<close>, and the health route. A handler returns the
  response, or \<open>None\<close> when it panics: \<open>net/http\<close> recovers and closes the connection, so
  the client gets no answer. \<open>'e\<close> is the state the handlers thread.
\<close>

section \<open>Routes\<close>

record 'e route =
  rt_name :: string
  rt_pattern :: string
  rt_method :: string
  rt_handler :: "request \<Rightarrow> response \<Rightarrow> 'e \<Rightarrow> response option \<times> 'e"

text \<open>\<open>http.Error\<close> and \<open>http.NotFound\<close>.\<close>

definition http_error :: "response \<Rightarrow> string \<Rightarrow> int \<Rightarrow> response" where
  "http_error w msg code =
     (let w = w\<lparr>rw_header := (rw_header w)(''Content-Length'' := None)\<rparr>;
          w = set_header w ''Content-Type'' ''text/plain; charset=utf-8'';
          w = set_header w ''X-Content-Type-Options'' ''nosniff'';
          w = write_header w code
      in write_body w (BText (msg @ [newline])))"

definition http_not_found :: "response \<Rightarrow> response" where
  "http_not_found w = http_error w ''404 page not found'' 404"

text \<open>The loop of \<open>Serve\<close>, with the methods of the routes on this path so far.\<close>

fun serve_from :: "'e route list \<Rightarrow> string list \<Rightarrow> request \<Rightarrow> response \<Rightarrow> 'e \<Rightarrow> response option \<times> 'e" where
  "serve_from [] allow req w e =
     (if 0 < length allow
      then (Some (http_error (set_header w ''Allow'' (join '', '' allow)) ''405 method not allowed'' 405), e)
      else (Some (http_not_found w), e))"
| "serve_from (route # rest) allow req w e =
     (if rq_path req \<noteq> rt_pattern route then serve_from rest allow req w e
      else if rq_method req \<noteq> rt_method route then serve_from rest (allow @ [rt_method route]) req w e
      else rt_handler route req w e)"

definition serve :: "'e route list \<Rightarrow> request \<Rightarrow> response \<Rightarrow> 'e \<Rightarrow> response option \<times> 'e" where
  "serve all' req w e = serve_from all' [] req w e"

section \<open>Health\<close>

definition HealthPath :: string where "HealthPath = ''/health''"

definition health_handler :: "int \<Rightarrow> string \<Rightarrow> string \<Rightarrow> response \<Rightarrow> response" where
  "health_handler healthy version serviceName w =
     (if healthy = 1
      then write_body (write_header (set_header w ''Content-Type'' ''application/json'') 200)
             (BHealth serviceName version)
      else write_header w 503)"

section \<open>Facts\<close>

definition on_path :: "request \<Rightarrow> 'e route \<Rightarrow> bool" where
  "on_path req r \<longleftrightarrow> rq_path req = rt_pattern r"

definition matches :: "request \<Rightarrow> 'e route \<Rightarrow> bool" where
  "matches req r \<longleftrightarrow> on_path req r \<and> rq_method req = rt_method r"

lemma serve_from_spec:
  "serve_from rs allow req w e =
     (case find (matches req) rs of
        Some r \<Rightarrow> rt_handler r req w e
      | None \<Rightarrow>
          let allow = allow @ map rt_method (filter (on_path req) rs)
          in (Some (if allow = [] then http_not_found w
                    else http_error (set_header w ''Allow'' (join '', '' allow)) ''405 method not allowed'' 405), e))"
proof (induction rs arbitrary: allow)
  case (Cons r rs)
  note here = on_path_def [of req r] matches_def [of req r]
  show ?case
    by (cases "rq_path req = rt_pattern r"; cases "rq_method req = rt_method r")
      (simp_all add: Cons.IH here Let_def split: option.split)
qed simp

lemma find_in: "find P xs = Some x \<Longrightarrow> x \<in> set xs \<and> P x"
  by (auto simp: find_Some_iff)

lemma http_error_facts [body_simps]:
  "rw_body (http_error w m c) = rw_body w @ [BText (m @ [newline])]"
  "rw_sent w = None \<Longrightarrow> answer_code (http_error w m c) = c"
proof -
  show "rw_body (http_error w m c) = rw_body w @ [BText (m @ [newline])]"
    by (simp add: http_error_def Let_def body_simps)
  show "rw_sent w = None \<Longrightarrow> answer_code (http_error w m c) = c"
    by (simp add: http_error_def Let_def answer_code_def write_body_def write_header_def set_header_def)
qed

section \<open>Properties\<close>

text \<open>
  Dispatch: the first route with the request's path and method gets it; when the path is known
  but not with that method, the answer is 405 with an Allow header listing exactly the methods
  of the routes on that path, in order; otherwise 404. In neither refusal does a handler run.
\<close>

lemma serve_dispatches:
  "serve rs req fresh_writer e =
     (case find (matches req) rs of
        Some r \<Rightarrow> rt_handler r req fresh_writer e
      | None \<Rightarrow>
          (Some (case filter (on_path req) rs of
                   [] \<Rightarrow> http_not_found fresh_writer
                 | known \<Rightarrow> http_error (set_header fresh_writer ''Allow'' (join '', '' (map rt_method known)))
                     ''405 method not allowed'' 405), e))
   \<and> answer_code (http_not_found fresh_writer) = 404
   \<and> answer_code (http_error (set_header fresh_writer ''Allow'' v) m 405) = 405"
  by (auto simp: serve_def serve_from_spec Let_def http_not_found_def body_simps fresh_writer_def
      split: option.splits list.splits)

end
