(* ===== verification/Strategies.thy ===== *)
theory Strategies
  imports Oidc Ldap Routes
begin

text \<open>
  \<open>internal/routes/auth/strategies\<close>: \<open>GET /strategies\<close>, the public list of the configured logins.
\<close>

definition StrategiesPath :: string where "StrategiesPath = ''/strategies''"
definition BasicPath :: string where "BasicPath = ''/basic/login''"
definition LDAPPath :: string where "LDAPPath = ''/ldap/login''"
definition OAuthPath :: string where "OAuthPath = ''/oauth/login''"
definition OIDCPath :: string where "OIDCPath = ''/oidc/login''"
definition ServiceAccountPath :: string where "ServiceAccountPath = ''/serviceaccount/login''"

definition default_graphics :: "string \<Rightarrow> graphics" where
  "default_graphics authName =
     \<lparr>gr_icon = ''key'', gr_display_name = ''Login with '' @ authName,
      gr_background = ''#ffffff'', gr_text_color = ''#000000''\<rparr>"

definition or_default :: "graphics option \<Rightarrow> string \<Rightarrow> graphics option" where
  "or_default g authName = (case g of None \<Rightarrow> Some (default_graphics authName) | Some x \<Rightarrow> Some x)"

definition count_basic_auth_users :: "world \<Rightarrow> history \<Rightarrow> (gerr + nat) \<times> history" where
  "count_basic_auth_users W h =
     (case user_list W h of (Inl e, h) \<Rightarrow> (Inl e, h) | (Inr us, h) \<Rightarrow> (Inr (length us), h))"

text \<open>A misconfigured step-up is logged and not advertised.\<close>

definition oidc_strategy :: "world \<Rightarrow> oidc_cr \<Rightarrow> strategy_item" where
  "oidc_strategy W x =
     \<lparr>si_kind = ''oidc'', si_name = oc_name x, si_graphics = or_default (oc_graphics x) ''OIDC'',
      si_path = OIDCPath,
      si_extensions = map_merge
        [''authCodeURL'' \<mapsto> oc_authorization_url x, ''redirectURL'' \<mapsto> oc_redirect_uri x]
        (case step_up_extensions W (oc_step_up x) (oc_authorization_url x) of
           Inl _ \<Rightarrow> Map.empty | Inr m \<Rightarrow> m)\<rparr>"

definition for_oidc :: "world \<Rightarrow> history \<Rightarrow> (gerr + strategy_item list) \<times> history" where
  "for_oidc W h =
     (case oidc_config_list W h of
        (Inl e, h) \<Rightarrow> (Inl e, h)
      | (Inr items, h) \<Rightarrow> (Inr (map (oidc_strategy W) items), h))"

definition ldap_strategy :: "ldap_cr \<Rightarrow> strategy_item" where
  "ldap_strategy x =
     \<lparr>si_kind = ''ldap'', si_name = lc_name x, si_graphics = or_default (lc_graphics x) ''LDAP'',
      si_path = LDAPPath, si_extensions = Map.empty\<rparr>"

definition for_ldap :: "world \<Rightarrow> history \<Rightarrow> (gerr + strategy_item list) \<times> history" where
  "for_ldap W h =
     (case ldap_config_list W h of
        (Inl e, h) \<Rightarrow> (Inl e, h)
      | (Inr items, h) \<Rightarrow> (Inr (map ldap_strategy items), h))"

definition oauth_strategy_item :: "oauth_strategy \<Rightarrow> strategy_item" where
  "oauth_strategy_item x =
     \<lparr>si_kind = ''oauth'', si_name = os_name x, si_graphics = or_default (os_graphics x) ''OAuth2'',
      si_path = OAuthPath,
      si_extensions = [''authCodeURL'' \<mapsto> os_auth_code_url x, ''redirectURL'' \<mapsto> os_redirect_url x]\<rparr>"

text \<open>\<open>None\<close> is the panic of \<open>ListOAuthConfigs\<close>.\<close>

definition for_oauth :: "world \<Rightarrow> history \<Rightarrow> (gerr + strategy_item list) option \<times> history" where
  "for_oauth W h =
     (case w_dynamic_error W of
        Some e \<Rightarrow> (Some (Inl e), h)
      | None \<Rightarrow>
          (case list_oauth_configs W h of
             (None, h) \<Rightarrow> (None, h)
           | (Some (Inl e), h) \<Rightarrow> (Some (Inl e), h)
           | (Some (Inr items), h) \<Rightarrow> (Some (Inr (map oauth_strategy_item items)), h)))"

text \<open>\<open>if err == nil { list = append(list, all...) }\<close>, the error being logged.\<close>

definition or_none :: "gerr + strategy_item list \<Rightarrow> strategy_item list" where
  "or_none r = (case r of Inl _ \<Rightarrow> [] | Inr xs \<Rightarrow> xs)"

definition basic_strategy :: strategy_item where
  "basic_strategy =
     \<lparr>si_kind = ''basic'', si_name = '''', si_graphics = None, si_path = BasicPath, si_extensions = Map.empty\<rparr>"

definition strategies_handler :: "world \<Rightarrow> response \<Rightarrow> history \<Rightarrow> response option \<times> history" where
  "strategies_handler W w h =
     (case count_basic_auth_users W h of (tot, h) \<Rightarrow>
      let basic = (case tot of Inl _ \<Rightarrow> [] | Inr n \<Rightarrow> if 0 < n then [basic_strategy] else [])
      in (case for_oidc W h of (oidc, h) \<Rightarrow>
         (case for_ldap W h of (ldap, h) \<Rightarrow>
         (case for_oauth W h of
            (None, h) \<Rightarrow> (None, h)
          | (Some oauth, h) \<Rightarrow>
              let w = set_header w ''Content-Type'' ''application/json'';
                  w = write_header w 200
              in (Some (write_body w (BStrategies (basic @ or_none oidc @ or_none ldap @ or_none oauth))), h)))))"

section \<open>Facts\<close>

lemma do_discovery_quiet: "do_discovery W x h = (e, y, h') \<Longrightarrow> extends quiet h h'"
  unfolding do_discovery_def
  by (auto split: if_splits prod.splits sum.splits dest!: fetch_discovery_quiet apply_discovery_quiet intro: extends_trans)

lemma complete_oidc_items_quiet:
  "complete_oidc_items W xs err h = (r, ys, h') \<Longrightarrow> extends quiet h h'"
proof (induction xs arbitrary: err h r ys h')
  case (Cons x xs)
  from Cons.prems show ?case
    by (auto simp: Let_def split: prod.splits if_splits
        dest!: Cons.IH do_discovery_quiet auth_code_url_quiet intro: extends_trans)
qed simp

lemma sources_quiet:
  "count_basic_auth_users W h = (rb, h1) \<Longrightarrow> extends quiet h h1"
  "for_oidc W h = (ro, h1) \<Longrightarrow> extends quiet h h1"
  "for_ldap W h = (rl, h1) \<Longrightarrow> extends quiet h h1"
  "for_oauth W h = (ra, h1) \<Longrightarrow> extends quiet h h1"
proof -
  show "count_basic_auth_users W h = (rb, h1) \<Longrightarrow> extends quiet h h1"
    by (auto simp: count_basic_auth_users_def user_list_def ask_user_list_def split: prod.splits sum.splits)
  show "for_oidc W h = (ro, h1) \<Longrightarrow> extends quiet h h1"
    unfolding for_oidc_def oidc_config_list_def list_oidc_configs_def ask_oidc_list_def
    by (auto split: prod.splits sum.splits option.splits dest!: complete_oidc_items_quiet elim: extends_first)
  show "for_ldap W h = (rl, h1) \<Longrightarrow> extends quiet h h1"
    by (auto simp: for_ldap_def ldap_config_list_def ask_ldap_list_def split: prod.splits sum.splits)
  show "for_oauth W h = (ra, h1) \<Longrightarrow> extends quiet h h1"
    unfolding for_oauth_def list_oauth_configs_def list_oauth_config_def ask_oauth_list_def
    by (auto split: prod.splits sum.splits option.splits if_splits)
qed

lemma strategies_quiet: "strategies_handler W w h = (r, h') \<Longrightarrow> extends quiet h h'"
  unfolding strategies_handler_def Let_def
  by (auto split: prod.splits option.splits dest!: sources_quiet intro: extends_trans)

section \<open>Properties\<close>

text \<open>
  The list of strategies is public and independent: it only reads, and one source that fails
  hides its own entries only, the others being listed in the order basic, OIDC, LDAP, OAuth;
  the single exception is the panic of the OAuth listing, which loses the whole answer.
\<close>

lemma strategies_sources_independent:
  "case count_basic_auth_users W h of (tot, h1) \<Rightarrow>
   case for_oidc W h1 of (oidc, h2) \<Rightarrow>
   case for_ldap W h2 of (ldap, h3) \<Rightarrow>
   case for_oauth W h3 of (oauth, h4) \<Rightarrow>
   case strategies_handler W fresh_writer h of (r, h') \<Rightarrow>
     h' = h4 \<and> list_all quiet (new_calls h h')
     \<and> (case oauth of
          None \<Rightarrow> r = None
        | Some oa \<Rightarrow> (\<exists>w. r = Some w \<and> answer_code w = 200
            \<and> rw_body w = [BStrategies
                ((case tot of Inr (Suc _) \<Rightarrow> [basic_strategy] | _ \<Rightarrow> [])
                 @ (case oidc of Inr xs \<Rightarrow> xs | Inl _ \<Rightarrow> [])
                 @ (case ldap of Inr xs \<Rightarrow> xs | Inl _ \<Rightarrow> [])
                 @ (case oa of Inr xs \<Rightarrow> xs | Inl _ \<Rightarrow> []))]))"
proof -
  obtain r h' where s: "strategies_handler W fresh_writer h = (r, h')" by force
  have "list_all quiet (new_calls h h')"
    using strategies_quiet [OF s] by (rule extends_list_all)
  then show ?thesis
    using s unfolding strategies_handler_def Let_def or_none_def
    by (auto simp: body_simps fresh_writer_def answer_code_def write_body_def write_header_def set_header_def
        split: prod.splits option.splits sum.splits nat.splits)
qed

end
