(* ===== verification/BasicLogin.thy ===== *)
theory BasicLogin
  imports Login
begin

text \<open>
  \<open>internal/routes/auth/basic\<close>: \<open>GET /basic/login\<close>. The caller's name and password are checked
  against its User and the Secret the User refers to; an unknown user and a wrong password
  are one refusal, and both cost a Secret read and one comparison.
\<close>

definition CauseMissingCredentials :: cause where "CauseMissingCredentials = ''MissingCredentials''"
definition CauseInvalidCredentials :: cause where "CauseInvalidCredentials = ''InvalidCredentials''"
definition CauseUserLookupFailed :: cause where "CauseUserLookupFailed = ''UserLookupFailed''"
definition CausePasswordSecretMissing :: cause where
  "CausePasswordSecretMissing = ''PasswordSecretMissing''"
definition CausePasswordLookupFailed :: cause where
  "CausePasswordLookupFailed = ''PasswordLookupFailed''"

definition errMissingCredentials :: gerr where
  "errMissingCredentials = Err [Str ''missing basic credentials'']"
definition errInvalidCredentials :: gerr where
  "errInvalidCredentials = Err [Str ''invalid credentials'']"

section \<open>Validation\<close>

text \<open>The constant-time comparison of two digests is equality of the digests.\<close>

definition compare_password :: "world \<Rightarrow> string \<Rightarrow> string \<Rightarrow> bool" where
  "compare_password W got want \<longleftrightarrow> w_sha256 W got = w_sha256 W want"

definition unknownUserPassword :: string where
  "unknownUserPassword = ''authn: no such user''"

definition invalid_credentials :: "gerr \<Rightarrow> gerr" where
  "invalid_credentials reason = refused_privately CauseInvalidCredentials errInvalidCredentials reason"

definition decoy_password :: "world \<Rightarrow> selector option \<Rightarrow> history \<Rightarrow> string \<times> gerr option \<times> history" where
  "decoy_password W decoy h =
     (case decoy of
        None \<Rightarrow> (unknownUserPassword, None, h)
      | Some sel \<Rightarrow>
     (case secrets_get W sel h of
        (Inl e, h) \<Rightarrow> (unknownUserPassword, Some (Wrap [Str ''reading the decoy Secret: ''] e []), h)
      | (Inr sec, h) \<Rightarrow>
     (case sec_data sec (sel_key sel) of
        None \<Rightarrow> (unknownUserPassword, Some (Err [Str ''the decoy Secret has no key '', Quo (sel_key sel)]), h)
      | Some pwd \<Rightarrow> (pwd, None, h))))"

text \<open>
  \<open>validate\<close>. The comparison with the decoy is for its time alone; its result is dropped.
  \<open>errors.Join\<close> drops a nil error.
\<close>

definition basic_validate ::
  "world \<Rightarrow> selector option \<Rightarrow> string \<Rightarrow> string \<Rightarrow> history \<Rightarrow> (gerr + user) \<times> history" where
  "basic_validate W decoy username password h =
     (if \<not> w_valid_segment W username \<or> username = ''''
      then (Inl (invalid_credentials (Err [Quo username, Str '' is not a valid User name''])), h)
      else (case user_get W username h of
        (Inl e, h) \<Rightarrow>
          if is_not_found e
          then (case decoy_password W decoy h of
                  (want, decoyErr, h) \<Rightarrow>
                    let _ = compare_password W password want
                    in (Inl (invalid_credentials
                          (Joined (e # (case decoyErr of None \<Rightarrow> [] | Some d \<Rightarrow> [d])))), h))
          else (Inl (failed CauseUserLookupFailed (Wrap [Str ''reading User '', Quo username, Str '': ''] e [])), h)
      | (Inr usr, h) \<Rightarrow>
     (case cr_password_ref usr of
        None \<Rightarrow> (Inl (failed CausePasswordSecretMissing
                 (Err ([Str ''user ''] @ single_quoted username @ [Str '' has no passwordRef'']))), h)
      | Some ref \<Rightarrow>
     (case secrets_get W ref h of
        (Inl e, h) \<Rightarrow>
          if is_not_found e then (Inl (failed CausePasswordSecretMissing e), h)
          else (Inl (failed CausePasswordLookupFailed
                  (Wrap ([Str ''reading the password of user ''] @ single_quoted username @ [Str '': '']) e [])), h)
      | (Inr sec, h) \<Rightarrow>
     (case sec_data sec (sel_key ref) of
        None \<Rightarrow> (Inl (failed CausePasswordSecretMissing
                 (Err ([Str ''password for user ''] @ single_quoted username @ [Str '' not found'']))), h)
      | Some pwd \<Rightarrow>
          if \<not> compare_password W password pwd
          then (Inl (invalid_credentials (Err [Str ''wrong password for user '', Quo username])), h)
          else
            let exts = ext_add (ext_add Map.empty ''name'' (cr_display_name usr)) ''avatarUrl'' (cr_avatar_url usr)
            in (case ask_new_id W h of (uid, h) \<Rightarrow>
                 (Inr (new_default_user (cr_name usr) uid (cr_groups usr) exts), h)))))))"

section \<open>The handler\<close>

text \<open>\<open>len\<close> is the length of the marshalled kubeconfig, for the attachment's header.\<close>

definition basic_login ::
  "world \<Rightarrow> login_opts \<Rightarrow> selector option \<Rightarrow> (kube_config \<Rightarrow> nat) \<Rightarrow> generator \<Rightarrow> request
     \<Rightarrow> response \<Rightarrow> history \<Rightarrow> response \<times> generator \<times> history" where
  "basic_login W opts decoy len g req w h =
     (case rq_basic req of
        None \<Rightarrow>
          (failure (set_header w ''WWW-Authenticate'' ''Basic realm=\"krateo\", charset=\"UTF-8\"'')
             (with_cause (status_new 401 (Some errMissingCredentials)) CauseMissingCredentials
                (err_text errMissingCredentials)), g, h)
      | Some (username, password) \<Rightarrow>
     (case basic_validate W decoy username password h of
        (Inl e, h) \<Rightarrow> (failure w (from_error e), g, h)
      | (Inr u, h) \<Rightarrow>
     (case generate W g StrategyBasic u h of
        (Inl e, g, h) \<Rightarrow>
          (failure w (from_error (failed CauseIssuanceFailed (Wrap [Str ''issuing clientconfig: ''] e []))), g, h)
      | (Inr (dat, notAfter), g, h) \<Rightarrow>
          if query_has req ''d'' then (attach len w username dat, g, h)
          else (case success W w (Some dat)
                  (Some (extras_of opts u (Some \<lparr>sr_kind = StrategyBasic, sr_name = ''''\<rparr>) notAfter)) h of
                  (_, w, h) \<Rightarrow> (w, g, h)))))"

section \<open>Facts\<close>

lemma decoy_password_quiet: "decoy_password W d h = (p, e, h') \<Longrightarrow> extends quiet h h'"
  by (auto simp: decoy_password_def split: option.splits sum.splits prod.splits
      dest: resolvers_quiet)

lemma basic_validate_quiet:
  assumes "basic_validate W decoy n p h = (r, h')"
  shows "extends quiet h h'"
  using assms unfolding basic_validate_def Let_def ask_new_id_def
  by (auto split: if_splits sum.splits prod.splits option.splits
      dest!: resolvers_quiet decoy_password_quiet intro: extends_trans extends_snoc)

lemma basic_validate_ok:
  assumes "basic_validate W decoy n p h = (Inr u, h')"
  shows "w_valid_segment W n \<and> n \<noteq> '''' \<and> unprivileged u
    \<and> (\<exists>usr h1 ref sec h2 pwd. user_get W n h = (Inr usr, h1) \<and> cr_password_ref usr = Some ref
         \<and> secrets_get W ref h1 = (Inr sec, h2) \<and> sec_data sec (sel_key ref) = Some pwd
         \<and> compare_password W p pwd \<and> u_name u = cr_name usr
         \<and> u_groups u = filter (\<lambda>g. \<not> is_reserved g) (cr_groups usr))"
  using assms unfolding basic_validate_def Let_def ask_new_id_def
  by (auto split: if_splits sum.splits prod.splits option.splits)

lemma basic_login_cases:
  assumes "basic_login W opts decoy len g req w h = (w', g', h')"
  obtains (unauthenticated) "rq_basic req = None" "only_failures w' = only_failures w" "h' = h"
  | (refused) n p e where "rq_basic req = Some (n, p)" "basic_validate W decoy n p h = (Inl e, h')"
      "w' = failure w (from_error e)"
  | (valid) n p u h1 where "rq_basic req = Some (n, p)" "basic_validate W decoy n p h = (Inr u, h1)"
      "extends (login_call (\<lambda>x. x = client_config_secret_name W (u_name u)) StrategyBasic u) h1 h'"
proof (cases "rq_basic req")
  case None
  with assms show ?thesis by (intro unauthenticated) (auto simp: basic_login_def)
next
  case (Some np)
  then obtain n p where np: "rq_basic req = Some (n, p)" by (cases np) auto
  obtain r h1 where v: "basic_validate W decoy n p h = (r, h1)" by force
  show ?thesis
  proof (cases r)
    case (Inl e)
    with assms np v show ?thesis by (intro refused) (auto simp: basic_login_def)
  next
    case (Inr u)
    with assms np v have "extends (login_call (\<lambda>x. x = client_config_secret_name W (u_name u)) StrategyBasic u) h1 h'"
      unfolding basic_login_def
      by (auto split: prod.splits sum.splits if_splits simp: credential_name_def
          dest!: session_issuer.gen_login_calls
            success_login_calls [where s = StrategyBasic and ok = "\<lambda>x. x = client_config_secret_name W (u_name u)"]
          intro: extends_trans)
    with np v Inr show ?thesis by (intro valid) auto
  qed
qed

section \<open>Properties\<close>


text \<open>The one body of every refusal.\<close>

definition basic_refusal :: status where
  "basic_refusal = with_cause (status_new 403 (Some errInvalidCredentials)) CauseInvalidCredentials
     (err_text errInvalidCredentials)"

fun read_kind :: "call \<Rightarrow> string" where
  "read_kind (CUserGet _ _) = ''user''"
| "read_kind (CSecretGet _ _) = ''secret''"
| "read_kind _ = ''other''"

lemma invalid_credentials_status: "from_error (invalid_credentials e) = basic_refusal"
  by (simp add: invalid_credentials_def refused_privately_def from_error_CauseE basic_refusal_def)


end
