(* ===== verification/ServiceAccountLogin.thy ===== *)
theory ServiceAccountLogin
  imports Login
begin

text \<open>
  \<open>internal/routes/auth/serviceaccount\<close>: \<open>POST /serviceaccount/login\<close>. A backend service
  presents its own audience-bound token; the apiserver reviews it, the ServiceAccount it
  names is looked up in the allowlist, and the mapping's identity is issued. The answer
  carries an access token and never a kubeconfig.
\<close>

definition DefaultAudience :: string where "DefaultAudience = ''authn''"

definition CauseMissingBearer :: cause where "CauseMissingBearer = ''MissingBearer''"
definition CauseTokenNotAuthenticated :: cause where
  "CauseTokenNotAuthenticated = ''TokenNotAuthenticated''"
definition CauseAudienceMismatch :: cause where "CauseAudienceMismatch = ''AudienceMismatch''"
definition CauseNotAServiceAccount :: cause where "CauseNotAServiceAccount = ''NotAServiceAccount''"
definition CauseNoMapping :: cause where "CauseNoMapping = ''NoMapping''"
definition CauseAmbiguousMapping :: cause where "CauseAmbiguousMapping = ''AmbiguousMapping''"
definition CauseTokenReviewFailed :: cause where "CauseTokenReviewFailed = ''TokenReviewFailed''"
definition CauseMappingLookupFailed :: cause where
  "CauseMappingLookupFailed = ''MappingLookupFailed''"

definition errMissingBearer :: gerr where
  "errMissingBearer = Err [Str ''missing bearer token'']"

section \<open>Reading the token\<close>

definition bearer_prefix :: string where "bearer_prefix = ''Bearer ''"

definition bearer_token :: "request \<Rightarrow> string option" where
  "bearer_token req =
     (let h = header_get (rq_header req) ''Authorization''
      in if length h \<le> length bearer_prefix
            \<or> \<not> equal_fold (take (length bearer_prefix) h) bearer_prefix
         then None
         else Some (trim_space (drop (length bearer_prefix) h)))"

fun contains_audience :: "string list \<Rightarrow> string \<Rightarrow> bool" where
  "contains_audience [] want = False"
| "contains_audience (a # as) want = (if a = want then True else contains_audience as want)"

definition sa_prefix :: string where "sa_prefix = ''system:serviceaccount:''"

text \<open>\<open>strings.SplitN(s, ":", 2)\<close> has two parts exactly when \<open>s\<close> has a colon.\<close>

definition parse_service_account_username :: "string \<Rightarrow> gerr + (string \<times> string)" where
  "parse_service_account_username u =
     (if \<not> has_prefix u sa_prefix
      then Inl (Err [Str ''not a service account token (username '', Quo u, Str '')''])
      else (case cut_byte (CHR '':'') (trim_prefix u sa_prefix) of
              None \<Rightarrow> Inl (Err [Str ''malformed service account username '', Quo u])
            | Some (ns, n) \<Rightarrow>
                if ns = '''' \<or> n = ''''
                then Inl (Err [Str ''malformed service account username '', Quo u])
                else Inr (ns, n)))"

section \<open>Validation\<close>

definition sa_validate :: "world \<Rightarrow> string \<Rightarrow> string \<Rightarrow> history \<Rightarrow> (gerr + user) \<times> history" where
  "sa_validate W audience token h =
     (case w_client_error W of
        Some e \<Rightarrow> (Inl (failed CauseTokenReviewFailed
                      (Wrap [Str ''token review: building the client: ''] e [])), h)
      | None \<Rightarrow>
     (case ask_token_review W token [audience] h of
        (Inl e, h) \<Rightarrow> (Inl (failed CauseTokenReviewFailed (Wrap [Str ''token review: ''] e [])), h)
      | (Inr tr, h) \<Rightarrow>
          if \<not> tr_authenticated tr
          then (Inl (refused CauseTokenNotAuthenticated
                 (Err (Str ''token not authenticated'' #
                   (if tr_error tr \<noteq> '''' then [Str '': '', Str (tr_error tr)] else [])))), h)
          else if \<not> contains_audience (tr_audiences tr) audience
          then (Inl (refused CauseAudienceMismatch
                 (Err [Str ''token audience mismatch (require '', Quo audience, Str '')''])), h)
          else (case parse_service_account_username (tr_username tr) of
             Inl e \<Rightarrow> (Inl (refused CauseNotAServiceAccount e), h)
           | Inr (saNamespace, saName) \<Rightarrow>
          (case service_account_for_sa W saNamespace saName h of
             (Inl e, h) \<Rightarrow>
               (Inl (if err_is e ErrNoMapping then refused CauseNoMapping e
                     else if err_is e ErrAmbiguousMapping then refused CauseAmbiguousMapping e
                     else failed CauseMappingLookupFailed e), h)
           | (Inr mapping, h) \<Rightarrow>
               let exts = ext_add Map.empty ''name'' (sa_display_name mapping)
               in (case ask_new_id W h of (uid, h) \<Rightarrow>
                    (Inr (new_default_user (sa_name mapping) uid (sa_groups mapping) exts), h))))))"

section \<open>The handler\<close>

definition sa_audience :: "string \<Rightarrow> string" where
  "sa_audience aud = (if aud = '''' then DefaultAudience else aud)"

definition sa_login ::
  "world \<Rightarrow> login_opts \<Rightarrow> string \<Rightarrow> generator \<Rightarrow> request \<Rightarrow> response \<Rightarrow> history
     \<Rightarrow> response \<times> generator \<times> history" where
  "sa_login W opts audience g req w h =
     (case bearer_token req of
        None \<Rightarrow>
          (failure (set_header w ''WWW-Authenticate'' ''Bearer realm=\"krateo\"'')
             (with_cause (status_new 401 (Some errMissingBearer)) CauseMissingBearer
                (err_text errMissingBearer)), g, h)
      | Some token \<Rightarrow>
     (case sa_validate W audience token h of
        (Inl e, h) \<Rightarrow> (failure w (from_error e), g, h)
      | (Inr u, h) \<Rightarrow>
     (case generate W g StrategyServiceAccount u h of
        (Inl e, g, h) \<Rightarrow>
          (failure w (from_error (failed CauseIssuanceFailed (Wrap [Str ''issuing clientconfig: ''] e []))), g, h)
      | (Inr (_, notAfter), g, h) \<Rightarrow>
          (case success W w None
             (Some (extras_of opts u (Some \<lparr>sr_kind = StrategyServiceAccount, sr_name = ''''\<rparr>) notAfter)) h of
             (_, w, h) \<Rightarrow> (w, g, h)))))"

section \<open>Facts\<close>

lemma contains_audience_iff: "contains_audience as a \<longleftrightarrow> a \<in> set as"
  by (induction as) auto

lemma sa_validate_quiet:
  assumes "sa_validate W aud tok h = (r, h')"
  shows "extends quiet h h'"
  using assms unfolding sa_validate_def ask_token_review_def Let_def ask_new_id_def
  by (auto split: option.splits sum.splits prod.splits if_splits dest!: resolvers_quiet
      intro!: extends_snoc elim: extends_first)

lemma sa_validate_ok:
  assumes "sa_validate W aud tok h = (Inr u, h')"
  shows "unprivileged u \<and> (\<exists>tr ns n m items. w_token_review W h tok [aud] = Inr tr
      \<and> tr_authenticated tr \<and> aud \<in> set (tr_audiences tr)
      \<and> parse_service_account_username (tr_username tr) = Inr (ns, n)
      \<and> filter (refers_to ns n) items = [m]
      \<and> (\<exists>opns. operator_namespace W = Inr opns
           \<and> w_sa_list W (h @ [CTokenReview tok [aud]]) opns = Inr items)
      \<and> u_name u = sa_name m \<and> u_groups u = filter (\<lambda>g. \<not> is_reserved g) (sa_groups m))"
  using assms unfolding sa_validate_def ask_token_review_def Let_def ask_new_id_def
    service_account_for_sa_def ask_sa_list_def resolver_namespace_def
  by (auto simp: contains_audience_iff match_mapping_none
      split: option.splits sum.splits prod.splits if_splits list.splits)

section \<open>Properties\<close>

lemma sa_login_valid:
  assumes "sa_validate W aud tok h = (Inr u, h1)" and "bearer_token req = Some tok"
    and "sa_login W opts aud g req w h = (w', g', h')"
  shows "extends (\<lambda>c. quiet c \<or> login_call (\<lambda>x. x = client_config_secret_name W (u_name u)) StrategyServiceAccount u c) h h'"
proof -
  let ?P = "\<lambda>c. quiet c \<or> login_call (\<lambda>x. x = client_config_secret_name W (u_name u)) StrategyServiceAccount u c"
  have "extends (login_call (\<lambda>x. x = client_config_secret_name W (u_name u)) StrategyServiceAccount u) h1 h'"
    using assms unfolding sa_login_def
    by (auto split: prod.splits sum.splits simp: credential_name_def
        dest!: session_issuer.gen_login_calls success_login_calls
          [where s = StrategyServiceAccount and ok = "\<lambda>x. x = client_config_secret_name W (u_name u)"]
        intro: extends_trans)
  then have "extends ?P h1 h'" by (rule extends_mono) simp
  moreover have "extends ?P h h1"
    using sa_validate_quiet [OF assms(1)] by (rule extends_mono) simp
  ultimately show ?thesis by (rule extends_trans [rotated])
qed

lemma sa_login_bodies:
  "sa_login W opts aud g req w h = (w', g', h') \<Longrightarrow> rw_body w = [] \<Longrightarrow>
   list_all (\<lambda>b. \<not> carries_key b) (rw_body w')"
  unfolding sa_login_def
  by (auto split: option.splits prod.splits sum.splits
      simp: body_simps success_def dest!: success_body_data)


text \<open>
  No service login ever answers key material: whatever happens, no body it writes holds a
  kubeconfig, and it writes exactly one body under one status line.
\<close>

lemma service_login_never_answers_a_key:
  "case sa_login W opts aud g req fresh_writer h of (w', _, _) \<Rightarrow>
     list_all (\<lambda>b. \<not> carries_key b) (rw_body w') \<and> answered_once w'"
proof -
  obtain w' g' h' where b: "sa_login W opts aud g req fresh_writer h = (w', g', h')"
    using prod_cases3 by blast
  have "answered_once w'"
    using b unfolding sa_login_def
    by (auto split: option.splits prod.splits sum.splits intro: failure_once success_once
        [OF unanswered_fresh])
  moreover have "list_all (\<lambda>b. \<not> carries_key b) (rw_body w')"
    by (rule sa_login_bodies [OF b]) (simp add: fresh_writer_def)
  ultimately show ?thesis by (simp add: b)
qed

text \<open>
  C25. A ServiceAccount is read out of a reviewed username exactly when the username is the
  documented prefix, a non-empty namespace without a colon, a colon, and a non-empty name.
\<close>

theorem service_account_username_parsed_exactly:
  "(parse_service_account_username u = Inr (ns, n)) =
     (u = sa_prefix @ ns @ '':'' @ n \<and> ns \<noteq> '''' \<and> n \<noteq> '''' \<and> CHR '':'' \<notin> set ns)"
proof -
  have "cut_byte (CHR '':'') (ns @ CHR '':'' # n) = Some (ns, n)" if "CHR '':'' \<notin> set ns"
    using that by (simp only: cut_byte_iff) simp
  then have "u = sa_prefix @ ns @ '':'' @ n \<and> ns \<noteq> '''' \<and> n \<noteq> '''' \<and> CHR '':'' \<notin> set ns
      \<Longrightarrow> parse_service_account_username u = Inr (ns, n)"
    by (simp add: parse_service_account_username_def trim_prefix_def)
  moreover have "parse_service_account_username u = Inr (ns, n) \<Longrightarrow>
      u = sa_prefix @ ns @ '':'' @ n \<and> ns \<noteq> '''' \<and> n \<noteq> '''' \<and> CHR '':'' \<notin> set ns"
    by (auto simp: parse_service_account_username_def trim_prefix_def cut_byte_iff has_prefix_iff
        split: option.splits if_splits)
  ultimately show ?thesis by blast
qed

end
