(* ===== verification/Jwks.thy ===== *)
theory Jwks
  imports Encode
begin

text \<open>
  \<open>internal/routes/jwks\<close>: the key set authn publishes, with the base64url encoding of a key's
  numbers (\<open>encoding/base64\<close>, \<open>math/big\<close>), and the parsing of the keys a rotation retired.
  PEM parsing is a library's, of the world.
\<close>

section \<open>Unpadded base64url\<close>

definition b64_alphabet :: string where
  "b64_alphabet = ''ABCDEFGHIJKLMNOPQRSTUVWXYZabcdefghijklmnopqrstuvwxyz0123456789-_''"

fun b64_sextets :: "nat list \<Rightarrow> nat list" where
  "b64_sextets [] = []"
| "b64_sextets [a] = [a div 4, a mod 4 * 16]"
| "b64_sextets [a, b] = [a div 4, a mod 4 * 16 + b div 16, b mod 16 * 4]"
| "b64_sextets (a # b # c # xs) =
     a div 4 # (a mod 4 * 16 + b div 16) # (b mod 16 * 4 + c div 64) # c mod 64 # b64_sextets xs"

definition raw_url_encode :: "string \<Rightarrow> string" where
  "raw_url_encode s = map (\<lambda>i. b64_alphabet ! i) (b64_sextets (map byte_of s))"

text \<open>\<open>big.Int.Bytes\<close>: big-endian, with no leading zero.\<close>

fun big_bytes :: "nat \<Rightarrow> string" where
  "big_bytes n = (if n = 0 then [] else big_bytes (n div 256) @ [char_of (n mod 256)])"

declare big_bytes.simps [simp del]

section \<open>The key set\<close>

record verification_key =
  vk_kid :: string
  vk_pub :: rsa_public

definition jwk_of :: "verification_key \<Rightarrow> jwk" where
  "jwk_of k =
     \<lparr>jwk_kty = ''RSA'', jwk_use = ''sig'', jwk_alg = ''RS256'', jwk_kid = vk_kid k,
      jwk_n = raw_url_encode (big_bytes (rsa_n (vk_pub k))),
      jwk_e = raw_url_encode (big_bytes (rsa_e (vk_pub k)))\<rparr>"

definition JwksPath :: string where "JwksPath = ''/.well-known/jwks.json''"

definition jwks_keys :: "rsa_public \<Rightarrow> string \<Rightarrow> verification_key list \<Rightarrow> jwk list" where
  "jwks_keys pub kid previous = jwk_of \<lparr>vk_kid = kid, vk_pub = pub\<rparr> # map jwk_of previous"

definition jwks_handler :: "jwk list \<Rightarrow> response \<Rightarrow> response" where
  "jwks_handler keys w =
     (let w = set_header w ''Content-Type'' ''application/json'';
          w = set_header w ''Cache-Control'' ''public, max-age=300'';
          w = write_header w 200
      in write_body w (BKeySet keys))"

section \<open>Previous keys\<close>

definition public_key_from_pem :: "world \<Rightarrow> string \<Rightarrow> gerr + rsa_public" where
  "public_key_from_pem W raw =
     (case w_rsa_private W raw of
        Inr pub \<Rightarrow> Inr pub
      | Inl _ \<Rightarrow>
          (case w_rsa_public W raw of
             Inl e \<Rightarrow> Inl (Wrap [Str ''not a PEM RSA private or public key: ''] e [])
           | Inr pub \<Rightarrow> Inr pub))"

text \<open>\<open>strings.Cut\<close> at the equals sign, both parts trimmed; without one the path is empty.\<close>

definition cut_entry :: "string \<Rightarrow> bool \<times> string \<times> string" where
  "cut_entry entry =
     (case cut_byte (CHR ''='') entry of
        Some (kid, path) \<Rightarrow> (True, trim_space kid, trim_space path)
      | None \<Rightarrow> (False, trim_space entry, ''''))"

text \<open>The loop of \<open>ParsePreviousKeys\<close>: the kids seen and the keys so far.\<close>

fun previous_keys_loop ::
  "world \<Rightarrow> string \<Rightarrow> rsa_public option \<Rightarrow> string set \<Rightarrow> verification_key list \<Rightarrow> string list
     \<Rightarrow> gerr + verification_key list" where
  "previous_keys_loop W currentKID current' seen keys [] = Inr keys"
| "previous_keys_loop W currentKID current' seen keys (entry # rest) =
     (let entry = trim_space entry
      in if entry = '''' then previous_keys_loop W currentKID current' seen keys rest
         else case cut_entry entry of (ok, kid, path) \<Rightarrow>
           if \<not> ok \<or> kid = '''' \<or> path = ''''
           then Inl (Err [Str ''previous key '', Quo entry, Str '': want kid=path''])
           else if kid \<in> seen
           then (if kid = currentKID
                 then Inl (Err [Str ''previous key '', Quo kid, Str '': kid is the current signing key's''])
                 else Inl (Err [Str ''previous key '', Quo kid, Str '': kid listed twice'']))
           else (case w_read_file W path of
             Inl e \<Rightarrow> Inl (Wrap [Str ''previous key '', Quo kid, Str '': ''] e [])
           | Inr raw \<Rightarrow>
          (case public_key_from_pem W raw of
             Inl e \<Rightarrow> Inl (Wrap [Str ''previous key '', Quo kid, Str '' ('', Str path, Str ''): ''] e [])
           | Inr pub \<Rightarrow>
               if current' = Some pub
               then Inl (Err [Str ''previous key '', Quo kid, Str '' is the current signing key under another kid''])
               else previous_keys_loop W currentKID current' (insert kid seen)
                      (keys @ [\<lparr>vk_kid = kid, vk_pub = pub\<rparr>]) rest)))"

definition parse_previous_keys ::
  "world \<Rightarrow> string \<Rightarrow> string \<Rightarrow> rsa_public option \<Rightarrow> gerr + verification_key list" where
  "parse_previous_keys W spec currentKID current' =
     previous_keys_loop W currentKID current' {currentKID} [] (split_byte (CHR '','') spec)"

section \<open>Facts\<close>

text \<open>Decoding, as a verifier does it.\<close>

fun b64_bytes :: "nat list \<Rightarrow> nat list" where
  "b64_bytes (w # x # y # z # xs) =
     (w * 4 + x div 16) # (x mod 16 * 16 + y div 4) # (y mod 4 * 64 + z) # b64_bytes xs"
| "b64_bytes [w, x, y] = [w * 4 + x div 16, x mod 16 * 16 + y div 4]"
| "b64_bytes [w, x] = [w * 4 + x div 16]"
| "b64_bytes xs = []"

definition sextet_of :: "char \<Rightarrow> nat" where
  "sextet_of c = length (takeWhile (\<lambda>x. x \<noteq> c) b64_alphabet)"

definition raw_url_decode :: "string \<Rightarrow> string" where
  "raw_url_decode s = map char_of (b64_bytes (map sextet_of s))"

definition bytes_big :: "string \<Rightarrow> nat" where
  "bytes_big s = foldl (\<lambda>n c. n * 256 + byte_of c) 0 s"

text \<open>The two halves of a byte, and what packing them into sextets gives back.\<close>

lemma pack_nat:
  fixes m r n :: nat
  assumes "r < n"
  shows "(m * n + r) div n = m" and "(m * n + r) mod n = r"
  using assms by simp_all

lemma byte_halves:
  fixes b :: nat
  assumes "b < 256"
  shows "b div 16 < 16" and "b div 64 < 4" and "b div 4 < 64"
  using assms by (simp_all add: less_mult_imp_div_less)

lemma b64_bytes_sextets: "\<forall>x\<in>set xs. x < 256 \<Longrightarrow> b64_bytes (b64_sextets xs) = xs"
proof (induction xs rule: b64_sextets.induct)
  case (3 a b)
  then show ?case
    using pack_nat [OF byte_halves(1) [of b], of "a mod 4"] by simp
next
  case (4 a b c xs)
  then show ?case
    using pack_nat [OF byte_halves(1) [of b], of "a mod 4"] pack_nat [OF byte_halves(2) [of c], of "b mod 16"]
    by simp
qed simp_all

lemma b64_sextets_small: "\<forall>x\<in>set xs. x < 256 \<Longrightarrow> \<forall>i\<in>set (b64_sextets xs). i < 64"
proof (induction xs rule: b64_sextets.induct)
  case (2 a)
  then show ?case using byte_halves [of a] mod_less_divisor [of 4 a] by simp
next
  case (3 a b)
  have "a mod 4 < 4" "b mod 16 < 16" by simp_all
  with 3 show ?case using byte_halves [of a] byte_halves [of b] by simp
next
  case (4 a b c xs)
  have m: "a mod 4 < 4" "b mod 16 < 16" "c mod 64 < 64" by simp_all
  have "a mod 4 * 16 + b div 16 < 64" "b mod 16 * 4 + c div 64 < 64"
    using "4.prems" m(1,2) byte_halves(1) [of b] byte_halves(2) [of c] by (simp_all del: mod_less_divisor)
  with 4 m show ?case using byte_halves(3) [of a] by simp
qed simp

lemma b64_alphabet_length: "length b64_alphabet = 64"
  by code_simp

lemma b64_alphabet_distinct: "distinct b64_alphabet"
  by code_simp

lemma sextet_of_alphabet: "i < 64 \<Longrightarrow> sextet_of (b64_alphabet ! i) = i"
proof -
  assume "i < 64"
  then have i: "i < length b64_alphabet" by (simp add: b64_alphabet_length)
  then have "b64_alphabet ! i \<notin> set (take i b64_alphabet)"
    using b64_alphabet_distinct by (auto simp: in_set_conv_nth nth_eq_iff_index_eq)
  then have "takeWhile (\<lambda>x. x \<noteq> b64_alphabet ! i) (take i b64_alphabet @ b64_alphabet ! i # drop (Suc i) b64_alphabet)
      = take i b64_alphabet"
    by (subst takeWhile_append2) auto
  then show ?thesis
    using i by (simp add: sextet_of_def id_take_nth_drop [symmetric])
qed

lemma raw_url_roundtrip: "raw_url_decode (raw_url_encode s) = s"
proof -
  have small: "\<forall>x\<in>set (map byte_of s). x < 256" by (auto simp: byte_of_lt)
  have "map sextet_of (raw_url_encode s) = b64_sextets (map byte_of s)"
    using b64_sextets_small [OF small] sextet_of_alphabet
    by (auto simp: raw_url_encode_def intro!: map_idI)
  then show ?thesis
    using b64_bytes_sextets [OF small] by (simp add: raw_url_decode_def o_def byte_of_def)
qed

lemma bytes_big_bytes: "bytes_big (big_bytes n) = n"
proof (induction n rule: big_bytes.induct)
  case (1 n)
  then show ?case
    by (subst big_bytes.simps) (auto simp: bytes_big_def byte_of_def)
qed

lemma previous_keys_loop_ok:
  "previous_keys_loop W kid cur seen keys es = Inr ks \<Longrightarrow>
   vk_kid ` set keys \<subseteq> seen \<Longrightarrow> distinct (map vk_kid keys) \<Longrightarrow>
   \<exists>new. ks = keys @ new \<and> distinct (map vk_kid ks) \<and> seen \<inter> vk_kid ` set new = {}
     \<and> length new = length (filter (\<lambda>x. trim_space x \<noteq> '''') es)
     \<and> (\<forall>k\<in>set new. vk_kid k \<noteq> '''' \<and> cur \<noteq> Some (vk_pub k))"
proof (induction es arbitrary: seen keys)
  case (Cons e es)
  show ?case
  proof (cases "trim_space e = ''''")
    case True
    with Cons show ?thesis by simp
  next
    case False
    obtain ok k p where c: "cut_entry (trim_space e) = (ok, k, p)" by (metis surj_pair)
    with Cons.prems(1) False obtain pub where
      k: "k \<noteq> ''''" "k \<notin> seen" "cur \<noteq> Some pub"
      and l: "previous_keys_loop W kid cur (insert k seen) (keys @ [\<lparr>vk_kid = k, vk_pub = pub\<rparr>]) es = Inr ks"
      by (auto simp: Let_def split: if_splits sum.splits)
    have "\<exists>new. ks = (keys @ [\<lparr>vk_kid = k, vk_pub = pub\<rparr>]) @ new \<and> distinct (map vk_kid ks)
        \<and> insert k seen \<inter> vk_kid ` set new = {}
        \<and> length new = length (filter (\<lambda>x. trim_space x \<noteq> '''') es)
        \<and> (\<forall>k\<in>set new. vk_kid k \<noteq> '''' \<and> cur \<noteq> Some (vk_pub k))"
      by (rule Cons.IH [OF l]) (use Cons.prems(2,3) k in auto)
    then obtain new where "ks = (keys @ [\<lparr>vk_kid = k, vk_pub = pub\<rparr>]) @ new \<and> distinct (map vk_kid ks)
        \<and> insert k seen \<inter> vk_kid ` set new = {}
        \<and> length new = length (filter (\<lambda>x. trim_space x \<noteq> '''') es)
        \<and> (\<forall>k\<in>set new. vk_kid k \<noteq> '''' \<and> cur \<noteq> Some (vk_pub k))" ..
    with k False show ?thesis
      by (intro exI [of _ "\<lparr>vk_kid = k, vk_pub = pub\<rparr> # new"]) (elim conjE, simp)
  qed
qed simp

section \<open>Properties\<close>

text \<open>
  C22. A published key is the key: whoever decodes the modulus and the exponent of an entry of the
  key set, as base64url of big-endian bytes, gets back exactly the numbers of the key, and
  its kid; the current signing key comes first.
\<close>

theorem published_key_decodes_to_the_key:
  "map (\<lambda>j. (jwk_kid j, bytes_big (raw_url_decode (jwk_n j)), bytes_big (raw_url_decode (jwk_e j))))
     (jwks_keys pub kid previous)
   = (kid, rsa_n pub, rsa_e pub)
     # map (\<lambda>k. (vk_kid k, rsa_n (vk_pub k), rsa_e (vk_pub k))) previous"
  by (simp add: jwks_keys_def jwk_of_def raw_url_roundtrip bytes_big_bytes)

text \<open>
  C21. A key rotation cannot confuse the verifiers: when the previous keys are accepted, every kid
  of the key set is different, none of the previous keys is the current one under another
  kid, and no non-empty entry of the setting was skipped.
\<close>

theorem published_kids_distinct:
  "case parse_previous_keys W spec kid (Some pub) of
     Inl _ \<Rightarrow> True
   | Inr keys \<Rightarrow>
       distinct (map jwk_kid (jwks_keys pub kid keys))
       \<and> list_all (\<lambda>k. vk_kid k \<noteq> '''' \<and> vk_pub k \<noteq> pub) keys
       \<and> length keys = length (filter (\<lambda>x. trim_space x \<noteq> '''') (split_byte (CHR '','') spec))"
proof (cases "parse_previous_keys W spec kid (Some pub)")
  case (Inr keys)
  from previous_keys_loop_ok [OF this [unfolded parse_previous_keys_def]] Inr show ?thesis
    by (auto simp: jwks_keys_def jwk_of_def o_def list_all_iff)
qed simp

end
