(* ===== verification/Cors.thy ===== *)
theory Cors
  imports Encode
begin

text \<open>
  \<open>internal/middlewares/cors\<close>: the CORS handler in front of the routes, its configuration
  (\<open>New\<close>), preflight and actual requests (cors.go), wildcard origins and the parsing of a
  requested header list (utils.go); and the options main.go builds it with. Debug logging is
  left out.
\<close>

section \<open>Configuration\<close>

definition go_to_lower :: "world \<Rightarrow> string \<Rightarrow> string" where
  "go_to_lower W s = (if is_ascii s then to_lower s else w_to_lower W s)"

definition go_to_upper :: "world \<Rightarrow> string \<Rightarrow> string" where
  "go_to_upper W s = (if is_ascii s then to_upper s else w_to_upper W s)"

record cors_options =
  co_origins :: "string list"
  co_origin_func :: "(request \<Rightarrow> string \<Rightarrow> bool) option"
  co_methods :: "string list"
  co_headers :: "string list"
  co_exposed :: "string list"
  co_credentials :: bool
  co_max_age :: int
  co_passthrough :: bool

record wildcard =
  wc_prefix :: string
  wc_suffix :: string

record cors =
  cx_origins :: "string list"
  cx_wildcards :: "wildcard list"
  cx_origin_func :: "(request \<Rightarrow> string \<Rightarrow> bool) option"
  cx_headers :: "string list"
  cx_methods :: "string list"
  cx_exposed :: "string list"
  cx_max_age :: int
  cx_origins_all :: bool
  cx_headers_all :: bool
  cx_credentials :: bool
  cx_passthrough :: bool

text \<open>The loop over the allowed origins; \<open>None\<close> once one of them is a star.\<close>

fun sort_origins :: "world \<Rightarrow> string list \<Rightarrow> string list \<Rightarrow> wildcard list \<Rightarrow> (string list \<times> wildcard list) option" where
  "sort_origins W [] plain wild = Some (plain, wild)"
| "sort_origins W (x # xs) plain wild =
     (let x = go_to_lower W x
      in if x = ''*'' then None
         else case index_byte x (CHR ''*'') of
                Some i \<Rightarrow> sort_origins W xs plain (wild @ [\<lparr>wc_prefix = take i x, wc_suffix = drop (Suc i) x\<rparr>])
              | None \<Rightarrow> sort_origins W xs (plain @ [x]) wild)"

definition cors_new :: "world \<Rightarrow> cors_options \<Rightarrow> cors" where
  "cors_new W co =
     (let sorted = (if co_origins co = []
                    then (if co_origin_func co = None then None else Some ([], []))
                    else sort_origins W (co_origins co) [] [])
      in \<lparr>cx_origins = (case sorted of None \<Rightarrow> [] | Some (plain, _) \<Rightarrow> plain),
          cx_wildcards = (case sorted of None \<Rightarrow> [] | Some (_, wild) \<Rightarrow> wild),
          cx_origin_func = co_origin_func co,
          cx_headers = (if co_headers co = [] then [''Origin'', ''Accept'', ''Content-Type'']
                        else if ''*'' \<in> set (co_headers co) then []
                        else map canonical_key (co_headers co @ [''Origin''])),
          cx_methods = (if co_methods co = [] then [''GET'', ''POST'', ''HEAD'']
                        else map (go_to_upper W) (co_methods co)),
          cx_exposed = map canonical_key (co_exposed co),
          cx_max_age = co_max_age co,
          cx_origins_all = (sorted = None),
          cx_headers_all = (''*'' \<in> set (co_headers co)),
          cx_credentials = co_credentials co,
          cx_passthrough = co_passthrough co\<rparr>)"

section \<open>Checks\<close>

definition wildcard_match :: "wildcard \<Rightarrow> string \<Rightarrow> bool" where
  "wildcard_match w s \<longleftrightarrow>
     length (wc_prefix w @ wc_suffix w) \<le> length s \<and> has_prefix s (wc_prefix w) \<and> has_suffix s (wc_suffix w)"

definition is_origin_allowed :: "world \<Rightarrow> cors \<Rightarrow> request \<Rightarrow> string \<Rightarrow> bool" where
  "is_origin_allowed W c req origin =
     (case cx_origin_func c of
        Some f \<Rightarrow> f req origin
      | None \<Rightarrow>
          if cx_origins_all c then True
          else let origin = go_to_lower W origin
               in list_ex (\<lambda>x. x = origin) (cx_origins c)
                  \<or> list_ex (\<lambda>w. wildcard_match w origin) (cx_wildcards c))"

definition is_method_allowed :: "world \<Rightarrow> cors \<Rightarrow> string \<Rightarrow> bool" where
  "is_method_allowed W c m =
     (if length (cx_methods c) = 0 then False
      else let m = go_to_upper W m
           in m = ''OPTIONS'' \<or> list_ex (\<lambda>x. x = m) (cx_methods c))"

definition are_headers_allowed :: "cors \<Rightarrow> string list \<Rightarrow> bool" where
  "are_headers_allowed c hs =
     (cx_headers_all c \<or> length hs = 0
      \<or> list_all (\<lambda>x. list_ex (\<lambda>y. y = canonical_key x) (cx_headers c)) hs)"

text \<open>
  The loop of \<open>parseHeaderList\<close>: the bytes of the current token so far, and whether the next
  letter is to be upper case. Bytes that cannot occur in a simple header name are dropped.
\<close>

definition is_plain_byte :: "char \<Rightarrow> bool" where
  "is_plain_byte b \<longleftrightarrow>
     b = CHR ''-'' \<or> b = CHR ''_'' \<or> b = CHR ''.'' \<or> (48 \<le> byte_of b \<and> byte_of b \<le> 57)"

definition header_byte :: "bool \<Rightarrow> char \<Rightarrow> string" where
  "header_byte upper b =
     (if 97 \<le> byte_of b \<and> byte_of b \<le> 122 then [if upper then char_of (byte_of b - 32) else b]
      else if 65 \<le> byte_of b \<and> byte_of b \<le> 90 then [if upper then b else char_of (byte_of b + 32)]
      else if is_plain_byte b then [b]
      else [])"

fun header_tokens :: "bool \<Rightarrow> string \<Rightarrow> string \<Rightarrow> string list" where
  "header_tokens upper h [] = []"
| "header_tokens upper h (b # bs) =
     (let h = h @ header_byte upper b
      in if b = CHR '' '' \<or> b = CHR '','' \<or> bs = []
         then (if 0 < length h then h # header_tokens True [] bs else header_tokens upper h bs)
         else header_tokens (b = CHR ''-'') h bs)"

definition parse_header_list :: "string \<Rightarrow> string list" where
  "parse_header_list s = header_tokens True [] s"

section \<open>Requests\<close>

definition handle_preflight :: "world \<Rightarrow> cors \<Rightarrow> 'b writer \<Rightarrow> request \<Rightarrow> 'b writer" where
  "handle_preflight W c w req =
     (let origin = header_get (rq_header req) ''Origin''
      in if rq_method req \<noteq> ''OPTIONS'' then w
         else let w = add_header w ''Vary'' ''Origin'';
                  w = add_header w ''Vary'' ''Access-Control-Request-Method'';
                  w = add_header w ''Vary'' ''Access-Control-Request-Headers''
         in if origin = '''' then w
         else if \<not> is_origin_allowed W c req origin then w
         else let reqMethod = header_get (rq_header req) ''Access-Control-Request-Method''
         in if \<not> is_method_allowed W c reqMethod then w
         else let reqHeaders = parse_header_list (header_get (rq_header req) ''Access-Control-Request-Headers'')
         in if \<not> are_headers_allowed c reqHeaders then w
         else let w = set_header w ''Access-Control-Allow-Origin'' (if cx_origins_all c then ''*'' else origin);
                  w = set_header w ''Access-Control-Allow-Methods'' (go_to_upper W reqMethod);
                  w = (if 0 < length reqHeaders
                       then set_header w ''Access-Control-Allow-Headers'' (join '', '' reqHeaders) else w);
                  w = (if cx_credentials c then set_header w ''Access-Control-Allow-Credentials'' ''true'' else w)
         in if 0 < cx_max_age c then set_header w ''Access-Control-Max-Age'' (itoa (cx_max_age c)) else w)"

definition handle_actual_request :: "world \<Rightarrow> cors \<Rightarrow> 'b writer \<Rightarrow> request \<Rightarrow> 'b writer" where
  "handle_actual_request W c w req =
     (let origin = header_get (rq_header req) ''Origin'';
          w = add_header w ''Vary'' ''Origin''
      in if origin = '''' then w
         else if \<not> is_origin_allowed W c req origin then w
         else if \<not> is_method_allowed W c (rq_method req) then w
         else let w = set_header w ''Access-Control-Allow-Origin'' (if cx_origins_all c then ''*'' else origin);
                  w = (if 0 < length (cx_exposed c)
                       then set_header w ''Access-Control-Expose-Headers'' (join '', '' (cx_exposed c)) else w)
         in if cx_credentials c then set_header w ''Access-Control-Allow-Credentials'' ''true'' else w)"

text \<open>
  \<open>next\<close> is the wrapped handler, with whatever state \<open>'e\<close> it threads; a response \<open>None\<close> is a
  handler that panicked.
\<close>

definition cors_handler ::
  "world \<Rightarrow> cors \<Rightarrow> (request \<Rightarrow> 'b writer \<Rightarrow> 'e \<Rightarrow> 'b writer option \<times> 'e) \<Rightarrow> request \<Rightarrow> 'b writer
     \<Rightarrow> 'e \<Rightarrow> 'b writer option \<times> 'e" where
  "cors_handler W c next' req w e =
     (if rq_method req = ''OPTIONS'' \<and> header_get (rq_header req) ''Access-Control-Request-Method'' \<noteq> ''''
      then let w = handle_preflight W c w req
           in if cx_passthrough c then next' req w e else (Some (write_header w 200), e)
      else next' req (handle_actual_request W c w req) e)"

text \<open>The options main.go passes.\<close>

definition authn_cors_options :: cors_options where
  "authn_cors_options =
     \<lparr>co_origins = [''*''], co_origin_func = None,
      co_methods = [''GET'', ''POST'', ''PUT'', ''DELETE'', ''OPTIONS''],
      co_headers = [''Accept'', ''Authorization'', ''Content-Type'', ''X-Auth-Code'', ''X-Code-Verifier'',
        ''traceparent'', ''tracestate'', ''baggage''],
      co_exposed = [''Link''], co_credentials = True, co_max_age = 300, co_passthrough = False\<rparr>"

text \<open>\<open>AllowAll\<close>, the permissive configuration the package offers.\<close>

definition allow_all_options :: cors_options where
  "allow_all_options =
     \<lparr>co_origins = [''*''], co_origin_func = None,
      co_methods = [''HEAD'', ''GET'', ''POST'', ''PUT'', ''PATCH'', ''DELETE''],
      co_headers = [''*''], co_exposed = [], co_credentials = False, co_max_age = 0,
      co_passthrough = False\<rparr>"

section \<open>Facts\<close>

lemma cors_keys [simp]:
  "canonical_key ''Vary'' = ''Vary''"
  "canonical_key ''Access-Control-Allow-Origin'' = ''Access-Control-Allow-Origin''"
  "canonical_key ''Access-Control-Allow-Methods'' = ''Access-Control-Allow-Methods''"
  "canonical_key ''Access-Control-Allow-Headers'' = ''Access-Control-Allow-Headers''"
  "canonical_key ''Access-Control-Allow-Credentials'' = ''Access-Control-Allow-Credentials''"
  "canonical_key ''Access-Control-Expose-Headers'' = ''Access-Control-Expose-Headers''"
  "canonical_key ''Access-Control-Max-Age'' = ''Access-Control-Max-Age''"
  by code_simp+

text \<open>What passes every check of a preflight.\<close>

definition preflight_allowed :: "world \<Rightarrow> cors \<Rightarrow> request \<Rightarrow> bool" where
  "preflight_allowed W c req \<longleftrightarrow>
     (let origin = header_get (rq_header req) ''Origin''
      in origin \<noteq> '''' \<and> is_origin_allowed W c req origin
         \<and> is_method_allowed W c (header_get (rq_header req) ''Access-Control-Request-Method'')
         \<and> are_headers_allowed c
             (parse_header_list (header_get (rq_header req) ''Access-Control-Request-Headers'')))"

definition vary :: "'b writer \<Rightarrow> 'b writer" where
  "vary w = add_header (add_header (add_header w ''Vary'' ''Origin'')
     ''Vary'' ''Access-Control-Request-Method'') ''Vary'' ''Access-Control-Request-Headers''"

definition grant :: "world \<Rightarrow> cors \<Rightarrow> request \<Rightarrow> 'b writer \<Rightarrow> 'b writer" where
  "grant W c req w =
     (let w = set_header w ''Access-Control-Allow-Origin''
            (if cx_origins_all c then ''*'' else header_get (rq_header req) ''Origin'');
          w = set_header w ''Access-Control-Allow-Methods''
            (go_to_upper W (header_get (rq_header req) ''Access-Control-Request-Method''));
          hs = parse_header_list (header_get (rq_header req) ''Access-Control-Request-Headers'');
          w = (if 0 < length hs then set_header w ''Access-Control-Allow-Headers'' (join '', '' hs) else w);
          w = (if cx_credentials c then set_header w ''Access-Control-Allow-Credentials'' ''true'' else w)
      in if 0 < cx_max_age c then set_header w ''Access-Control-Max-Age'' (itoa (cx_max_age c)) else w)"

lemma preflight_cases:
  "handle_preflight W c w req =
     (if rq_method req \<noteq> ''OPTIONS'' then w
      else if preflight_allowed W c req then grant W c req (vary w) else vary w)"
proof -
  let ?origin = "header_get (rq_header req) ''Origin''"
  let ?m = "header_get (rq_header req) ''Access-Control-Request-Method''"
  let ?hs = "parse_header_list (header_get (rq_header req) ''Access-Control-Request-Headers'')"
  show ?thesis
    unfolding handle_preflight_def preflight_allowed_def grant_def vary_def Let_def
    by (cases "rq_method req = ''OPTIONS''"; cases "?origin = ''''"; cases "is_origin_allowed W c req ?origin";
        cases "is_method_allowed W c ?m"; cases "are_headers_allowed c ?hs";
        simp only: if_True if_False simp_thms)
qed

lemma set_header_apply:
  "rw_header (set_header w k v) j = (if j = canonical_key k then Some [v] else rw_header w j)"
  by (simp add: set_header_def header_set_def)

lemma vary_apply: "j \<noteq> ''Vary'' \<Longrightarrow> rw_header (vary w) j = rw_header w j"
  by (simp add: vary_def add_header_def header_add_def)

lemma grant_apply:
  "rw_header (grant W c req w) ''Access-Control-Allow-Origin'' =
     Some [if cx_origins_all c then ''*'' else header_get (rq_header req) ''Origin'']"
  "rw_header (grant W c req w) ''Access-Control-Allow-Credentials'' =
     (if cx_credentials c then Some [''true''] else rw_header w ''Access-Control-Allow-Credentials'')"
  unfolding grant_def Let_def by (simp_all add: set_header_apply if_distrib [of rw_header] if_distribR)

lemma preflight_header:
  "rw_header (handle_preflight W c w req) ''Access-Control-Allow-Origin'' =
     (if rq_method req = ''OPTIONS'' \<and> preflight_allowed W c req
      then Some [if cx_origins_all c then ''*'' else header_get (rq_header req) ''Origin'']
      else rw_header w ''Access-Control-Allow-Origin'')"
  unfolding preflight_cases by (simp add: grant_apply vary_apply)

lemma preflight_credentials:
  "rw_header (handle_preflight W c w req) ''Access-Control-Allow-Credentials'' =
     (if rq_method req = ''OPTIONS'' \<and> preflight_allowed W c req \<and> cx_credentials c
      then Some [''true''] else rw_header w ''Access-Control-Allow-Credentials'')"
  unfolding preflight_cases by (simp add: grant_apply vary_apply)

lemma preflight_unsent [body_simps]:
  "rw_sent (handle_preflight W c w req) = rw_sent w" "rw_body (handle_preflight W c w req) = rw_body w"
  by (simp_all add: preflight_cases grant_def vary_def Let_def body_simps)

text \<open>The bytes of a simple header name, and the canonical form the loop gives them.\<close>

definition is_name_byte :: "char \<Rightarrow> bool" where
  "is_name_byte b \<longleftrightarrow>
     (97 \<le> byte_of b \<and> byte_of b \<le> 122) \<or> (65 \<le> byte_of b \<and> byte_of b \<le> 90) \<or> is_plain_byte b"

lemma name_byte_token: "is_name_byte b \<Longrightarrow> is_token_byte b"
  by (auto simp: is_name_byte_def is_plain_byte_def is_token_byte_def Let_def byte_of_def)

lemma plain_byte_range: "is_plain_byte b \<Longrightarrow> byte_of b \<le> 57 \<or> byte_of b = 95"
  by (auto simp: is_plain_byte_def byte_of_def)

lemma header_byte_name:
  "is_name_byte b \<Longrightarrow> header_byte up b = [if up then ascii_upper b else ascii_lower b]"
  using plain_byte_range [of b]
  by (auto simp: is_name_byte_def header_byte_def ascii_upper_def ascii_lower_def)

lemma name_byte_no_sep: "is_name_byte b \<Longrightarrow> b \<noteq> CHR '' '' \<and> b \<noteq> CHR '',''"
  by (auto simp: is_name_byte_def is_plain_byte_def byte_of_def)

lemma header_byte_sep [simp]: "header_byte up (CHR '','') = []" "header_byte up (CHR '' '') = []"
  by (simp_all add: header_byte_def is_plain_byte_def byte_of_def)

lemma header_tokens_name:
  "list_all is_name_byte t \<Longrightarrow> h @ t \<noteq> [] \<Longrightarrow>
   header_tokens up h (t @ CHR '','' # rest) = (h @ canon_bytes up t) # header_tokens True [] rest"
proof (induction t arbitrary: up h)
  case (Cons b t)
  then show ?case
    using name_byte_no_sep [of b] by (simp add: Let_def header_byte_name)
qed simp

lemma header_tokens_last:
  "list_all is_name_byte t \<Longrightarrow> t \<noteq> [] \<Longrightarrow> header_tokens up h t = [h @ canon_bytes up t]"
proof (induction t arbitrary: up h)
  case (Cons b t)
  then show ?case
    using name_byte_no_sep [of b] by (cases t) (simp_all add: Let_def header_byte_name)
qed simp

lemma canonical_name: "list_all is_name_byte t \<Longrightarrow> canonical_key t = canon_bytes True t"
  by (simp add: canonical_key_def list_all_iff name_byte_token)

section \<open>Properties\<close>

text \<open>
  A wildcard origin matches exactly the origins it denotes: the prefix, any text, the suffix,
  with no overlap of the two, so \<open>http://*.example.com\<close> needs a subdomain.
\<close>

lemma wildcard_matches_exactly:
  "wildcard_match w s \<longleftrightarrow> (\<exists>mid. s = wc_prefix w @ mid @ wc_suffix w)"
proof
  assume m: "wildcard_match w s"
  then obtain a where a: "s = wc_prefix w @ a"
    by (auto simp: wildcard_match_def has_prefix_iff)
  from m obtain b where b: "s = b @ wc_suffix w"
    by (auto simp: wildcard_match_def has_suffix_iff)
  have l: "length (wc_suffix w) \<le> length a"
    using m a by (simp add: wildcard_match_def)
  have "a = take (length a - length (wc_suffix w)) a @ wc_suffix w"
    by (rule append_eq_append_conv [THEN iffD1, of "wc_prefix w" "wc_prefix w", THEN conjunct2]) (use a b l in \<open>auto simp: append_eq_append_conv2\<close>)
  with a show "\<exists>mid. s = wc_prefix w @ mid @ wc_suffix w" by metis
qed (auto simp: wildcard_match_def has_prefix_iff has_suffix_iff)

text \<open>
  A preflight never reaches a route: without passthrough it is answered here, with 200, no
  body and the wrapped handler's state untouched; and it is granted, by an Allow-Origin
  header, exactly when its origin, its method and every header it asks for are allowed.
\<close>

lemma preflight_answered_without_the_routes:
  "case cors_handler W (c\<lparr>cx_passthrough := False\<rparr>) next' req fresh_writer e of (r, e') \<Rightarrow>
     if rq_method req = ''OPTIONS'' \<and> header_get (rq_header req) ''Access-Control-Request-Method'' \<noteq> ''''
     then e' = e \<and> (\<exists>w' hd. r = Some w' \<and> rw_body w' = [] \<and> rw_sent w' = Some (200, hd)
            \<and> hd ''Access-Control-Allow-Origin'' =
                (if preflight_allowed W (c\<lparr>cx_passthrough := False\<rparr>) req
                 then Some [if cx_origins_all c then ''*'' else header_get (rq_header req) ''Origin'']
                 else None))
     else (r, e') = next' req (handle_actual_request W (c\<lparr>cx_passthrough := False\<rparr>) fresh_writer req) e"
  using preflight_header [of W "c\<lparr>cx_passthrough := False\<rparr>" fresh_writer req]
  by (auto simp: cors_handler_def Let_def body_simps fresh_writer_def split: prod.splits)

text \<open>
  Parsing a requested header list gives back its names in canonical form: for names of
  letters, digits, hyphens, underscores and dots, joined with a comma and a space, exactly
  the \<open>CanonicalHeaderKey\<close> of each, in order, as \<open>areHeadersAllowed\<close> compares them.
\<close>

lemma header_list_parsed_canonically:
  assumes "list_all (\<lambda>t. t \<noteq> [] \<and> list_all is_name_byte t) ts"
  shows "parse_header_list (join '', '' ts) = map canonical_key ts"
  unfolding parse_header_list_def using assms
proof (induction ts)
  case (Cons t ts)
  have space: "header_tokens True [] (CHR '' '' # r) = header_tokens True [] r" for r
    by (cases r) (simp_all add: Let_def)
  from Cons show ?case
    by (cases ts) (simp_all add: header_tokens_last header_tokens_name space canonical_name)
qed simp

theorem header_list_parsed_canonically_witness:
  "parse_header_list ''authorization, X-AUTH-code'' = [''Authorization'', ''X-Auth-Code'']"
proof -
  have "parse_header_list (join '', '' [''authorization'', ''X-AUTH-code''])
      = map canonical_key [''authorization'', ''X-AUTH-code'']"
    by (rule header_list_parsed_canonically) code_simp
  moreover have "map canonical_key [''authorization'', ''X-AUTH-code''] = [''Authorization'', ''X-Auth-Code'']"
    by code_simp
  ultimately show ?thesis by simp
qed

end
