(* ===== verification/Server.thy ===== *)
theory Server
  imports Strategies BasicLogin ServiceAccountLogin Jwks Cors
begin

text \<open>
  The whole HTTP surface: \<open>buildRoutes\<close> (routes.go of the main package) and the handler chain
  main.go puts in front of it. The state the handlers thread is the shared generator, which
  caches the cluster CA, and the history.
\<close>

section \<open>Routes\<close>

record route_options =
  rp_public_key :: rsa_public
  rp_key_id :: string
  rp_previous_keys :: "verification_key list"
  rp_jwt_duration :: duration
  rp_audience :: string
  rp_decoy :: "selector option"
  rp_self_username :: string
  rp_snowplow_url :: string
  rp_healthy :: int
  rp_version :: string
  rp_service_name :: string

text \<open>
  What the handlers take from libraries: the length of a marshalled kubeconfig, the media type
  of a Content-Type, the JSON decoder, and what a request's context carries.
\<close>

record libraries =
  lb_len :: "kube_config \<Rightarrow> nat"
  lb_media :: "headers \<Rightarrow> string"
  lb_decode :: "string \<Rightarrow> (string \<times> string) decoded \<times> bool"
  lb_request_ctx :: "request \<Rightarrow> rest_ctx"

type_synonym server_state = "generator \<times> history"

definition always :: "(response \<Rightarrow> response) \<Rightarrow> request \<Rightarrow> response \<Rightarrow> server_state \<Rightarrow> response option \<times> server_state" where
  "always f req w s = (Some (f w), s)"

definition login_handler ::
  "(generator \<Rightarrow> request \<Rightarrow> response \<Rightarrow> history \<Rightarrow> response \<times> generator \<times> history)
     \<Rightarrow> request \<Rightarrow> response \<Rightarrow> server_state \<Rightarrow> response option \<times> server_state" where
  "login_handler f req w s =
     (case s of (g, h) \<Rightarrow> case f g req w h of (w, g, h) \<Rightarrow> (Some w, (g, h)))"

definition list_handler :: "world \<Rightarrow> request \<Rightarrow> response \<Rightarrow> server_state \<Rightarrow> response option \<times> server_state" where
  "list_handler W req w s =
     (case s of (g, h) \<Rightarrow> case strategies_handler W w h of (r, h) \<Rightarrow> (r, (g, h)))"

definition own_token :: "route_options \<Rightarrow> token_opts" where
  "own_token ro =
     \<lparr>jo_username = rp_self_username ro, jo_groups = [''authn''], jo_duration = hour * 8760,
      jo_key_id = rp_key_id ro\<rparr>"

definition rest_action_context :: "route_options \<Rightarrow> string \<Rightarrow> rest_ctx" where
  "rest_action_context ro accessToken =
     \<lparr>rx_token = Some accessToken, rx_username = Some (rp_self_username ro),
      rx_snowplow_url = rp_snowplow_url ro\<rparr>"

text \<open>
  The constructor of each route, with its \<open>Name\<close>, \<open>Pattern\<close> and \<open>Method\<close>: what it is given it
  keeps for its handler. A login's options are \<open>login_opts\<close> and what is its own (basic's decoy,
  the audience of service accounts); the step-up's have no JWT duration, which its handler sets.
\<close>

definition strategies_route :: "world \<Rightarrow> server_state route" where
  "strategies_route W =
     \<lparr>rt_name = ''strategies'', rt_pattern = StrategiesPath, rt_method = ''GET'', rt_handler = list_handler W\<rparr>"

definition health_route :: "int \<Rightarrow> string \<Rightarrow> string \<Rightarrow> server_state route" where
  "health_route healthy version serviceName =
     \<lparr>rt_name = ''health'', rt_pattern = HealthPath, rt_method = ''GET'',
      rt_handler = always (health_handler healthy version serviceName)\<rparr>"

definition jwks_route :: "rsa_public \<Rightarrow> string \<Rightarrow> verification_key list \<Rightarrow> server_state route" where
  "jwks_route pub kid previous =
     \<lparr>rt_name = ''jwks'', rt_pattern = JwksPath, rt_method = ''GET'',
      rt_handler = always (jwks_handler (jwks_keys pub kid previous))\<rparr>"

definition basic_route :: "world \<Rightarrow> libraries \<Rightarrow> login_opts \<Rightarrow> selector option \<Rightarrow> server_state route" where
  "basic_route W lb opts decoy =
     \<lparr>rt_name = ''basic'', rt_pattern = BasicPath, rt_method = ''GET'',
      rt_handler = login_handler (basic_login W opts decoy (lb_len lb))\<rparr>"

definition service_account_route :: "world \<Rightarrow> login_opts \<Rightarrow> string \<Rightarrow> server_state route" where
  "service_account_route W opts audience =
     \<lparr>rt_name = ''serviceaccount'', rt_pattern = ServiceAccountPath, rt_method = ''POST'',
      rt_handler = login_handler (sa_login W opts (sa_audience audience))\<rparr>"

definition ldap_route :: "world \<Rightarrow> libraries \<Rightarrow> login_opts \<Rightarrow> server_state route" where
  "ldap_route W lb opts =
     \<lparr>rt_name = ''ldap.login'', rt_pattern = LDAPPath, rt_method = ''POST'',
      rt_handler = login_handler (ldap_login W (lb_media lb) (lb_decode lb) opts)\<rparr>"

definition oauth_route :: "world \<Rightarrow> libraries \<Rightarrow> rest_ctx \<Rightarrow> login_opts \<Rightarrow> server_state route" where
  "oauth_route W lb base opts =
     \<lparr>rt_name = ''oauth.login'', rt_pattern = OAuthPath, rt_method = ''GET'',
      rt_handler = (\<lambda>req. login_handler (oauth_login W (lb_request_ctx lb req) base opts) req)\<rparr>"

definition oidc_route :: "world \<Rightarrow> libraries \<Rightarrow> rest_ctx \<Rightarrow> login_opts \<Rightarrow> server_state route" where
  "oidc_route W lb base opts =
     \<lparr>rt_name = ''oidc.login'', rt_pattern = OIDCPath, rt_method = ''GET'',
      rt_handler = (\<lambda>req. login_handler (oidc_login W (lb_request_ctx lb req) base opts) req)\<rparr>"

definition step_up_route :: "world \<Rightarrow> libraries \<Rightarrow> rest_ctx \<Rightarrow> login_opts \<Rightarrow> server_state route" where
  "step_up_route W lb base opts =
     \<lparr>rt_name = ''oidc.stepup'', rt_pattern = StepUpPath, rt_method = ''POST'',
      rt_handler = (\<lambda>req. login_handler (oidc_step_up W (lb_request_ctx lb req) base opts) req)\<rparr>"

lemmas route_defs =
  strategies_route_def health_route_def jwks_route_def basic_route_def service_account_route_def
  ldap_route_def oauth_route_def oidc_route_def step_up_route_def

definition routes_with :: "world \<Rightarrow> libraries \<Rightarrow> route_options \<Rightarrow> string \<Rightarrow> server_state route list" where
  "routes_with W lb ro accessToken =
     (let opts = \<lparr>lo_jwt_duration = rp_jwt_duration ro, lo_has_key = True, lo_key_id = rp_key_id ro\<rparr>;
          base = rest_action_context ro accessToken
      in [strategies_route W,
          health_route (rp_healthy ro) (rp_version ro) (rp_service_name ro),
          jwks_route (rp_public_key ro) (rp_key_id ro) (rp_previous_keys ro),
          basic_route W lb opts (rp_decoy ro),
          service_account_route W opts (rp_audience ro),
          ldap_route W lb opts,
          oauth_route W lb base opts,
          oidc_route W lb base opts,
          step_up_route W lb base opts])"

definition build_routes ::
  "world \<Rightarrow> libraries \<Rightarrow> route_options \<Rightarrow> history \<Rightarrow> (gerr + server_state route list) \<times> history" where
  "build_routes W lb ro h =
     (case ask_sign W (own_token ro) h of
        (Inl e, h) \<Rightarrow>
          (Inl (Wrap [Str ''cannot create jwt token for '', Str (rp_self_username ro), Str '': ''] e []), h)
      | (Inr accessToken, h) \<Rightarrow> (Inr (routes_with W lb ro accessToken), h))"

text \<open>
  The handler main.go serves, telemetry aside: the routes, behind the CORS middleware when it
  is on.
\<close>

definition authn_handler ::
  "world \<Rightarrow> bool \<Rightarrow> server_state route list \<Rightarrow> request \<Rightarrow> response \<Rightarrow> server_state
     \<Rightarrow> response option \<times> server_state" where
  "authn_handler W corsOn rs req w s =
     (if corsOn then cors_handler W (cors_new W authn_cors_options) (serve rs) req w s
      else serve rs req w s)"

section \<open>Facts\<close>

text \<open>The routes a credential can come from, and those that may answer a private key.\<close>

definition key_routes :: "(string \<times> string) list" where
  "key_routes =
     [(''GET'', BasicPath), (''POST'', LDAPPath), (''GET'', OAuthPath), (''GET'', OIDCPath)]"

definition credential_routes :: "(string \<times> string) list" where
  "credential_routes = key_routes @ [(''POST'', ServiceAccountPath), (''POST'', StepUpPath)]"

text \<open>
  What a handler without a login does: it leaves the generator alone, only reads, and answers
  no credential.
\<close>

definition harmless :: "server_state \<Rightarrow> response option \<times> server_state \<Rightarrow> bool" where
  "harmless s x \<longleftrightarrow>
     (case x of (r, s') \<Rightarrow> fst s' = fst s \<and> extends quiet (snd s) (snd s')
        \<and> (case r of None \<Rightarrow> True | Some w \<Rightarrow> only_failures w))"

lemma list_handler_harmless: "only_failures w \<Longrightarrow> harmless s (list_handler W req w s)"
proof -
  assume w: "only_failures w"
  obtain g h where s: "s = (g, h)" by force
  obtain r h' where r: "strategies_handler W w h = (r, h')" by force
  have "case r of None \<Rightarrow> True | Some w \<Rightarrow> only_failures w"
    using r w unfolding strategies_handler_def Let_def
    by (auto simp: only_failures_def body_simps split: prod.splits option.splits)
  with strategies_quiet [OF r] show ?thesis
    by (simp add: harmless_def list_handler_def s r)
qed

lemma always_harmless:
  "only_failures (f w) \<Longrightarrow> harmless s (always f req w s)"
  by (simp add: harmless_def always_def)

lemma health_only_failures: "only_failures w \<Longrightarrow> only_failures (health_handler a b c w)"
  by (simp add: only_failures_def health_handler_def body_simps)

lemma jwks_only_failures: "only_failures w \<Longrightarrow> only_failures (jwks_handler ks w)"
  by (simp add: only_failures_def jwks_handler_def Let_def body_simps)

lemma http_error_only_failures [simp]: "only_failures (http_error w m c) = only_failures w"
  by (simp add: only_failures_def body_simps)

lemma routes_kinds:
  "list_all (\<lambda>r. (rt_method r, rt_pattern r) \<in> set credential_routes
      \<or> rt_handler r = list_handler W \<or> (\<exists>f. rt_handler r = always f \<and> (\<forall>w. only_failures w \<longrightarrow> only_failures (f w))))
     (routes_with W lb ro tok)"
  unfolding routes_with_def route_defs Let_def credential_routes_def key_routes_def
  by (simp only: list.pred_inject route.simps)
    (intro conjI TrueI; (simp; fail)?; blast intro: health_only_failures jwks_only_failures)

lemma routes_harmless:
  assumes "r \<in> set (routes_with W lb ro tok)"
    and "(rt_method r, rt_pattern r) \<notin> set credential_routes" and "only_failures w"
  shows "harmless s (rt_handler r req w s)"
proof -
  have "rt_handler r = list_handler W
      \<or> (\<exists>f. rt_handler r = always f \<and> (\<forall>w. only_failures w \<longrightarrow> only_failures (f w)))"
    using routes_kinds [of W lb ro tok] assms(1,2) by (auto simp: list_all_iff)
  with assms(3) show ?thesis
    by (auto intro!: list_handler_harmless always_harmless)
qed

lemma serve_harmless:
  assumes "(rq_method req, rq_path req) \<notin> set credential_routes" and "only_failures w"
  shows "harmless s (serve (routes_with W lb ro tok) req w s)"
proof (cases "find (matches req) (routes_with W lb ro tok)")
  case None
  then show ?thesis
    using assms(2) by (simp add: serve_def serve_from_spec Let_def harmless_def http_not_found_def)
next
  case (Some r)
  from find_in [OF this] have "r \<in> set (routes_with W lb ro tok)"
    "(rt_method r, rt_pattern r) = (rq_method req, rq_path req)"
    by (auto simp: matches_def on_path_def)
  with routes_harmless [of r W lb ro tok w s req] assms Some show ?thesis
    by (simp add: serve_def serve_from_spec)
qed

text \<open>A handler that may answer a token but never a private key.\<close>

definition keyless :: "response option \<Rightarrow> bool" where
  "keyless r \<longleftrightarrow> (case r of None \<Rightarrow> True | Some w \<Rightarrow> list_all (\<lambda>b. \<not> carries_key b) (rw_body w))"

lemma no_credential_no_key: "\<not> carries_credential b \<Longrightarrow> \<not> carries_key b"
  by (cases b) auto

lemma harmless_keyless: "harmless s (r, s') \<Longrightarrow> keyless r"
  by (auto simp: harmless_def keyless_def only_failures_def list_all_iff no_credential_no_key
      split: option.splits)

lemma keyless_routes:
  assumes "rw_body w = []"
  shows "keyless (fst (login_handler (sa_login W opts aud) req w s))"
    and "keyless (fst (login_handler (oidc_step_up W ctx base opts) req w s))"
  using assms unfolding login_handler_def keyless_def
  by (auto split: prod.splits option.splits dest!: sa_login_bodies oidc_step_up_bodies)

lemma serve_keyless:
  assumes "(rq_method req, rq_path req) \<notin> set key_routes" and "rw_body w = []"
  shows "keyless (fst (serve (routes_with W lb ro tok) req w s))"
proof (cases "(rq_method req, rq_path req) \<in> set credential_routes")
  case False
  with assms(2) have "harmless s (serve (routes_with W lb ro tok) req w s)"
    by (intro serve_harmless) (simp_all add: only_failures_def)
  then show ?thesis
    by (metis harmless_keyless prod.collapse)
next
  case True
  with assms(1) have "(rq_method req, rq_path req) = (''POST'', ServiceAccountPath)
      \<or> (rq_method req, rq_path req) = (''POST'', StepUpPath)"
    by (simp only: credential_routes_def set_append Un_iff set_simps insert_iff empty_iff) blast
  then show ?thesis
  proof
    assume p: "(rq_method req, rq_path req) = (''POST'', ServiceAccountPath)"
    show ?thesis
      using keyless_routes(1) [OF assms(2)] p unfolding serve_def routes_with_def route_defs Let_def
      by (simp add: StrategiesPath_def HealthPath_def JwksPath_def BasicPath_def ServiceAccountPath_def)
  next
    assume p: "(rq_method req, rq_path req) = (''POST'', StepUpPath)"
    show ?thesis
      using keyless_routes(2) [OF assms(2)] p unfolding serve_def routes_with_def route_defs Let_def
      by (simp add: StrategiesPath_def HealthPath_def JwksPath_def BasicPath_def ServiceAccountPath_def
          LDAPPath_def OAuthPath_def OIDCPath_def StepUpPath_def)
  qed
qed

lemma actual_request_body [body_simps]:
  "rw_body (handle_actual_request W c w req) = rw_body w"
  by (simp add: handle_actual_request_def Let_def body_simps)

text \<open>
  Through the CORS middleware: either the routes answer, on a writer with headers set and
  nothing written, or nothing but a status line is answered and nothing is done.
\<close>

lemma authn_handler_cases:
  assumes "authn_handler W corsOn rs req fresh_writer s = (r, s')"
  obtains (routes) w where "rw_body w = []" "serve rs req w s = (r, s')"
  | (preflight) w where "r = Some w" "rw_body w = []" "s' = s"
proof -
  let ?c = "cors_new W authn_cors_options"
  have pass: "\<not> cx_passthrough ?c"
    by (simp add: cors_new_def Let_def authn_cors_options_def)
  have empty: "rw_body (fresh_writer :: response) = []" by (simp add: fresh_writer_def)
  show thesis
  proof (cases "corsOn \<and> rq_method req = ''OPTIONS''
      \<and> header_get (rq_header req) ''Access-Control-Request-Method'' \<noteq> ''''")
    case True
    with assms pass empty show thesis
      by (intro preflight [of "write_header (handle_preflight W ?c fresh_writer req) 200"])
        (simp_all add: authn_handler_def cors_handler_def Let_def body_simps)
  next
    case False
    show thesis
    proof (cases corsOn)
      case True
      with False have "serve rs req (handle_actual_request W ?c fresh_writer req) s = (r, s')"
        using assms by (simp add: authn_handler_def cors_handler_def Let_def split: if_splits)
      with empty show thesis
        by (intro routes [of "handle_actual_request W ?c fresh_writer req"]) (simp_all add: body_simps)
    next
      case False
      with assms empty show thesis
        by (intro routes [of fresh_writer]) (simp_all add: authn_handler_def)
    qed
  qed
qed

section \<open>Properties\<close>

text \<open>
  C9. The public surface: whatever authn is configured with, the nine routes have nine different
  methods and paths, and a request to anything but the six login routes (another path,
  another method, a preflight, the list, the probe, the key set) issues and writes nothing,
  leaves the generator alone, and is answered no key and no token.
\<close>

theorem credentials_only_from_login_routes:
  "case build_routes W lb ro h0 of
     (Inl _, _) \<Rightarrow> True
   | (Inr rs, _) \<Rightarrow>
       distinct (map (\<lambda>r. (rt_method r, rt_pattern r)) rs) \<and> length rs = 9
       \<and> ((rq_method req, rq_path req) \<in> set credential_routes
          \<or> (case authn_handler W corsOn rs req fresh_writer (g, h) of (r, g', h') \<Rightarrow>
               g' = g \<and> list_all quiet (new_calls h h')
               \<and> (case r of None \<Rightarrow> True | Some w \<Rightarrow> only_failures w)))"
proof (cases "w_sign W h0 (own_token ro)")
  case (Inr tok)
  let ?rs = "routes_with W lb ro tok"
  have "distinct (map (\<lambda>r. (rt_method r, rt_pattern r)) ?rs) \<and> length ?rs = 9"
    by (simp add: routes_with_def route_defs Let_def StrategiesPath_def HealthPath_def JwksPath_def BasicPath_def
        ServiceAccountPath_def LDAPPath_def OAuthPath_def OIDCPath_def StepUpPath_def)
  moreover have "harmless (g, h) (authn_handler W corsOn ?rs req fresh_writer (g, h))"
    if "(rq_method req, rq_path req) \<notin> set credential_routes"
  proof -
    obtain r s' where a: "authn_handler W corsOn ?rs req fresh_writer (g, h) = (r, s')" by (metis surj_pair)
    from a show ?thesis
    proof (cases rule: authn_handler_cases)
      case (routes w)
      with serve_harmless [OF that, of w "(g, h)" W lb ro tok] a show ?thesis
        by (simp add: only_failures_def)
    next
      case (preflight w)
      with a show ?thesis by (simp add: harmless_def only_failures_def)
    qed
  qed
  ultimately show ?thesis
    using Inr by (auto simp: build_routes_def ask_sign_def harmless_def extends_list_all split: prod.splits)
qed (simp add: build_routes_def ask_sign_def)

text \<open>
  C12. A private key leaves authn only in the answer to a user's own login, by password, LDAP, OAuth
  or OIDC: no other request, and in particular no service login and no step-up, is ever
  answered a kubeconfig.
\<close>

theorem keys_only_from_user_logins:
  "case build_routes W lb ro h0 of
     (Inl _, _) \<Rightarrow> True
   | (Inr rs, _) \<Rightarrow>
       (rq_method req, rq_path req) \<in>
         {(''GET'', BasicPath), (''POST'', LDAPPath), (''GET'', OAuthPath), (''GET'', OIDCPath)}
       \<or> (case authn_handler W corsOn rs req fresh_writer s of (r, _) \<Rightarrow>
            (case r of None \<Rightarrow> True | Some w \<Rightarrow> list_all (\<lambda>b. \<not> carries_key b) (rw_body w)))"
proof (cases "w_sign W h0 (own_token ro)")
  case (Inr tok)
  let ?rs = "routes_with W lb ro tok"
  obtain r s' where a: "authn_handler W corsOn ?rs req fresh_writer s = (r, s')" by (metis surj_pair)
  have "keyless r" if "(rq_method req, rq_path req) \<notin> set key_routes"
    using a
  proof (cases rule: authn_handler_cases)
    case (routes w)
    then show ?thesis using serve_keyless [OF that routes(1), of W lb ro tok s] by simp
  next
    case (preflight w)
    then show ?thesis by (simp add: keyless_def)
  qed
  then show ?thesis
    using Inr a by (auto simp: build_routes_def ask_sign_def keyless_def key_routes_def)
qed (simp add: build_routes_def ask_sign_def)

end
