(* ===== verification/CertRenewal.thy ===== *)
theory CertRenewal
  imports Storage Resolvers
begin

text \<open>
  \<open>internal/certrenewal\<close>: the renewer of authn's own client certificate. \<open>Ensure\<close> reads the
  stored certificate, issues a new one when none is usable or its renewal point has passed,
  and says how long to sleep; \<open>Run\<close> repeats it. \<open>signup.Do\<close> is a library call, of the world.
\<close>

text \<open>The constant 0.66, as the \<open>float64\<close> nearest to it.\<close>

definition DefaultThreshold :: f64 where "DefaultThreshold = (5944751508129055, 53)"
definition CertRenewalDefaultDuration :: duration where "CertRenewalDefaultDuration = hour * 8760"
definition minSleep :: duration where "minSleep = minute"
definition retryInterval :: duration where "retryInterval = minute"

text \<open>A \<open>float64\<close> as it reaches \<open>New\<close> from a flag or the environment.\<close>

datatype float_arg = NotPositive | Positive f64 | PositiveInfinity | NotANumber

record renewal_options =
  ro_rest_config :: bool \<comment> \<open>whether it is set\<close>
  ro_namespace :: string
  ro_ca_data :: string
  ro_server_url :: string
  ro_username :: string
  ro_groups :: "string list"
  ro_duration :: duration
  ro_threshold :: float_arg

text \<open>
  The thresholds \<open>New\<close> lets through: a fraction, or a NaN, whose every comparison is false
  (\<open>None\<close>).
\<close>

record renewer =
  rn_namespace :: string
  rn_secret :: string
  rn_ca_data :: string
  rn_server_url :: string
  rn_username :: string
  rn_groups :: "string list"
  rn_requested :: duration
  rn_threshold :: "f64 option"

definition admit_threshold :: "float_arg \<Rightarrow> f64 option" where
  "admit_threshold t =
     (case t of
        NotPositive \<Rightarrow> Some DefaultThreshold
      | PositiveInfinity \<Rightarrow> Some DefaultThreshold
      | Positive (m, k) \<Rightarrow> Some (if 2 ^ k \<le> m then DefaultThreshold else (m, k))
      | NotANumber \<Rightarrow> None)"

definition renewer_new :: "world \<Rightarrow> renewal_options \<Rightarrow> gerr + renewer" where
  "renewer_new W ro =
     (if \<not> ro_rest_config ro then Inl (Err [Str ''a kubernetes rest config is required''])
      else if ro_username ro = '''' then Inl (Err [Str ''a username is required''])
      else case (if ro_namespace ro = ''''
                 then (case operator_namespace W of
                         Inl e \<Rightarrow> Inl (Wrap [Str ''unable to resolve the namespace holding the clientconfig secret: ''] e [])
                       | Inr ns \<Rightarrow> Inr ns)
                 else Inr (ro_namespace ro)) of
        Inl e \<Rightarrow> Inl e
      | Inr ns \<Rightarrow>
          Inr \<lparr>rn_namespace = ns, rn_secret = client_config_secret_name W (ro_username ro),
               rn_ca_data = ro_ca_data ro, rn_server_url = ro_server_url ro,
               rn_username = ro_username ro, rn_groups = ro_groups ro,
               rn_requested = (if ro_duration ro \<le> 0 then CertRenewalDefaultDuration else ro_duration ro),
               rn_threshold = admit_threshold (ro_threshold ro)\<rparr>)"

text \<open>
  \<open>time.Duration(float64(d) * threshold)\<close>; the conversion of a NaN to an integer is the
  platform's.
\<close>

definition scale_by :: "world \<Rightarrow> f64 option \<Rightarrow> duration \<Rightarrow> duration" where
  "scale_by W t d = (case t of None \<Rightarrow> w_int64_of_nan W | Some f \<Rightarrow> scale f d)"

definition renew_at :: "world \<Rightarrow> time \<Rightarrow> time \<Rightarrow> f64 option \<Rightarrow> time" where
  "renew_at W notBefore notAfter threshold =
     (let lt = time_sub notAfter notBefore
      in if lt \<le> 0 then notAfter else time_add notBefore (scale_by W threshold lt))"

definition sleep_for :: "duration \<Rightarrow> duration" where
  "sleep_for d = (if d < minSleep then minSleep else d)"

text \<open>The stored certificate, with the Secret that holds it; \<open>Inr None\<close> is nothing usable.\<close>

definition secret_value :: "secret \<Rightarrow> string \<Rightarrow> string" where
  "secret_value s k = (case sec_data s k of None \<Rightarrow> '''' | Some v \<Rightarrow> v)"

definition own_selector :: "renewer \<Rightarrow> selector" where
  "own_selector r = \<lparr>sel_name = rn_secret r, sel_namespace = rn_namespace r, sel_key = ''''\<rparr>"

definition current :: "world \<Rightarrow> renewer \<Rightarrow> history \<Rightarrow> (gerr + (cert \<times> secret) option) \<times> history" where
  "current W r h =
     (case secrets_get W (own_selector r) h of
        (Inl e, h) \<Rightarrow> (if is_not_found e then Inr None else Inl e, h)
      | (Inr sec, h) \<Rightarrow>
          if sec_data sec ClientCertLabel = None \<or> secret_value sec ClientCertLabel = ''''
          then (Inr None, h)
          else (case parse_certificate_base64 W (secret_value sec ClientCertLabel) of
                  Inl _ \<Rightarrow> (Inr None, h)
                | Inr crt \<Rightarrow> (Inr (Some (crt, sec)), h)))"

text \<open>
  The annotations \<open>syncAnnotations\<close> wants. The map has at most these four keys, so its loop,
  in Go's unspecified order, looks at each that is set.
\<close>

definition annotation_keys :: "string list" where
  "annotation_keys = [NotBeforeAnnotation, NotAfterAnnotation, StrategyAnnotation, GroupsAnnotation]"

definition wanted_annotations :: "world \<Rightarrow> secret \<Rightarrow> (string \<rightharpoonup> string) option" where
  "wanted_annotations W sec =
     (let c = secret_value sec ClientCertLabel
      in case cert_validity_annotations W c of
           None \<Rightarrow> None
         | Some want \<Rightarrow> Some (case identity_annotations W StrategySelf c of
                                Inl _ \<Rightarrow> want | Inr identity \<Rightarrow> map_merge want identity))"

text \<open>Reading a key the Secret lacks gives the empty string, as in Go.\<close>

definition stale_annotations :: "(string \<rightharpoonup> string) \<Rightarrow> (string \<rightharpoonup> string) \<Rightarrow> bool" where
  "stale_annotations want have' =
     list_ex (\<lambda>k. case want k of None \<Rightarrow> False
        | Some v \<Rightarrow> (case have' k of None \<Rightarrow> '''' | Some x \<Rightarrow> x) \<noteq> v) annotation_keys"

text \<open>A failed write is logged, and the renewal goes on.\<close>

definition sync_annotations :: "world \<Rightarrow> secret \<Rightarrow> history \<Rightarrow> history" where
  "sync_annotations W sec h =
     (case wanted_annotations W sec of
        None \<Rightarrow> h
      | Some want \<Rightarrow>
          if \<not> stale_annotations want (sec_annotations sec) then h
          else snd (secrets_update W
                 (sec\<lparr>sec_annotations := map_merge (sec_annotations sec) want\<rparr>) h))"

definition annotate :: "world \<Rightarrow> renewer \<Rightarrow> history \<Rightarrow> history" where
  "annotate W r h =
     (case secrets_get W (own_selector r) h of
        (Inl _, h) \<Rightarrow> h
      | (Inr sec, h) \<Rightarrow> sync_annotations W sec h)"

definition renewal_signup :: "renewer \<Rightarrow> signup_opts" where
  "renewal_signup r =
     \<lparr>so_namespace = rn_namespace r, so_ca_data = rn_ca_data r, so_server_url = rn_server_url r,
      so_duration = rn_requested r, so_username = rn_username r, so_groups = rn_groups r\<rparr>"

definition renewal_issue :: "world \<Rightarrow> renewer \<Rightarrow> history \<Rightarrow> (duration \<times> gerr option) \<times> history" where
  "renewal_issue W r h =
     (case ask_signup W (renewal_signup r) h of
        (Inl e, h) \<Rightarrow>
          ((retryInterval, Some (Wrap [Str ''issuing a client certificate for '', Quo (rn_username r), Str '': ''] e [])), h)
      | (Inr certData, h) \<Rightarrow>
          let h = annotate W r h
          in (case parse_certificate_base64 W certData of
                Inl _ \<Rightarrow> ((sleep_for (scale_by W (rn_threshold r) (rn_requested r)), None), h)
              | Inr crt \<Rightarrow>
                  let due = renew_at W (ct_not_before crt) (ct_not_after crt) (rn_threshold r)
                  in (case ask_now W h of (now, h) \<Rightarrow> ((sleep_for (time_sub due now), None), h))))"

definition ensure :: "world \<Rightarrow> renewer \<Rightarrow> history \<Rightarrow> (duration \<times> gerr option) \<times> history" where
  "ensure W r h =
     (case current W r h of
        (Inl e, h) \<Rightarrow>
          ((retryInterval, Some (Wrap [Str ''reading the stored certificate from '', Quo (rn_secret r), Str '': ''] e [])), h)
      | (Inr None, h) \<Rightarrow> renewal_issue W r h
      | (Inr (Some (crt, sec)), h) \<Rightarrow>
          let due = renew_at W (ct_not_before crt) (ct_not_after crt) (rn_threshold r)
          in (case ask_now W h of (now, h) \<Rightarrow>
               let wait = time_sub due now
               in if 0 < wait
                  then (let h = sync_annotations W sec h in ((sleep_for wait, None), h))
                  else renewal_issue W r h))"

text \<open>
  \<open>Run\<close>, for the first \<open>n\<close> expirations of its timer before the context is done: the waits it
  slept, in order, with the last one cut short by the cancellation.
\<close>

fun renewer_run :: "world \<Rightarrow> renewer \<Rightarrow> nat \<Rightarrow> duration \<Rightarrow> history \<Rightarrow> duration list \<times> history" where
  "renewer_run W r 0 wait h = ([wait], h)"
| "renewer_run W r (Suc n) wait h =
     (case ensure W r h of ((wait', _), h) \<Rightarrow>
        case renewer_run W r n wait' h of (ws, h) \<Rightarrow> (wait # ws, h))"

section \<open>Facts\<close>

lemma sleep_for_floor: "minSleep \<le> sleep_for d"
  by (simp add: sleep_for_def)

lemma retry_floor: "minSleep \<le> retryInterval"
  by (simp add: minSleep_def retryInterval_def)

text \<open>The calls of a renewer: reads, certificate requests for itself, and annotations.\<close>

fun renewal_call :: "renewer \<Rightarrow> call \<Rightarrow> bool" where
  "renewal_call r (CSecretGet ns n) = (ns = rn_namespace r \<and> n = rn_secret r)"
| "renewal_call r CNow = True"
| "renewal_call r (CSignup so) = (so = renewal_signup r)"
| "renewal_call r (CSecretUpdate s) = True"
| "renewal_call r _ = False"

fun signs_up :: "call \<Rightarrow> bool" where
  "signs_up (CSignup _) = True"
| "signs_up _ = False"

definition signups :: "call list \<Rightarrow> nat" where
  "signups cs = length (filter signs_up cs)"

lemma signups_simps [simp]:
  "signups [] = 0" "signups (c # cs) = (if signs_up c then Suc (signups cs) else signups cs)"
  "signups (cs @ ds) = signups cs + signups ds"
  by (simp_all add: signups_def)

definition silent :: "renewer \<Rightarrow> call \<Rightarrow> bool" where
  "silent r c \<longleftrightarrow> renewal_call r c \<and> \<not> signs_up c"

lemma silent_signups: "list_all (silent r) cs \<Longrightarrow> signups cs = 0"
  by (induction cs) (simp_all add: silent_def)

lemma current_silent: "current W r h = (x, h') \<Longrightarrow> extends (silent r) h h'"
  by (auto simp: current_def secrets_get_def ask_secret_get_def own_selector_def silent_def
      split: option.splits sum.splits if_splits)

lemma sync_silent: "extends (silent r) h (sync_annotations W sec h)"
  by (auto simp: sync_annotations_def secrets_update_def ask_secret_update_def silent_def
      split: option.splits)

lemma annotate_silent: "extends (silent r) h (annotate W r h)"
  unfolding annotate_def secrets_get_def ask_secret_get_def
  by (auto simp: own_selector_def silent_def split: option.splits sum.splits
      intro: extends_trans [OF _ sync_silent])

lemma issue_run:
  assumes "renewal_issue W r h = ((wait, err), h')"
  shows "minSleep \<le> wait \<and> (\<exists>new. h' = h @ CSignup (renewal_signup r) # new \<and> list_all (silent r) new)"
proof -
  let ?h = "h @ [CSignup (renewal_signup r)]"
  obtain a where a: "annotate W r ?h = ?h @ a" "list_all (silent r) a"
    using annotate_silent [of r ?h W] by (auto simp: extends_def)
  show ?thesis
    using assms a(2) unfolding renewal_issue_def ask_signup_def ask_now_def Let_def
    by (auto simp: a(1) sleep_for_floor retry_floor silent_def split: sum.splits)
qed

lemma ensure_run:
  assumes "ensure W r h = ((wait, err), h')"
  shows "minSleep \<le> wait \<and> (\<exists>new. h' = h @ new \<and> list_all (renewal_call r) new
    \<and> signups new = (case current W r h of
         (Inl _, _) \<Rightarrow> 0
       | (Inr None, _) \<Rightarrow> 1
       | (Inr (Some (crt, _)), h1) \<Rightarrow>
           if w_now W h1 < renew_at W (ct_not_before crt) (ct_not_after crt) (rn_threshold r) then 0 else 1))"
proof -
  have pos: "0 < time_sub a b \<longleftrightarrow> b < a" for a b :: time
    by (auto simp: time_sub_def clamp64_def max_def min_def)
  have all: "list_all (silent r) xs \<Longrightarrow> list_all (renewal_call r) xs" for xs
    by (auto simp: list_all_iff silent_def)
  obtain x h1 where c: "current W r h = (x, h1)" by force
  obtain a where a: "h1 = h @ a" "list_all (silent r) a"
    using current_silent [OF c] by (auto simp: extends_def)
  show ?thesis
  proof (cases "case x of Inr (Some (crt, _)) \<Rightarrow>
      w_now W h1 < renew_at W (ct_not_before crt) (ct_not_after crt) (rn_threshold r) | Inl _ \<Rightarrow> True | _ \<Rightarrow> False")
    case True
    have "minSleep \<le> wait \<and> extends (silent r) h h'"
    proof (cases x)
      case (Inl e)
      with assms c current_silent [OF c] show ?thesis by (auto simp: ensure_def retry_floor)
    next
      case (Inr o')
      with True obtain crt sec where s: "x = Inr (Some (crt, sec))"
        by (cases o') auto
      have "extends (silent r) h (sync_annotations W sec (h1 @ [CNow]))"
        using extends_trans [OF extends_snoc [OF current_silent [OF c]] sync_silent]
        by (simp add: silent_def)
      with assms c s True show ?thesis
        by (auto simp: ensure_def ask_now_def Let_def pos sleep_for_floor)
    qed
    with c True show ?thesis
      by (auto simp: extends_def all silent_signups split: sum.splits option.splits)
  next
    case False
    have "\<exists>pre. renewal_issue W r (h1 @ pre) = ((wait, err), h') \<and> list_all (silent r) pre"
    proof (cases "x = Inr None")
      case True
      with assms c show ?thesis by (intro exI [of _ "[]"]) (auto simp: ensure_def)
    next
      case again: False
      then have "renewal_issue W r (h1 @ [CNow]) = ((wait, err), h')"
        using assms c False
        by (auto simp: ensure_def ask_now_def Let_def pos split: sum.splits option.splits prod.splits)
      then show ?thesis by (intro exI [of _ "[CNow]"]) (simp add: silent_def)
    qed
    then obtain pre where i: "renewal_issue W r (h1 @ pre) = ((wait, err), h')" "list_all (silent r) pre"
      by blast
    from issue_run [OF i(1)] a i(2) c False show ?thesis
      by (auto simp: all silent_signups split: sum.splits option.splits)
  qed
qed

lemma renewer_run_calls:
  "renewer_run W r n wait h = (ws, h') \<Longrightarrow>
   length ws = Suc n \<and> hd ws = wait \<and> list_all (\<lambda>w. minSleep \<le> w) (tl ws)
   \<and> (\<exists>new. h' = h @ new \<and> list_all (renewal_call r) new \<and> signups new \<le> n)"
proof (induction n arbitrary: wait h ws)
  case (Suc n)
  obtain w2 err h1 where e: "ensure W r h = ((w2, err), h1)"
    by (metis surj_pair)
  obtain ws' where s: "renewer_run W r n w2 h1 = (ws', h')" and ws: "ws = wait # ws'"
    using Suc.prems by (auto simp: e split: prod.splits)
  obtain a where a: "minSleep \<le> w2" "h1 = h @ a" "list_all (renewal_call r) a" "signups a \<le> 1"
    using ensure_run [OF e] by (auto split: sum.splits option.splits prod.splits if_splits)
  from Suc.IH [OF s] obtain b where b: "length ws' = Suc n" "hd ws' = w2" "list_all (\<lambda>w. minSleep \<le> w) (tl ws')"
    "h' = h1 @ b" "list_all (renewal_call r) b" "signups b \<le> n" by auto
  moreover from b have "list_all (\<lambda>w. minSleep \<le> w) ws'"
    using a(1) by (cases ws') auto
  ultimately show ?case using a ws by auto
qed auto

section \<open>Properties\<close>

text \<open>
  C19. The renewal point lies inside the certificate's own validity: for any threshold that is a
  fraction (which 0.66 is), it is no earlier than \<open>notBefore\<close> and no later than \<open>notAfter\<close>, with
  the rounding of both \<open>float64\<close> operations taken into account; and it is \<open>notAfter\<close> for a
  certificate with no lifetime.
\<close>

theorem renewal_point_within_certificate:
  assumes "proper_fraction f" and "plausible nb" and "plausible na"
  shows "if nb < na then nb \<le> renew_at W nb na (Some f) \<and> renew_at W nb na (Some f) \<le> na
         else renew_at W nb na (Some f) = na"
proof -
  define lt where "lt = time_sub na nb"
  have lt: "lt \<le> 0 \<longleftrightarrow> na \<le> nb" "lt \<le> max 0 (na - nb)" "lt < 2 ^ 63"
    unfolding lt_def time_sub_def clamp64_def by (auto simp: max_def min_def)
  show ?thesis
  proof (cases "nb < na")
    case True
    then have "0 \<le> scale f lt" "scale f lt \<le> lt"
      using scale_bounds [of lt f] assms(1) lt by auto
    moreover from this have "time_add nb (scale f lt) = nb + scale f lt"
      using lt(3) by (intro time_add_plain assms(2)) simp
    ultimately show ?thesis
      using True lt by (auto simp: renew_at_def Let_def lt_def [symmetric] scale_by_def)
  next
    case False
    with lt show ?thesis by (auto simp: renew_at_def Let_def lt_def [symmetric])
  qed
qed

theorem renewal_point_within_certificate_witness:
  "\<forall>W. 0 \<le> renew_at W 0 (30 * 24 * hour) (Some DefaultThreshold)
     \<and> renew_at W 0 (30 * 24 * hour) (Some DefaultThreshold) \<le> 30 * 24 * hour"
  using renewal_point_within_certificate [of DefaultThreshold 0 "30 * 24 * hour"]
  by (simp add: proper_fraction_def DefaultThreshold_def plausible_def)


text \<open>
  The renewal loop cannot spin: however often its timer fires, and whatever the signer
  grants, it sleeps at least a minute after every check and requests at most one certificate
  per check.
\<close>

lemma renewal_loop_never_spins:
  "case renewer_run W r n wait h of (ws, h') \<Rightarrow>
     length ws = Suc n \<and> list_all (\<lambda>w. minute \<le> w) (tl ws) \<and> signups (new_calls h h') \<le> n
     \<and> list_all (renewal_call r) (new_calls h h')"
  using renewer_run_calls [of W r n wait h] by (auto simp: minSleep_def split: prod.split)

end
