(* ===== verification/Sweep.thy ===== *)
theory Sweep
  imports Storage
begin

text \<open>
  \<open>internal/stepupsweep\<close>: deleting expired step-up Secrets, and the loop over namespaces
  it shares with the identity backfill (in World). A result carries the error \<open>Sweep\<close> returns beside it.
\<close>

definition SweepDefaultInterval :: duration where "SweepDefaultInterval = 5 * minute"
definition DefaultGrace :: duration where "DefaultGrace = 5 * minute"

section \<open>One Secret\<close>

record sweep_result =
  sw_scanned :: nat
  sw_deleted :: nat
  sw_skipped :: nat

definition sweep_zero :: sweep_result where
  "sweep_zero = \<lparr>sw_scanned = 0, sw_deleted = 0, sw_skipped = 0\<rparr>"

text \<open>
  The body of the inner loop. \<open>Inl\<close> ends the pass with an error; the clock is read only for a
  Secret whose certificate parses.
\<close>

definition sweep_secret ::
  "world \<Rightarrow> duration \<Rightarrow> string \<Rightarrow> secret \<Rightarrow> sweep_result \<Rightarrow> history
     \<Rightarrow> (gerr option \<times> sweep_result) \<times> history" where
  "sweep_secret W grace ns sec res h =
     (if \<not> is_step_up_secret_name (sec_name sec) then ((None, res), h)
      else
        let res = res\<lparr>sw_scanned := Suc (sw_scanned res)\<rparr>
        in (case parse_certificate_base64 W
                (case sec_data sec ClientCertLabel of None \<Rightarrow> '''' | Some v \<Rightarrow> v) of
              Inl _ \<Rightarrow> ((None, res\<lparr>sw_skipped := Suc (sw_skipped res)\<rparr>), h)
            | Inr crt \<Rightarrow>
           (case ask_now W h of (now, h) \<Rightarrow>
              if now < time_add (ct_not_after crt) grace then ((None, res), h)
              else (case ask_secret_delete W ns (sec_name sec) (Some (sec_uid sec, sec_version sec)) h of
                      (None, h) \<Rightarrow> ((None, res\<lparr>sw_deleted := Suc (sw_deleted res)\<rparr>), h)
                    | (Some e, h) \<Rightarrow>
                        if is_conflict e \<or> is_not_found e
                        then ((None, res\<lparr>sw_skipped := Suc (sw_skipped res)\<rparr>), h)
                        else ((Some e, res), h)))))"

fun sweep_secrets ::
  "world \<Rightarrow> duration \<Rightarrow> string \<Rightarrow> secret list \<Rightarrow> sweep_result \<Rightarrow> history
     \<Rightarrow> (gerr option \<times> sweep_result) \<times> history" where
  "sweep_secrets W grace ns [] res h = ((None, res), h)"
| "sweep_secrets W grace ns (sec # secs) res h =
     (case sweep_secret W grace ns sec res h of
        ((Some e, res), h) \<Rightarrow> ((Some e, res), h)
      | ((None, res), h) \<Rightarrow> sweep_secrets W grace ns secs res h)"

fun sweep_namespaces ::
  "world \<Rightarrow> duration \<Rightarrow> string list \<Rightarrow> sweep_result \<Rightarrow> history
     \<Rightarrow> (gerr option \<times> sweep_result) \<times> history" where
  "sweep_namespaces W grace [] res h = ((None, res), h)"
| "sweep_namespaces W grace (ns # nss) res h =
     (case ask_secret_list W ns h of
        (Inl e, h) \<Rightarrow> ((Some e, res), h)
      | (Inr secs, h) \<Rightarrow>
     (case sweep_secrets W grace ns secs res h of
        ((Some e, res), h) \<Rightarrow> ((Some e, res), h)
      | ((None, res), h) \<Rightarrow> sweep_namespaces W grace nss res h))"

definition sweep ::
  "world \<Rightarrow> string list \<Rightarrow> duration \<Rightarrow> history \<Rightarrow> (gerr option \<times> sweep_result) \<times> history" where
  "sweep W nss grace h =
     sweep_namespaces W (if grace \<le> 0 then DefaultGrace else grace) (distinct_namespaces {} nss) sweep_zero h"

text \<open>\<open>Run\<close>, for \<open>n\<close> further ticks before the context is done.\<close>

fun sweep_run :: "world \<Rightarrow> string list \<Rightarrow> duration \<Rightarrow> nat \<Rightarrow> history \<Rightarrow> history" where
  "sweep_run W nss grace 0 h = snd (sweep W nss grace h)"
| "sweep_run W nss grace (Suc n) h = sweep_run W nss grace n (snd (sweep W nss grace h))"

section \<open>Facts\<close>

text \<open>
  A deletion \<open>k\<close> made after history \<open>h\<close> is justified: an earlier listing of its namespace, in
  \<open>h\<close>, answered the Secret it names, whose name is a step-up one and whose certificate, read
  from that Secret, had been expired for the grace period at the clock reading that ends \<open>h\<close>.
\<close>

definition justified :: "world \<Rightarrow> duration \<Rightarrow> string list \<Rightarrow> history \<Rightarrow> call \<Rightarrow> bool" where
  "justified W grace nss h k \<longleftrightarrow>
     (\<exists>ns sec crt h0 rest secs.
        k = CSecretDelete ns (sec_name sec) (Some (sec_uid sec, sec_version sec))
        \<and> ns \<in> set nss \<and> ns \<noteq> ''''
        \<and> w_secret_list W h0 ns = Inr secs \<and> sec \<in> set secs
        \<and> is_step_up_secret_name (sec_name sec)
        \<and> parse_certificate_base64 W
            (case sec_data sec ClientCertLabel of None \<Rightarrow> '''' | Some v \<Rightarrow> v) = Inr crt
        \<and> h = h0 @ CSecretList ns # rest @ [CNow]
        \<and> time_add (ct_not_after crt) grace \<le> w_now W (h0 @ CSecretList ns # rest))"

text \<open>Every call of a pass is a listing, a reading of the clock or a justified deletion.\<close>

definition sweep_step :: "world \<Rightarrow> duration \<Rightarrow> string list \<Rightarrow> history \<Rightarrow> call \<Rightarrow> bool" where
  "sweep_step W grace nss h k \<longleftrightarrow>
     k = CNow \<or> (\<exists>ns. k = CSecretList ns \<and> ns \<in> set nss \<and> ns \<noteq> '''') \<or> justified W grace nss h k"

lemma sweep_secret_steps:
  assumes "sweep_secret W grace ns sec res h = (r, h')"
    and "w_secret_list W h0 ns = Inr secs" "sec \<in> set secs" "ns \<in> set nss" "ns \<noteq> ''''"
    and "h = h0 @ CSecretList ns # rest"
  shows "steps_from (sweep_step W grace nss) h h'"
proof -
  have now: "steps_from (sweep_step W grace nss) h (h @ [CNow])"
    by (rule steps_one) (simp add: sweep_step_def)
  have del: "steps_from (sweep_step W grace nss) h
      (h @ [CNow, CSecretDelete ns (sec_name sec) (Some (sec_uid sec, sec_version sec))])"
    if "is_step_up_secret_name (sec_name sec)"
      "parse_certificate_base64 W (case sec_data sec ClientCertLabel of None \<Rightarrow> '''' | Some v \<Rightarrow> v) = Inr crt"
      "\<not> w_now W h < time_add (ct_not_after crt) grace" for crt
  proof -
    have "justified W grace nss (h @ [CNow])
        (CSecretDelete ns (sec_name sec) (Some (sec_uid sec, sec_version sec)))"
      unfolding justified_def using that assms(2-6)
      by (intro exI [of _ ns] exI [of _ sec] exI [of _ crt] exI [of _ h0] exI [of _ rest] exI [of _ secs])
        (simp add: not_less)
    then show ?thesis
      using steps_snoc [OF now] by (simp add: sweep_step_def)
  qed
  from assms(1) now del steps_none show ?thesis
    unfolding sweep_secret_def ask_now_def ask_secret_delete_def Let_def
    by (auto split: if_splits sum.splits option.splits)
qed

lemma sweep_secrets_steps:
  "sweep_secrets W grace ns xs res h = (r, h') \<Longrightarrow> set xs \<subseteq> set secs \<Longrightarrow>
   w_secret_list W h0 ns = Inr secs \<Longrightarrow> ns \<in> set nss \<Longrightarrow> ns \<noteq> '''' \<Longrightarrow>
   h = h0 @ CSecretList ns # rest \<Longrightarrow> steps_from (sweep_step W grace nss) h h'"
proof (induction W grace ns xs res h arbitrary: rest rule: sweep_secrets.induct)
  case (2 W grace ns x xs res h)
  obtain r1 res1 h1 where s: "sweep_secret W grace ns x res h = ((r1, res1), h1)"
    by (metis surj_pair)
  then have one: "steps_from (sweep_step W grace nss) h h1"
    using "2.prems" by (intro sweep_secret_steps [OF s]) auto
  obtain more where more: "h1 = h0 @ CSecretList ns # rest @ more"
    using steps_extend [OF one] "2.prems" by auto
  show ?case
  proof (cases r1)
    case None
    with "2.IH" [OF s [symmetric]] s "2.prems" more have "steps_from (sweep_step W grace nss) h1 h'"
      by auto
    with one show ?thesis by (rule steps_trans)
  qed (use s one "2.prems" in auto)
qed (auto intro: steps_none)

lemma sweep_namespaces_steps:
  "sweep_namespaces W grace xs res h = (r, h') \<Longrightarrow> set xs \<subseteq> set nss - {''''} \<Longrightarrow>
   steps_from (sweep_step W grace nss) h h'"
proof (induction W grace xs res h rule: sweep_namespaces.induct)
  case (2 W grace ns xs res h)
  have one: "steps_from (sweep_step W grace nss) h (h @ [CSecretList ns])"
    using "2.prems" by (intro steps_one) (auto simp: sweep_step_def)
  show ?case
  proof (cases "w_secret_list W h ns")
    case (Inl e)
    with "2.prems" one show ?thesis by (auto simp: ask_secret_list_def)
  next
    case (Inr secs)
    then have l: "ask_secret_list W ns h = (Inr secs, h @ [CSecretList ns])"
      by (simp add: ask_secret_list_def)
    obtain r1 res1 h1 where s: "sweep_secrets W grace ns secs res (h @ [CSecretList ns]) = ((r1, res1), h1)"
      by (metis surj_pair)
    have two: "steps_from (sweep_step W grace nss) h h1"
      by (rule steps_trans [OF one sweep_secrets_steps [OF s, of secs h nss "[]"]])
        (use Inr "2.prems" in auto)
    show ?thesis
    proof (cases r1)
      case None
      with "2.IH" [OF l [symmetric] refl s [symmetric]] s l "2.prems"
      have "steps_from (sweep_step W grace nss) h1 h'" by auto
      with two show ?thesis by (rule steps_trans)
    qed (use s l two "2.prems" in auto)
  qed
qed (auto intro: steps_none)

lemma sweep_steps:
  "sweep W nss grace h = (r, h') \<Longrightarrow>
     steps_from (sweep_step W (if grace \<le> 0 then DefaultGrace else grace) nss) h h'"
  unfolding sweep_def by (rule sweep_namespaces_steps) (auto simp: distinct_namespaces_set)

section \<open>Properties\<close>

text \<open>
  C17. A sweep deletes only what it may: each of its calls is a listing of a configured namespace,
  a reading of the clock, or the deletion of a Secret it listed there, whose name is a step-up
  credential's, whose stored certificate had been expired for the grace period at the clock
  reading just before, and on condition that the object is still the one listed. A session
  credential, an unreadable one or one rewritten since is never deleted.
\<close>

theorem sweep_deletes_only_expired_step_ups:
  "case sweep W nss grace h of (_, h') \<Rightarrow>
     \<exists>new. h' = h @ new
       \<and> list_all (\<lambda>i. sweep_step W (if grace \<le> 0 then DefaultGrace else grace) nss (h @ take i new) (new ! i))
           [0..<length new]"
proof -
  obtain r h' where s: "sweep W nss grace h = (r, h')" by (metis surj_pair)
  from sweep_steps [OF this] s show ?thesis
    using steps_extend steps_prefix by (fastforce simp: list_all_iff)
qed

end
