(* ===== verification/Backfill.thy ===== *)
theory Backfill
  imports Storage Resolvers
begin

text \<open>
  \<open>internal/identitybackfill\<close>: stamping the identity annotations onto clientconfig Secrets
  written before authn recorded them. \<open>Lookup\<close> is the interface it asks for the declared
  identities, and \<open>cluster_lookup\<close> its implementation on the resolvers.
\<close>

section \<open>The lookup interface\<close>

record lookup =
  lk_service_account :: "string \<Rightarrow> history \<Rightarrow> (gerr + bool) \<times> history"
  lk_basic_user :: "string \<Rightarrow> history \<Rightarrow> (gerr + bool) \<times> history"

definition exists_of :: "(gerr + 'a) \<times> history \<Rightarrow> (gerr + bool) \<times> history" where
  "exists_of r =
     (case r of
        (Inr _, h) \<Rightarrow> (Inr True, h)
      | (Inl e, h) \<Rightarrow> (if is_not_found e then Inr False else Inl e, h))"

definition cluster_lookup :: "world \<Rightarrow> lookup" where
  "cluster_lookup W =
     \<lparr>lk_service_account = (\<lambda>u h. exists_of (service_account_mapping_get W u h)),
      lk_basic_user = (\<lambda>u h. exists_of (user_get W u h))\<rparr>"

section \<open>The strategy and the annotations a Secret lacks\<close>

definition strategy_of :: "lookup \<Rightarrow> string \<Rightarrow> string \<Rightarrow> history \<Rightarrow> (gerr + strategy) \<times> history" where
  "strategy_of L username self h =
     (if username = self then (Inr StrategySelf, h)
      else (case lk_service_account L username h of
        (Inl e, h) \<Rightarrow>
          (Inl (Wrap [Str ''looking up a ServiceAccount mapping for '', Quo username, Str '': ''] e []), h)
      | (Inr sa, h) \<Rightarrow>
     (case lk_basic_user L username h of
        (Inl e, h) \<Rightarrow> (Inl (Wrap [Str ''looking up a basic User for '', Quo username, Str '': ''] e []), h)
      | (Inr basic, h) \<Rightarrow>
          (Inr (if sa \<and> \<not> basic then StrategyServiceAccount
                else if basic \<and> \<not> sa then StrategyBasic
                else StrategyUnknown), h))))"

definition stored_certificate :: "secret \<Rightarrow> string" where
  "stored_certificate sec = (case sec_data sec ClientCertLabel of None \<Rightarrow> '''' | Some v \<Rightarrow> v)"

definition missing_annotations ::
  "world \<Rightarrow> lookup \<Rightarrow> secret \<Rightarrow> string \<Rightarrow> history \<Rightarrow> (gerr + (string \<rightharpoonup> string)) \<times> history" where
  "missing_annotations W L sec self h =
     (let have' = sec_annotations sec
      in if have' StrategyAnnotation \<noteq> None \<and> have' GroupsAnnotation \<noteq> None then (Inr Map.empty, h)
      else (case parse_certificate_base64 W (stored_certificate sec) of
        Inl e \<Rightarrow> (Inl (Wrap [Str ''reading the stored certificate: ''] e []), h)
      | Inr crt \<Rightarrow>
     (case strategy_of L (ct_common_name crt) self h of
        (Inl e, h) \<Rightarrow> (Inl e, h)
      | (Inr strategy, h) \<Rightarrow>
     (case identity_annotations W strategy (stored_certificate sec) of
        Inl e \<Rightarrow> (Inl e, h)
      | Inr want \<Rightarrow> (Inr (\<lambda>k. if have' k = None then want k else None), h)))))"

text \<open>\<open>len(missing) == 0\<close>: only these two annotations are ever missing.\<close>

definition nothing_missing :: "(string \<rightharpoonup> string) \<Rightarrow> bool" where
  "nothing_missing m \<longleftrightarrow> m StrategyAnnotation = None \<and> m GroupsAnnotation = None"

section \<open>The pass\<close>

record backfill_result =
  bf_scanned :: nat
  bf_stamped :: nat
  bf_skipped :: nat

definition backfill_zero :: backfill_result where
  "backfill_zero = \<lparr>bf_scanned = 0, bf_stamped = 0, bf_skipped = 0\<rparr>"

definition clientConfigSuffix :: string where "clientConfigSuffix = ''-clientconfig''"

definition backfill_secret ::
  "world \<Rightarrow> lookup \<Rightarrow> string \<Rightarrow> secret \<Rightarrow> backfill_result \<Rightarrow> history \<Rightarrow> backfill_result \<times> history" where
  "backfill_secret W L self sec res h =
     (if \<not> has_suffix (sec_name sec) clientConfigSuffix then (res, h)
      else
        let res = res\<lparr>bf_scanned := Suc (bf_scanned res)\<rparr>
        in (case missing_annotations W L sec self h of
              (Inl _, h) \<Rightarrow> (res\<lparr>bf_skipped := Suc (bf_skipped res)\<rparr>, h)
            | (Inr missing, h) \<Rightarrow>
                if nothing_missing missing then (res, h)
                else (case secrets_update W
                             (sec\<lparr>sec_annotations := map_merge (sec_annotations sec) missing\<rparr>) h of
                        (Some _, h) \<Rightarrow> (res\<lparr>bf_skipped := Suc (bf_skipped res)\<rparr>, h)
                      | (None, h) \<Rightarrow> (res\<lparr>bf_stamped := Suc (bf_stamped res)\<rparr>, h))))"

fun backfill_secrets ::
  "world \<Rightarrow> lookup \<Rightarrow> string \<Rightarrow> secret list \<Rightarrow> backfill_result \<Rightarrow> history \<Rightarrow> backfill_result \<times> history" where
  "backfill_secrets W L self [] res h = (res, h)"
| "backfill_secrets W L self (sec # secs) res h =
     (case backfill_secret W L self sec res h of (res, h) \<Rightarrow> backfill_secrets W L self secs res h)"

fun backfill_namespaces ::
  "world \<Rightarrow> lookup \<Rightarrow> string \<Rightarrow> string list \<Rightarrow> backfill_result \<Rightarrow> history
     \<Rightarrow> (gerr option \<times> backfill_result) \<times> history" where
  "backfill_namespaces W L self [] res h = ((None, res), h)"
| "backfill_namespaces W L self (ns # nss) res h =
     (case secrets_list W ns h of
        (Inl e, h) \<Rightarrow> ((Some (Wrap [Str ''listing secrets in '', Str ns, Str '': ''] e []), res), h)
      | (Inr secs, h) \<Rightarrow>
     (case backfill_secrets W L self secs res h of (res, h) \<Rightarrow> backfill_namespaces W L self nss res h))"

text \<open>\<open>Run\<close>; no lookup means the cluster's.\<close>

definition backfill_run ::
  "world \<Rightarrow> lookup option \<Rightarrow> string list \<Rightarrow> string \<Rightarrow> history
     \<Rightarrow> (gerr option \<times> backfill_result) \<times> history" where
  "backfill_run W lk nss self h =
     backfill_namespaces W (case lk of None \<Rightarrow> cluster_lookup W | Some L \<Rightarrow> L) self
       (distinct_namespaces {} nss) backfill_zero h"

section \<open>The interface's contract\<close>

text \<open>What a pass relies on of a lookup: that it only reads.\<close>

locale identity_lookup =
  fixes L :: lookup
  assumes service_account_reads: "lk_service_account L u h = (r, h') \<Longrightarrow> extends quiet h h'"
    and basic_user_reads: "lk_basic_user L u h = (r, h') \<Longrightarrow> extends quiet h h'"
begin

lemma strategy_of_reads: "strategy_of L u self h = (r, h') \<Longrightarrow> extends quiet h h'"
  by (auto simp: strategy_of_def split: if_splits prod.splits sum.splits
      dest!: service_account_reads basic_user_reads intro: extends_trans)

lemma missing_annotations_reads: "missing_annotations W L sec self h = (r, h') \<Longrightarrow> extends quiet h h'"
  by (auto simp: missing_annotations_def Let_def split: if_splits prod.splits sum.splits
      dest!: strategy_of_reads)

end

lemma exists_of_history: "snd (exists_of r) = snd r"
  by (auto simp: exists_of_def split: prod.splits sum.splits)

interpretation cluster: identity_lookup "cluster_lookup W" for W
proof unfold_locales
  fix u h r h'
  assume "lk_service_account (cluster_lookup W) u h = (r, h')"
  then have "snd (service_account_mapping_get W u h) = h'"
    using exists_of_history [of "service_account_mapping_get W u h"] by (simp add: cluster_lookup_def)
  then show "extends quiet h h'"
    by (auto simp: service_account_mapping_get_def ask_sa_get_def split: sum.splits)
next
  fix u h r h'
  assume "lk_basic_user (cluster_lookup W) u h = (r, h')"
  then have "snd (user_get W u h) = h'"
    using exists_of_history [of "user_get W u h"] by (simp add: cluster_lookup_def)
  then show "extends quiet h h'"
    using resolvers_quiet(1) [of W u h "fst (user_get W u h)"] by (metis prod.collapse)
qed

section \<open>What a pass writes\<close>

text \<open>
  The annotations added to a Secret: each absent before, the groups those of the certificate
  the Secret holds, the strategy one of the four a backfill can name.
\<close>

definition fills :: "world \<Rightarrow> secret \<Rightarrow> (string \<rightharpoonup> string) \<Rightarrow> bool" where
  "fills W sec missing \<longleftrightarrow>
     (\<exists>crt. parse_certificate_base64 W (stored_certificate sec) = Inr crt
        \<and> (\<forall>k v. missing k = Some v \<longrightarrow> sec_annotations sec k = None
             \<and> (k = GroupsAnnotation \<and> v = join [newline] (ct_organization crt)
                \<or> k = StrategyAnnotation
                  \<and> v \<in> {StrategySelf, StrategyServiceAccount, StrategyBasic, StrategyUnknown})))"

definition backfill_step :: "world \<Rightarrow> string list \<Rightarrow> history \<Rightarrow> call \<Rightarrow> bool" where
  "backfill_step W nss h k \<longleftrightarrow> quiet k
     \<or> (\<exists>ns sec secs h0 rest missing.
          k = CSecretUpdate (sec\<lparr>sec_annotations := map_merge (sec_annotations sec) missing\<rparr>)
          \<and> ns \<in> set nss \<and> ns \<noteq> '''' \<and> h = h0 @ CSecretList ns # rest
          \<and> w_secret_list W h0 ns = Inr secs \<and> sec \<in> set secs
          \<and> has_suffix (sec_name sec) clientConfigSuffix \<and> fills W sec missing)"

lemma steps_if_quiet: "extends quiet h h' \<Longrightarrow> steps_from (backfill_step W nss) h h'"
  by (erule steps_of_extends) (simp add: backfill_step_def)

lemma strategy_of_values:
  "strategy_of L u self h = (Inr s, h') \<Longrightarrow>
   s \<in> {StrategySelf, StrategyServiceAccount, StrategyBasic, StrategyUnknown}"
  by (auto simp: strategy_of_def split: if_splits prod.splits sum.splits)

lemma missing_annotations_fills:
  assumes "missing_annotations W L sec self h = (Inr missing, h')" and "\<not> nothing_missing missing"
  shows "fills W sec missing"
proof -
  from assms obtain crt s h1 want where
    c: "parse_certificate_base64 W (stored_certificate sec) = Inr crt"
    and s: "strategy_of L (ct_common_name crt) self h = (Inr s, h1)"
    and w: "identity_annotations W s (stored_certificate sec) = Inr want"
    and m: "missing = (\<lambda>k. if sec_annotations sec k = None then want k else None)"
    by (auto simp: missing_annotations_def Let_def nothing_missing_def split: if_splits prod.splits sum.splits)
  from w c have "want = [StrategyAnnotation \<mapsto> s, GroupsAnnotation \<mapsto> join [newline] (ct_organization crt)]"
    by (auto simp: identity_annotations_def split: if_splits option.splits)
  with c m strategy_of_values [OF s] show ?thesis
    unfolding fills_def by (intro exI [of _ crt]) (auto split: if_splits)
qed

context identity_lookup begin

lemma backfill_secret_steps:
  assumes "backfill_secret W L self sec res h = (r, h')"
    and "w_secret_list W h0 ns = Inr secs" "sec \<in> set secs" "ns \<in> set nss" "ns \<noteq> ''''"
    and "h = h0 @ CSecretList ns # rest"
  shows "steps_from (backfill_step W nss) h h'"
proof (cases "has_suffix (sec_name sec) clientConfigSuffix")
  case True
  obtain x h1 where x: "missing_annotations W L sec self h = (x, h1)" by force
  note q = missing_annotations_reads [OF x]
  show ?thesis
  proof (cases "h' = h1")
    case False
    then obtain m where m: "x = Inr m" "\<not> nothing_missing m"
      "h' = h1 @ [CSecretUpdate (sec\<lparr>sec_annotations := map_merge (sec_annotations sec) m\<rparr>)]"
      using assms(1) True x
      by (auto simp: backfill_secret_def Let_def secrets_update_def ask_secret_update_def
          split: sum.splits if_splits option.splits prod.splits)
    have "fills W sec m" using missing_annotations_fills [of W L sec self h m h1] x m by simp
    moreover obtain more where "h1 = h0 @ CSecretList ns # rest @ more"
      using q assms(6) by (auto simp: extends_def)
    ultimately have "backfill_step W nss h1
        (CSecretUpdate (sec\<lparr>sec_annotations := map_merge (sec_annotations sec) m\<rparr>))"
      using True assms(2-5) unfolding backfill_step_def by blast
    with steps_if_quiet [OF q] show ?thesis unfolding m(3) by (rule steps_snoc)
  qed (use q steps_if_quiet in simp)
next
  case False
  with assms(1) show ?thesis by (auto simp: backfill_secret_def intro: steps_none)
qed

lemma backfill_secrets_steps:
  "backfill_secrets W L self xs res h = (r, h') \<Longrightarrow> set xs \<subseteq> set secs \<Longrightarrow>
   w_secret_list W h0 ns = Inr secs \<Longrightarrow> ns \<in> set nss \<Longrightarrow> ns \<noteq> '''' \<Longrightarrow>
   h = h0 @ CSecretList ns # rest \<Longrightarrow> steps_from (backfill_step W nss) h h'"
proof (induction xs arbitrary: res h rest)
  case (Cons x xs)
  obtain res1 h1 where s: "backfill_secret W L self x res h = (res1, h1)" by force
  then have one: "steps_from (backfill_step W nss) h h1"
    using Cons.prems by (intro backfill_secret_steps [OF s]) auto
  obtain more where "h1 = h0 @ CSecretList ns # rest @ more"
    using steps_extend [OF one] Cons.prems by auto
  with Cons.IH [of res1 h1 "rest @ more"] s Cons.prems have "steps_from (backfill_step W nss) h1 h'"
    by auto
  with one show ?case by (rule steps_trans)
qed (auto intro: steps_none)

lemma backfill_namespaces_steps:
  "backfill_namespaces W L self xs res h = (r, h') \<Longrightarrow> set xs \<subseteq> set nss - {''''} \<Longrightarrow>
   steps_from (backfill_step W nss) h h'"
proof (induction xs arbitrary: res h)
  case (Cons ns xs)
  show ?case
  proof (cases "secrets_list W ns h")
    case (Pair x h1)
    have q: "extends quiet h h1"
      using Pair by (auto simp: secrets_list_def ask_secret_list_def split: option.splits)
    show ?thesis
    proof (cases x)
      case (Inl e)
      with Pair Cons.prems steps_if_quiet [OF q] show ?thesis by simp
    next
      case (Inr secs)
      then have l: "w_secret_list W h ns = Inr secs" "h1 = h @ CSecretList ns # []"
        using Pair by (auto simp: secrets_list_def ask_secret_list_def split: option.splits)
      obtain res2 h2 where s: "backfill_secrets W L self secs res h1 = (res2, h2)" by force
      have "steps_from (backfill_step W nss) h1 h2"
        using Cons.prems by (intro backfill_secrets_steps [OF s subset_refl l(1) _ _ l(2)]) auto
      moreover have "steps_from (backfill_step W nss) h2 h'"
        using Cons.IH [of res2 h2] Cons.prems Pair Inr s by auto
      ultimately show ?thesis
        using steps_if_quiet [OF q] steps_trans by blast
    qed
  qed
qed (auto intro: steps_none)

end

lemma backfill_run_steps:
  "backfill_run W None nss self h = (r, h') \<Longrightarrow> steps_from (backfill_step W nss) h h'"
  unfolding backfill_run_def
  by (rule cluster.backfill_namespaces_steps) (auto simp: distinct_namespaces_set)

section \<open>Properties\<close>


end
