(* ===== verification/Env.thy ===== *)
theory Env
  imports GoTime GoString
begin

text \<open>
  \<open>internal/env\<close>: typed settings from the environment, and the parsers of \<open>strconv\<close> and \<open>time\<close>
  behind them. The environment is the map \<open>os.LookupEnv\<close> reads. \<open>strconv.ParseFloat\<close> is a
  parameter: a floating-point value is only passed on.
\<close>

type_synonym environ = "string \<rightharpoonup> string"

section \<open>\<open>strconv\<close>\<close>

definition is_digit :: "char \<Rightarrow> bool" where
  "is_digit c \<longleftrightarrow> 48 \<le> byte_of c \<and> byte_of c \<le> 57"

definition digit_value :: "char \<Rightarrow> nat" where
  "digit_value c = byte_of c - 48"

definition decimal_value :: "string \<Rightarrow> nat" where
  "decimal_value s = foldl (\<lambda>n c. n * 10 + digit_value c) 0 s"

definition cut_sign :: "string \<Rightarrow> bool \<times> string" where
  "cut_sign s =
     (case s of
        c # cs \<Rightarrow> if c = CHR ''-'' then (True, cs) else if c = CHR ''+'' then (False, cs) else (False, s)
      | [] \<Rightarrow> (False, s))"

text \<open>\<open>Atoi\<close>: \<open>None\<close> for a syntax error or a value out of the range of a 64-bit \<open>int\<close>.\<close>

definition atoi :: "string \<Rightarrow> int option" where
  "atoi s =
     (case cut_sign s of (neg, ds) \<Rightarrow>
        if ds = [] \<or> \<not> list_all is_digit ds then None
        else let n = int (decimal_value ds)
             in if neg then (if n \<le> 2 ^ 63 then Some (- n) else None)
                else (if n < 2 ^ 63 then Some n else None))"

definition parse_bool :: "string \<Rightarrow> bool option" where
  "parse_bool s =
     (if s \<in> {''1'', ''t'', ''T'', ''true'', ''TRUE'', ''True''} then Some True
      else if s \<in> {''0'', ''f'', ''F'', ''false'', ''FALSE'', ''False''} then Some False
      else None)"

section \<open>\<open>time.ParseDuration\<close>\<close>

definition duration_unit :: "string \<Rightarrow> nat option" where
  "duration_unit u =
     (if u = ''ns'' then Some 1
      else if u = ''us'' then Some 1000
      else if u = [char_of (0xC2::nat), char_of (0xB5::nat), CHR ''s''] then Some 1000
      else if u = [char_of (0xCE::nat), char_of (0xBC::nat), CHR ''s''] then Some 1000
      else if u = ''ms'' then Some 1000000
      else if u = ''s'' then Some 1000000000
      else if u = ''m'' then Some 60000000000
      else if u = ''h'' then Some 3600000000000
      else None)"

text \<open>\<open>leadingInt\<close>; \<open>None\<close> is its overflow error.\<close>

fun leading_int :: "nat \<Rightarrow> string \<Rightarrow> (nat \<times> string) option" where
  "leading_int x [] = Some (x, [])"
| "leading_int x (c # cs) =
     (if \<not> is_digit c then Some (x, c # cs)
      else if 2 ^ 63 div 10 < x then None
      else let x = x * 10 + digit_value c
           in if 2 ^ 63 < x then None else leading_int x cs)"

text \<open>\<open>leadingFraction\<close>: the digits that fit, and the power of ten they are over.\<close>

fun leading_fraction :: "bool \<Rightarrow> nat \<Rightarrow> nat \<Rightarrow> string \<Rightarrow> nat \<times> nat \<times> string" where
  "leading_fraction full x sc [] = (x, sc, [])"
| "leading_fraction full x sc (c # cs) =
     (if \<not> is_digit c then (x, sc, c # cs)
      else if full then leading_fraction full x sc cs
      else if (2 ^ 63 - 1) div 10 < x then leading_fraction True x sc cs
      else let y = x * 10 + digit_value c
           in if 2 ^ 63 < y then leading_fraction True x sc cs
              else leading_fraction False y (round53 (sc * 10)) cs)"

text \<open>
  \<open>uint64(float64(f) * (float64(unit) / sc))\<close>. The quotient is computed to more than 53
  bits, with a last bit that says whether something was cut off, and rounded; a quotient too
  small to be a normal number gives 0 here as it does there.
\<close>

definition fraction_ns :: "nat \<Rightarrow> nat \<Rightarrow> nat \<Rightarrow> nat" where
  "fraction_ns f unit sc =
     (let k = 56 + bit_len sc;
          n = unit * 2 ^ k;
          q = round53 (2 * (n div sc) + (if n mod sc = 0 then 0 else 1))
      in round53 (round53 f * q) div 2 ^ (k + 1))"

definition unit_char :: "char \<Rightarrow> bool" where
  "unit_char c \<longleftrightarrow> c \<noteq> CHR ''.'' \<and> \<not> is_digit c"

text \<open>One number with its unit, and what follows it; \<open>None\<close> is any of the errors.\<close>

definition duration_item :: "string \<Rightarrow> (nat \<times> string) option" where
  "duration_item s =
     (if s = [] \<or> \<not> (hd s = CHR ''.'' \<or> is_digit (hd s)) then None
      else case leading_int 0 s of
        None \<Rightarrow> None
      | Some (v, s1) \<Rightarrow>
          let pre = length s1 \<noteq> length s;
              (f, sc, s2) = (if s1 \<noteq> [] \<and> hd s1 = CHR ''.'' then leading_fraction False 0 1 (tl s1)
                                else (0, 1, s1));
              post = (s1 \<noteq> [] \<and> hd s1 = CHR ''.'' \<and> length s2 \<noteq> length (tl s1));
              u = takeWhile unit_char s2;
              rest = dropWhile unit_char s2
          in if \<not> pre \<and> \<not> post then None
             else if u = [] then None
             else case duration_unit u of
               None \<Rightarrow> None
             | Some unit \<Rightarrow>
                 if 2 ^ 63 div unit < v then None
                 else let v = v * unit + (if 0 < f then fraction_ns f unit sc else 0)
                      in if 2 ^ 63 < v then None else Some (v, rest))"

lemma leading_int_length: "leading_int x s = Some (v, r) \<Longrightarrow> length r \<le> length s"
  by (induction x s rule: leading_int.induct) (auto simp: Let_def split: if_splits)

lemma leading_fraction_length: "length (snd (snd (leading_fraction full x sc s))) \<le> length s"
  by (induction full x sc s rule: leading_fraction.induct) (auto simp: Let_def le_SucI)

lemma duration_item_shorter: "duration_item s = Some (v, r) \<Longrightarrow> length r < length s"
proof -
  assume a: "duration_item s = Some (v, r)"
  obtain v1 s1 where s1: "leading_int 0 s = Some (v1, s1)"
    using a by (auto simp: duration_item_def split: if_splits option.splits)
  define s2 where "s2 = (if s1 \<noteq> [] \<and> hd s1 = CHR ''.'' then snd (snd (leading_fraction False 0 1 (tl s1))) else s1)"
  have "length s2 \<le> length s1"
    using leading_fraction_length [of False 0 1 "tl s1"] by (auto simp: s2_def)
  moreover have "r = dropWhile unit_char s2" "takeWhile unit_char s2 \<noteq> []"
    using a s1 by (auto simp: duration_item_def Let_def s2_def split: if_splits option.splits prod.splits)
  moreover from this have "length r < length s2"
    by (metis append_Nil length_append length_greater_0_conv less_add_same_cancel2 takeWhile_dropWhile_id)
  ultimately show ?thesis using leading_int_length [OF s1] by linarith
qed

text \<open>The sum is a \<open>uint64\<close>, checked against the limit after each addition.\<close>

function duration_sum :: "nat \<Rightarrow> string \<Rightarrow> nat option" where
  "duration_sum d s =
     (if s = [] then Some d
      else case duration_item s of
        None \<Rightarrow> None
      | Some (v, rest) \<Rightarrow>
          let d = (d + v) mod 2 ^ 64 in if 2 ^ 63 < d then None else duration_sum d rest)"
  by pat_completeness auto
termination
  by (relation "measure (\<lambda>(_, s). length s)") (auto dest: duration_item_shorter)

declare duration_sum.simps [simp del]

definition parse_duration :: "string \<Rightarrow> duration option" where
  "parse_duration s =
     (case cut_sign s of (neg, s) \<Rightarrow>
        if s = ''0'' then Some 0
        else if s = [] then None
        else case duration_sum 0 s of
          None \<Rightarrow> None
        | Some d \<Rightarrow> if neg then Some (- int d) else if 2 ^ 63 - 1 < d then None else Some (int d))"

section \<open>The settings\<close>

definition env_string :: "environ \<Rightarrow> string \<Rightarrow> string \<Rightarrow> string" where
  "env_string env key defaultValue = (case env key of None \<Rightarrow> defaultValue | Some val \<Rightarrow> val)"

definition env_int :: "environ \<Rightarrow> string \<Rightarrow> int \<Rightarrow> int" where
  "env_int env key defaultValue =
     (case env key of
        None \<Rightarrow> defaultValue
      | Some val \<Rightarrow>
          let n = trim_space val
          in if n = [] then defaultValue
             else (case atoi n of None \<Rightarrow> defaultValue | Some res \<Rightarrow> res))"

definition env_float64 :: "(string \<Rightarrow> 'f option) \<Rightarrow> environ \<Rightarrow> string \<Rightarrow> 'f \<Rightarrow> 'f" where
  "env_float64 parse_float env key defaultValue =
     (case env key of
        None \<Rightarrow> defaultValue
      | Some val \<Rightarrow> (case parse_float (trim_space val) of None \<Rightarrow> defaultValue | Some res \<Rightarrow> res))"

definition env_bool :: "environ \<Rightarrow> string \<Rightarrow> bool \<Rightarrow> bool" where
  "env_bool env key defaultValue =
     (case env key of
        None \<Rightarrow> defaultValue
      | Some val \<Rightarrow> (case parse_bool (trim_space val) of None \<Rightarrow> defaultValue | Some res \<Rightarrow> res))"

definition env_duration :: "environ \<Rightarrow> string \<Rightarrow> duration \<Rightarrow> duration" where
  "env_duration env key defaultValue =
     (case env key of
        None \<Rightarrow> defaultValue
      | Some val \<Rightarrow> (case parse_duration (trim_space val) of None \<Rightarrow> defaultValue | Some res \<Rightarrow> res))"


section \<open>Facts\<close>

text \<open>Every duration the parser returns is one a \<open>time.Duration\<close> holds.\<close>

lemma duration_sum_bound: "d \<le> 2 ^ 63 \<Longrightarrow> duration_sum d s = Some r \<Longrightarrow> r \<le> 2 ^ 63"
proof (induction d s rule: duration_sum.induct)
  case (1 d s)
  show ?case
  proof (cases "s = []")
    case True
    with "1.prems" show ?thesis by (simp add: duration_sum.simps)
  next
    case False
    with "1.prems"(2) obtain v rest where v: "duration_item s = Some (v, rest)"
      by (auto simp: duration_sum.simps [of d s] split: option.splits)
    with False "1.prems"(2) have d: "(d + v) mod 2 ^ 64 \<le> 2 ^ 63"
        "duration_sum ((d + v) mod 2 ^ 64) rest = Some r"
      by (simp_all add: duration_sum.simps [of d s] Let_def not_less split: if_splits)
    then show ?thesis using "1.IH" [OF False v refl refl] by (simp add: Let_def not_less)
  qed
qed

lemma parse_duration_range:
  "parse_duration s = Some d \<Longrightarrow> - (2 ^ 63) \<le> d \<and> d \<le> 2 ^ 63 - 1"
  using duration_sum_bound [of 0]
  by (auto simp: parse_duration_def split: prod.splits if_splits option.splits)

lemma atoi_range: "atoi s = Some n \<Longrightarrow> - (2 ^ 63) \<le> n \<and> n \<le> 2 ^ 63 - 1"
  by (auto simp: atoi_def Let_def split: prod.splits if_splits)

lemma env_settings_range:
  "- (2 ^ 63) \<le> dflt \<Longrightarrow> dflt \<le> 2 ^ 63 - 1 \<Longrightarrow>
     - (2 ^ 63) \<le> env_duration env key dflt \<and> env_duration env key dflt \<le> 2 ^ 63 - 1 \<and>
     - (2 ^ 63) \<le> env_int env key dflt \<and> env_int env key dflt \<le> 2 ^ 63 - 1"
  by (auto simp: env_duration_def env_int_def Let_def split: option.splits
      dest: parse_duration_range atoi_range)

text \<open>\<open>Atoi\<close> reads back what \<open>Itoa\<close> writes.\<close>

lemma decimal_value_snoc: "decimal_value (s @ [c]) = decimal_value s * 10 + digit_value c"
  by (simp add: decimal_value_def)

lemma digit_char: "d < 10 \<Longrightarrow> is_digit (char_of (48 + d)) \<and> digit_value (char_of (48 + d :: nat)) = d"
  by (simp add: is_digit_def digit_value_def byte_of_char_of)

lemma nat_digits_value: "list_all is_digit (nat_digits n) \<and> nat_digits n \<noteq> [] \<and> decimal_value (nat_digits n) = n"
proof (induction n rule: nat_digits.induct)
  case (1 n)
  show ?case
  proof (cases "n < 10")
    case True
    then show ?thesis
      using digit_char [of n] by (simp add: nat_digits.simps [of n] decimal_value_def)
  next
    case False
    then show ?thesis
      using "1.IH" digit_char [of "n mod 10"]
      by (simp add: nat_digits.simps [of n] decimal_value_snoc)
  qed
qed

lemma cut_sign_digits: "list_all is_digit s \<Longrightarrow> cut_sign s = (False, s)"
  by (cases s) (auto simp: cut_sign_def is_digit_def byte_of_def)

lemma atoi_itoa: "- (2 ^ 63) \<le> i \<Longrightarrow> i < 2 ^ 63 \<Longrightarrow> atoi (itoa i) = Some i"
proof (cases "i < 0")
  case True
  assume "- (2 ^ 63) \<le> i"
  with True show ?thesis
    using nat_digits_value [of "nat (- i)"] by (simp add: itoa_def atoi_def cut_sign_def Let_def)
next
  case False
  assume "i < 2 ^ 63"
  with False show ?thesis
    using nat_digits_value [of "nat i"] by (simp add: itoa_def atoi_def cut_sign_digits Let_def)
qed

lemmas duration_eval =
  duration_item_def is_digit_def byte_of_def digit_value_def unit_char_def duration_unit_def

lemma parse_duration_24h: "parse_duration ''24h'' = Some (24 * hour)"
proof -
  have "duration_item ''24h'' = Some (86400000000000, [])" by (simp add: duration_eval)
  then show ?thesis
    by (simp add: parse_duration_def cut_sign_def duration_sum.simps [of 0 "''24h''"] duration_sum.simps [of _ "[]"])
qed

lemma parse_duration_no_unit: "parse_duration ''24'' = None"
  by (simp add: parse_duration_def cut_sign_def duration_sum.simps duration_eval)

end
