(* ===== verification/Telemetry.thy ===== *)
theory Telemetry
  imports Env GoHttp
begin

text \<open>
  \<open>internal/telemetry\<close> and \<open>internal/helpers/outbound\<close>: the gates of the OpenTelemetry
  pipelines, what \<open>Setup\<close> registers and its shutdown releases, the metrics middleware with its
  status recorder, and the HTTP clients outbound calls use. The OpenTelemetry SDK is the answers
  its constructors and shutdowns give; what the code does to the process is a list of effects.
\<close>

section \<open>Gates\<close>

definition EnvEnabled :: string where "EnvEnabled = ''OTEL_ENABLED''"
definition EnvTracingEnabled :: string where "EnvTracingEnabled = ''OTEL_TRACING_ENABLED''"
definition EnvMetricsEnabled :: string where "EnvMetricsEnabled = ''OTEL_METRICS_ENABLED''"

definition telemetry_enabled :: "environ \<Rightarrow> bool" where
  "telemetry_enabled env = env_bool env EnvEnabled False"

definition tracing_enabled :: "environ \<Rightarrow> bool" where
  "tracing_enabled env = env_bool env EnvTracingEnabled (telemetry_enabled env)"

definition metrics_enabled :: "environ \<Rightarrow> bool" where
  "metrics_enabled env = env_bool env EnvMetricsEnabled (telemetry_enabled env)"

section \<open>Setup\<close>

datatype signal = Tracing | Metrics

datatype otel_effect =
    SetProvider signal string string \<comment> \<open>service name and version\<close>
  | SetTextMapPropagator
  | ShutDown signal

text \<open>What the SDK answers: the resource, each exporter, each provider's shutdown.\<close>

record otel =
  ot_resource :: "gerr option"
  ot_exporter :: "signal \<Rightarrow> gerr option"
  ot_shutdown :: "signal \<Rightarrow> gerr option"

text \<open>
  A \<open>ShutdownFunc\<close> is the providers it shuts down, in order. Running it calls each, whatever
  the others answer, and joins the errors; \<open>errors.Join\<close> of none is nil.
\<close>

definition join_errors :: "gerr list \<Rightarrow> gerr option" where
  "join_errors errs = (if errs = [] then None else Some (Joined errs))"

definition run_shutdowns :: "otel \<Rightarrow> signal list \<Rightarrow> gerr option \<times> otel_effect list" where
  "run_shutdowns ot fns =
     (join_errors (List.map_filter (ot_shutdown ot) fns), map ShutDown fns)"

definition setup_signal ::
  "otel \<Rightarrow> signal \<Rightarrow> string \<Rightarrow> string \<Rightarrow> (gerr + signal) \<times> otel_effect list" where
  "setup_signal ot sig name version =
     (case ot_exporter ot sig of
        Some e \<Rightarrow> (Inl e, [])
      | None \<Rightarrow> (Inr sig, [SetProvider sig name version]))"

definition telemetry_setup ::
  "otel \<Rightarrow> environ \<Rightarrow> string \<Rightarrow> string \<Rightarrow> (signal list \<times> gerr option) \<times> otel_effect list" where
  "telemetry_setup ot env name version =
     (let tracing = tracing_enabled env; metrics = metrics_enabled env
      in if \<not> tracing \<and> \<not> metrics then (([], None), [])
         else case ot_resource ot of
           Some e \<Rightarrow> (([], Some e), [])
         | None \<Rightarrow>
        (case (if tracing
               then (case setup_signal ot Tracing name version of
                       (Inl e, fx) \<Rightarrow> (Inl e, fx)
                     | (Inr s, fx) \<Rightarrow> (Inr [s], fx @ [SetTextMapPropagator]))
               else (Inr [], [])) of
           (Inl e, fx) \<Rightarrow> (([], Some e), fx)
         | (Inr shutdowns, fx) \<Rightarrow>
             if metrics
             then (case setup_signal ot Metrics name version of
                     (Inl e, fx') \<Rightarrow> (([], Some e), fx @ fx' @ snd (run_shutdowns ot shutdowns))
                   | (Inr s, fx') \<Rightarrow> ((shutdowns @ [s], None), fx @ fx'))
             else ((shutdowns, None), fx)))"

text \<open>
  Every provider \<open>Setup\<close> registers is one its gate asks for, and is released: by the returned
  shutdown when \<open>Setup\<close> succeeds, at once when it fails.
\<close>

definition providers :: "otel_effect list \<Rightarrow> signal list" where
  "providers fx = List.map_filter (\<lambda>f. case f of SetProvider s _ _ \<Rightarrow> Some s | _ \<Rightarrow> None) fx"

definition shut_down :: "otel_effect list \<Rightarrow> signal list" where
  "shut_down fx = List.map_filter (\<lambda>f. case f of ShutDown s \<Rightarrow> Some s | _ \<Rightarrow> None) fx"

lemma providers_simps [simp]:
  "providers [] = []" "providers (SetProvider s a b # fx) = s # providers fx"
  "providers (SetTextMapPropagator # fx) = providers fx" "providers (ShutDown s # fx) = providers fx"
  by (simp_all add: providers_def List.map_filter_simps)

lemma shut_down_simps [simp]:
  "shut_down [] = []" "shut_down (SetProvider s a b # fx) = shut_down fx"
  "shut_down (SetTextMapPropagator # fx) = shut_down fx" "shut_down (ShutDown s # fx) = s # shut_down fx"
  by (simp_all add: shut_down_def List.map_filter_simps)

text \<open>Telemetry is off unless it is asked for, and never leaks a provider: with both gates off
  \<open>Setup\<close> touches nothing and cannot fail; otherwise it registers at most the providers of the
  open gates, each once; on success exactly those are left to the returned shutdown and nothing
  has been shut down; on failure everything registered has been shut down again and the returned
  shutdown has nothing to do.\<close>

lemma setup_registers_what_it_releases:
  "case telemetry_setup ot env name version of ((shutdowns, err), fx) \<Rightarrow>
     (tracing_enabled env \<or> metrics_enabled env \<or> shutdowns = [] \<and> err = None \<and> fx = []) \<and>
     set (providers fx) \<subseteq> {s. s = Tracing \<and> tracing_enabled env \<or> s = Metrics \<and> metrics_enabled env} \<and>
     distinct (providers fx) \<and>
     (if err = None
      then providers fx = shutdowns \<and> shut_down fx = [] \<and>
        set shutdowns = {s. s = Tracing \<and> tracing_enabled env \<or> s = Metrics \<and> metrics_enabled env}
      else shutdowns = [] \<and> shut_down fx = providers fx)"
  by (auto simp: telemetry_setup_def Let_def setup_signal_def run_shutdowns_def split: option.splits if_splits)

section \<open>The metrics middleware\<close>

text \<open>The recorder around a response writer.\<close>

record 'b status_recorder =
  sr_writer :: "'b writer"
  sr_status :: int
  sr_wrote_header :: bool

definition recorder_write_header :: "'b status_recorder \<Rightarrow> int \<Rightarrow> 'b status_recorder" where
  "recorder_write_header s code =
     (let s = (if \<not> sr_wrote_header s then s\<lparr>sr_status := code, sr_wrote_header := True\<rparr> else s)
      in s\<lparr>sr_writer := write_header (sr_writer s) code\<rparr>)"

definition recorder_write :: "'b status_recorder \<Rightarrow> 'b \<Rightarrow> 'b status_recorder" where
  "recorder_write s b =
     (let s = (if \<not> sr_wrote_header s then s\<lparr>sr_wrote_header := True\<rparr> else s)
      in s\<lparr>sr_writer := write_body (sr_writer s) b\<rparr>)"

datatype 'b write_call = WriteHeader int | Write 'b | Header "headers \<Rightarrow> headers"

fun on_writer :: "'b write_call \<Rightarrow> 'b writer \<Rightarrow> 'b writer" where
  "on_writer (WriteHeader c) w = write_header w c"
| "on_writer (Write b) w = write_body w b"
| "on_writer (Header f) w = w\<lparr>rw_header := f (rw_header w)\<rparr>"

fun on_recorder :: "'b write_call \<Rightarrow> 'b status_recorder \<Rightarrow> 'b status_recorder" where
  "on_recorder (WriteHeader c) s = recorder_write_header s c"
| "on_recorder (Write b) s = recorder_write s b"
| "on_recorder (Header f) s = s\<lparr>sr_writer := on_writer (Header f) (sr_writer s)\<rparr>"

definition recorder_around :: "'b writer \<Rightarrow> 'b status_recorder" where
  "recorder_around w = \<lparr>sr_writer = w, sr_status = 200, sr_wrote_header = False\<rparr>"

lemma answer_code_write_header:
  "answer_code (write_header w c) = (if rw_sent w = None then c else answer_code w)"
  "rw_sent (write_header w c) \<noteq> None"
  by (auto simp: answer_code_def write_header_def split: option.splits)

lemma recorder_step:
  assumes "sr_wrote_header s \<longleftrightarrow> rw_sent (sr_writer s) \<noteq> None" and "sr_status s = answer_code (sr_writer s)"
  shows "sr_writer (on_recorder c s) = on_writer c (sr_writer s)"
    and "sr_wrote_header (on_recorder c s) \<longleftrightarrow> rw_sent (sr_writer (on_recorder c s)) \<noteq> None"
    and "sr_status (on_recorder c s) = answer_code (sr_writer (on_recorder c s))"
  using assms
  by (cases c; auto simp: recorder_write_header_def recorder_write_def Let_def write_body_def
      answer_code_def write_header_def split: option.splits)+

text \<open>The recorder is transparent and tells the truth: whatever a handler does through it, in
  whatever order, with repeated status lines or none, the client gets byte for byte what the bare
  writer would have sent, and the status the metrics carry is the one the client saw.\<close>

lemma recorder_sees_the_answer:
  "rw_sent w = None \<Longrightarrow>
     sr_writer (fold on_recorder calls (recorder_around w)) = fold on_writer calls w \<and>
     sr_status (fold on_recorder calls (recorder_around w)) = answer_code (fold on_writer calls w)"
proof -
  have "(sr_wrote_header s \<longleftrightarrow> rw_sent (sr_writer s) \<noteq> None) \<and> sr_status s = answer_code (sr_writer s) \<Longrightarrow>
    sr_writer (fold on_recorder calls s) = fold on_writer calls (sr_writer s) \<and>
    sr_status (fold on_recorder calls s) = answer_code (fold on_writer calls (sr_writer s))" for s
  proof (induction calls arbitrary: s)
    case (Cons c calls)
    then have "(sr_wrote_header (on_recorder c s) \<longleftrightarrow> rw_sent (sr_writer (on_recorder c s)) \<noteq> None) \<and>
        sr_status (on_recorder c s) = answer_code (sr_writer (on_recorder c s))"
      using recorder_step by blast
    from Cons.IH [OF this] show ?case
      using recorder_step(1) [of s c] Cons.prems by simp
  qed simp
  then show "rw_sent w = None \<Longrightarrow> ?thesis"
    by (simp add: recorder_around_def answer_code_def)
qed

lemma recorder_sees_the_answer_witness:
  "sr_writer (fold on_recorder [Write ''a'', WriteHeader 500] (recorder_around fresh_writer)) =
     fold on_writer [Write ''a'', WriteHeader 500] fresh_writer \<and>
   sr_status (fold on_recorder [Write ''a'', WriteHeader 500] (recorder_around fresh_writer)) =
     answer_code (fold on_writer [Write ''a'', WriteHeader 500] fresh_writer)"
  by (rule recorder_sees_the_answer) (simp add: fresh_writer_def)

text \<open>
  The middleware: the metrics one request adds, with method, path and status. A handler that
  panics unwinds through it, and nothing is recorded. The recorder answers \<open>answer_code\<close>.
\<close>

datatype metric =
    RequestCount string string int
  | RequestDuration string string int
  | ErrorCount string string int

definition metrics_of :: "request \<Rightarrow> int \<Rightarrow> metric list" where
  "metrics_of req status =
     [RequestCount (rq_method req) (rq_path req) status,
      RequestDuration (rq_method req) (rq_path req) status]
     @ (if 500 \<le> status then [ErrorCount (rq_method req) (rq_path req) status] else [])"

definition metrics_middleware ::
  "(request \<Rightarrow> 'b writer \<Rightarrow> 'e \<Rightarrow> 'b writer option \<times> 'e) \<Rightarrow> request \<Rightarrow> 'b writer \<Rightarrow> 'e
     \<Rightarrow> ('b writer option \<times> 'e) \<times> metric list" where
  "metrics_middleware next req w e =
     (case next req w e of
        (None, e) \<Rightarrow> ((None, e), [])
      | (Some w, e) \<Rightarrow> ((Some w, e), metrics_of req (answer_code w)))"

section \<open>Outbound clients\<close>

text \<open>The fields of an \<open>http.Client\<close> that matter; \<open>NoTransport\<close> is nil, the default one.\<close>

datatype transport = NoTransport | TracedDefaultTransport

datatype redirect_policy = FollowRedirects | RefuseRedirects

record http_client =
  hc_transport :: transport
  hc_redirect :: redirect_policy

definition default_client :: http_client where
  "default_client = \<lparr>hc_transport = NoTransport, hc_redirect = FollowRedirects\<rparr>"

definition telemetry_http_client :: "environ \<Rightarrow> http_client" where
  "telemetry_http_client env =
     (if \<not> tracing_enabled env then default_client
      else \<lparr>hc_transport = TracedDefaultTransport, hc_redirect = FollowRedirects\<rparr>)"

definition outbound_client :: "environ \<Rightarrow> http_client" where
  "outbound_client env = (telemetry_http_client env)\<lparr>hc_redirect := RefuseRedirects\<rparr>"

definition ErrRedirectRefused :: gerr where
  "ErrRedirectRefused = Sentinel ''redirect refused''"

text \<open>\<open>via\<close> is the hosts already asked, oldest first.\<close>

definition refuse_redirects :: "string \<Rightarrow> string list \<Rightarrow> gerr" where
  "refuse_redirects to via =
     Wrap [] ErrRedirectRefused
       [Str '': '', Str (if 0 < length via then last via else ''''), Str '' answered a redirect to '', Str to]"

lemma outbound_never_follows:
  "hc_redirect (outbound_client env) = RefuseRedirects"
  "hc_transport (outbound_client env) = (if tracing_enabled env then TracedDefaultTransport else NoTransport)"
  "err_is (refuse_redirects to via) ''redirect refused''"
  by (simp_all add: outbound_client_def telemetry_http_client_def default_client_def
      refuse_redirects_def ErrRedirectRefused_def)

end
