(* ===== verification/Leader.thy ===== *)
theory Leader
  imports GoError GoTime
begin

text \<open>
  \<open>internal/leader\<close>: the campaign for the Lease that elects the replica doing authn's
  own-identity work. The elector of client-go is a parameter: whether it can be made from a
  configuration, and what one \<open>Run\<close> of it does, which is the callbacks it makes, in order,
  and the next state of the surroundings \<open>'s\<close>. The context is done when \<open>is_done\<close> says so.
\<close>

definition CertRenewalLease :: string where "CertRenewalLease = ''authn-cert-renewal''"
definition DefaultLeaseDuration :: duration where "DefaultLeaseDuration = 15 * second"
definition DefaultRenewDeadline :: duration where "DefaultRenewDeadline = 10 * second"
definition DefaultRetryPeriod :: duration where "DefaultRetryPeriod = 2 * second"

record leader_options =
  ld_client :: bool \<comment> \<open>whether it is set\<close>
  ld_namespace :: string
  ld_name :: string
  ld_identity :: string
  ld_lease_duration :: duration
  ld_renew_deadline :: duration
  ld_retry_period :: duration

definition duration_or_default :: "duration \<Rightarrow> duration \<Rightarrow> duration" where
  "duration_or_default v d = (if v \<le> 0 then d else v)"

record election_config =
  ec_namespace :: string
  ec_name :: string
  ec_identity :: string
  ec_lease_duration :: duration
  ec_renew_deadline :: duration
  ec_retry_period :: duration
  ec_release_on_cancel :: bool

definition election_config_of :: "leader_options \<Rightarrow> election_config" where
  "election_config_of o' =
     \<lparr>ec_namespace = ld_namespace o', ec_name = ld_name o', ec_identity = ld_identity o',
      ec_lease_duration = duration_or_default (ld_lease_duration o') DefaultLeaseDuration,
      ec_renew_deadline = duration_or_default (ld_renew_deadline o') DefaultRenewDeadline,
      ec_retry_period = duration_or_default (ld_retry_period o') DefaultRetryPeriod,
      ec_release_on_cancel = True\<rparr>"

text \<open>The callbacks of the elector and what they do: a log line, and the work to lead.\<close>

datatype election_event = StartedLeading | StoppedLeading | NewLeader string

datatype leader_effect =
    AcquiredLeadership string string \<comment> \<open>lease, identity\<close>
  | Lead
  | LeadershipReleased string string
  | StandingBy string string         \<comment> \<open>lease, leader\<close>

fun on_election_event :: "leader_options \<Rightarrow> election_event \<Rightarrow> leader_effect list" where
  "on_election_event o' StartedLeading = [AcquiredLeadership (ld_name o') (ld_identity o'), Lead]"
| "on_election_event o' StoppedLeading = [LeadershipReleased (ld_name o') (ld_identity o')]"
| "on_election_event o' (NewLeader identity) =
     (if identity \<noteq> ld_identity o' then [StandingBy (ld_name o') identity] else [])"

text \<open>The loop, which runs for as long as the context is not done: \<open>None\<close> if for ever.\<close>

partial_function (option) campaign ::
  "leader_options \<Rightarrow> ('s \<Rightarrow> bool) \<Rightarrow> ('s \<Rightarrow> election_event list \<times> 's) \<Rightarrow> 's \<Rightarrow> leader_effect list
     \<Rightarrow> (leader_effect list \<times> 's) option" where
  "campaign o' is_done run s fx =
     (if is_done s then Some (fx, s)
      else case run s of (evs, s') \<Rightarrow>
        campaign o' is_done run s' (fx @ concat (map (on_election_event o') evs)))"

definition leader_run ::
  "leader_options \<Rightarrow> (election_config \<Rightarrow> gerr option) \<Rightarrow> ('s \<Rightarrow> bool) \<Rightarrow> ('s \<Rightarrow> election_event list \<times> 's)
     \<Rightarrow> 's \<Rightarrow> (gerr option \<times> leader_effect list \<times> 's) option" where
  "leader_run o' new_elector is_done run s =
     (if \<not> ld_client o' \<or> ld_namespace o' = '''' \<or> ld_name o' = '''' \<or> ld_identity o' = ''''
      then Some (Some (Err [Str ''leader election: client, namespace, name and identity are required'']), [], s)
      else case new_elector (election_config_of o') of
        Some e \<Rightarrow> Some (Some (Wrap [Str ''leader election: ''] e []), [], s)
      | None \<Rightarrow> map_option (Pair None) (campaign o' is_done run s []))"

section \<open>Facts\<close>

text \<open>The states the loop goes through.\<close>

abbreviation rounds :: "('s \<Rightarrow> 'x \<times> 's) \<Rightarrow> nat \<Rightarrow> 's \<Rightarrow> 's" where
  "rounds run n s \<equiv> ((\<lambda>s. snd (run s)) ^^ n) s"

lemma campaign_stops:
  "is_done (rounds run n s) \<Longrightarrow> \<exists>fx' k. k \<le> n \<and> campaign o' is_done run s fx = Some (fx', rounds run k s)
     \<and> is_done (rounds run k s)"
proof (induction n arbitrary: s fx)
  case 0
  then show ?case by (subst campaign.simps) auto
next
  case (Suc n)
  obtain evs s' where r: "run s = (evs, s')" by force
  have "is_done (rounds run n s')"
    using Suc.prems r by (simp add: funpow_Suc_right del: funpow.simps)
  from Suc.IH [OF this, of "fx @ concat (map (on_election_event o') evs)"] obtain fx' k where
    k: "k \<le> n" "campaign o' is_done run s' (fx @ concat (map (on_election_event o') evs)) = Some (fx', rounds run k s')"
      "is_done (rounds run k s')" by blast
  show ?case
  proof (cases "is_done s")
    case True
    then show ?thesis by (subst campaign.simps) (auto intro!: exI [of _ 0])
  next
    case False
    moreover have "rounds run (Suc k) s = rounds run k s'"
      using r by (simp add: funpow_Suc_right del: funpow.simps)
    ultimately show ?thesis
      using k r by (subst campaign.simps) (auto intro!: exI [of _ "Suc k"] simp del: funpow.simps)
  qed
qed



lemma election_timings_positive:
  "0 < ec_lease_duration (election_config_of o')" "0 < ec_renew_deadline (election_config_of o')"
  "0 < ec_retry_period (election_config_of o')"
  by (simp_all add: election_config_of_def duration_or_default_def DefaultLeaseDuration_def
      DefaultRenewDeadline_def DefaultRetryPeriod_def)

lemma no_namespace_no_campaign:
  "ld_namespace o' = '''' \<Longrightarrow> \<exists>e. leader_run o' new_elector is_done run s = Some (Some e, [], s)"
  by (simp add: leader_run_def)

end
