(* ===== verification/Isaac64.thy ===== *)
theory Isaac64
  imports GoString
begin

unbundle bit_operations_syntax

text \<open>
  \<open>internal/uuid/isaac64.go\<close>: the ISAAC-64 generator behind the leader-election identity. The
  two arrays are lists of 256 words that the loop updates in place; every index the code
  computes is masked to 8 bits, so none is out of range. The bytes \<open>SeedFrom\<close> reads are a
  parameter, \<open>None\<close> where the reader fails.
\<close>

section \<open>The generator\<close>

record isaac =
  is_out :: "64 word list"
  is_buf :: "64 word list"
  is_a :: "64 word"
  is_b :: "64 word"
  is_c :: "64 word"
  is_i :: nat

definition new_isaac64 :: isaac where
  "new_isaac64 =
     \<lparr>is_out = replicate 256 0, is_buf = replicate 256 0, is_a = 0, is_b = 0, is_c = 0, is_i = 256\<rparr>"

definition low8 :: "64 word \<Rightarrow> nat" where
  "low8 x = unat (x AND 0xff)"

text \<open>One quarter of the loop body, at index \<open>j\<close>, with the mixing of \<open>a\<close> that quarter uses.\<close>

definition isaac_quarter :: "(64 word \<Rightarrow> 64 word) \<Rightarrow> nat \<Rightarrow> isaac \<Rightarrow> isaac" where
  "isaac_quarter mix j r =
     (let x = is_buf r ! j;
          a = mix (is_a r) + is_buf r ! ((j + 128) mod 256);
          buf = (is_buf r)[j := is_buf r ! low8 (drop_bit 3 x) + a + is_b r];
          b = buf ! low8 (drop_bit 11 (buf ! j)) + x
      in r\<lparr>is_a := a, is_buf := buf, is_b := b, is_out := (is_out r)[j := b]\<rparr>)"

definition isaac_body :: "nat \<Rightarrow> isaac \<Rightarrow> isaac" where
  "isaac_body i r =
     isaac_quarter (\<lambda>a. a XOR drop_bit 33 a) (i + 3)
    (isaac_quarter (\<lambda>a. a XOR push_bit 12 a) (i + 2)
    (isaac_quarter (\<lambda>a. a XOR drop_bit 5 a) (i + 1)
    (isaac_quarter (\<lambda>a. NOT a XOR push_bit 21 a) (i + 0) r)))"

function isaac_loop :: "nat \<Rightarrow> isaac \<Rightarrow> isaac" where
  "isaac_loop i r = (if i < 256 then isaac_loop (i + 4) (isaac_body i r) else r)"
  by pat_completeness auto
termination by (relation "measure (\<lambda>(i, _). 256 - i)") auto

declare isaac_loop.simps [simp del]

definition isaac_shuffle :: "isaac \<Rightarrow> isaac" where
  "isaac_shuffle r =
     (let c = is_c r + 1
      in (isaac_loop 0 (r\<lparr>is_c := c, is_b := is_b r + c\<rparr>))\<lparr>is_i := 0\<rparr>)"

text \<open>\<open>Seed\<close>: the words SplitMix64 gives from the seed.\<close>

definition splitmix :: "64 word \<Rightarrow> 64 word" where
  "splitmix s =
     (let z = s;
          z = z XOR drop_bit 30 z;
          z = z * 0xbf58476d1ce4e5b9;
          z = z XOR drop_bit 27 z;
          z = z * 0x94d049bb133111eb
      in z XOR drop_bit 31 z)"

fun splitmix_words :: "nat \<Rightarrow> 64 word \<Rightarrow> 64 word list" where
  "splitmix_words 0 s = []"
| "splitmix_words (Suc n) s =
     (let s = s + 0x9e3779b97f4a7c15 in splitmix s # splitmix_words n s)"

definition isaac_seed :: "64 word \<Rightarrow> isaac \<Rightarrow> isaac" where
  "isaac_seed seed r =
     isaac_shuffle (r\<lparr>is_buf := splitmix_words 256 seed, is_a := 0, is_b := 0, is_c := 0\<rparr>)"

definition le_uint64 :: "8 word list \<Rightarrow> 64 word" where
  "le_uint64 bs = foldr (\<lambda>b w. ucast b OR push_bit 8 w) (take 8 bs) 0"

definition isaac_seed_from :: "8 word list option \<Rightarrow> isaac \<Rightarrow> isaac option" where
  "isaac_seed_from src r =
     (case src of
        None \<Rightarrow> None
      | Some bytes \<Rightarrow> Some (isaac_shuffle
          (r\<lparr>is_buf := map (\<lambda>i. le_uint64 (drop (i * 8) bytes)) [0..<256],
             is_a := 0, is_b := 0, is_c := 0\<rparr>)))"

definition isaac_uint64 :: "isaac \<Rightarrow> 64 word \<times> isaac" where
  "isaac_uint64 r =
     (let r = (if is_i r = 256 then isaac_shuffle r else r)
      in (is_out r ! is_i r, r\<lparr>is_i := is_i r + 1\<rparr>))"

definition isaac_int63 :: "isaac \<Rightarrow> 64 word \<times> isaac" where
  "isaac_int63 r = (case isaac_uint64 r of (w, r) \<Rightarrow> (drop_bit 1 w, r))"

section \<open>The invariant\<close>

text \<open>Both arrays keep their 256 words and the next index stays in range.\<close>

definition isaac_ok :: "isaac \<Rightarrow> bool" where
  "isaac_ok r \<longleftrightarrow> length (is_out r) = 256 \<and> length (is_buf r) = 256 \<and> is_i r \<le> 256"

lemma low8_mod: "low8 x = unat x mod 256" and low8_less: "low8 x < 256"
proof -
  have "x AND 0xff = take_bit 8 x" by (simp add: take_bit_eq_mask mask_eq_exp_minus_1)
  then have "unat (x AND 0xff) = take_bit 8 (unat x)" by (simp only: unsigned_take_bit_eq)
  then have "unat (x AND 0xff) = unat x mod 256" by (simp only: take_bit_eq_mod) simp
  then show "low8 x = unat x mod 256" by (simp add: low8_def)
  then show "low8 x < 256" by simp
qed

lemma isaac_ok_fields:
  "isaac_ok (r\<lparr>is_buf := buf, is_a := a, is_b := b, is_c := c\<rparr>) \<longleftrightarrow>
     length (is_out r) = 256 \<and> length buf = 256 \<and> is_i r \<le> 256"
  "isaac_ok r \<Longrightarrow> length (is_out r) = 256" "isaac_ok r \<Longrightarrow> is_i r \<le> 256"
  by (simp_all add: isaac_ok_def)

lemma isaac_quarter_ok [simp]: "isaac_ok (isaac_quarter mix j r) = isaac_ok r"
  by (simp add: isaac_ok_def isaac_quarter_def Let_def)

lemma isaac_body_ok [simp]: "isaac_ok (isaac_body i r) = isaac_ok r"
  by (simp add: isaac_body_def)

lemma isaac_loop_ok: "isaac_ok r \<Longrightarrow> isaac_ok (isaac_loop i r)"
  by (induction i r rule: isaac_loop.induct) (subst isaac_loop.simps, simp)

lemma isaac_quarter_c [simp]: "is_c (isaac_quarter mix j r) = is_c r"
  by (simp add: isaac_quarter_def Let_def)

lemma isaac_loop_c: "is_c (isaac_loop i r) = is_c r"
  by (induction i r rule: isaac_loop.induct) (subst isaac_loop.simps, simp add: isaac_body_def)

lemma isaac_shuffle_ok:
  assumes "isaac_ok r"
  shows "isaac_ok (isaac_shuffle r)" and "is_i (isaac_shuffle r) = 0"
proof -
  have "isaac_ok (isaac_loop 0 (r\<lparr>is_c := is_c r + 1, is_b := is_b r + (is_c r + 1)\<rparr>))"
    using assms by (intro isaac_loop_ok) (simp add: isaac_ok_def)
  then show "isaac_ok (isaac_shuffle r)" and "is_i (isaac_shuffle r) = 0"
    by (simp_all add: isaac_shuffle_def isaac_ok_def Let_def)
qed

lemma length_splitmix_words [simp]: "length (splitmix_words n s) = n"
  by (induction n arbitrary: s) (simp_all add: Let_def)

lemma new_isaac64_ok: "isaac_ok new_isaac64"
  by (simp add: new_isaac64_def isaac_ok_def)

lemma isaac_seed_ok: "isaac_ok r \<Longrightarrow> isaac_ok (isaac_seed s r)"
  unfolding isaac_seed_def by (rule isaac_shuffle_ok) (simp add: isaac_ok_def)

lemma isaac_seed_from_ok: "isaac_ok r \<Longrightarrow> isaac_seed_from src r = Some r' \<Longrightarrow> isaac_ok r'"
  by (cases src) (auto simp: isaac_seed_from_def isaac_ok_fields intro: isaac_shuffle_ok(1))

lemma isaac_uint64_ok: "isaac_ok r \<Longrightarrow> isaac_ok (snd (isaac_uint64 r))"
  using isaac_shuffle_ok [of r]
  by (auto simp: isaac_uint64_def Let_def isaac_ok_def)

text \<open>
  The interface the code declares it implements, \<open>rand.Source64\<close>: words from a state that stays
  usable, and \<open>Int63\<close> as a non-negative \<open>int64\<close>, the upper bits of the same draw.
\<close>

locale source64 =
  fixes ok :: "'r \<Rightarrow> bool"
    and uint64 :: "'r \<Rightarrow> 64 word \<times> 'r"
    and int63 :: "'r \<Rightarrow> 64 word \<times> 'r"
  assumes uint64_ok: "ok r \<Longrightarrow> ok (snd (uint64 r))"
    and int63_draw: "int63 r = (case uint64 r of (w, r) \<Rightarrow> (drop_bit 1 w, r))"
begin

lemma int63_ok: "ok r \<Longrightarrow> ok (snd (int63 r))"
  using uint64_ok [of r] by (cases "uint64 r") (simp add: int63_draw)

lemma int63_non_negative: "\<not> bit (fst (int63 r)) 63"
  by (cases "uint64 r") (auto simp: int63_draw bit_drop_bit_eq dest: bit_imp_le_length)

lemma draws_ok: "ok r \<Longrightarrow> ok (((\<lambda>r. snd (uint64 r)) ^^ n) r)"
  by (induction n) (simp_all add: uint64_ok)

end

interpretation isaac_source: source64 isaac_ok isaac_uint64 isaac_int63
  by unfold_locales (simp_all add: isaac_uint64_ok isaac_int63_def)

section \<open>The reference algorithm\<close>

text \<open>
  Jenkins's ISAAC-64 as it is published, one index at a time: \<open>a\<close> is mixed by a function of the
  index modulo 4, indices are taken modulo 256 of a shifted word, and each step yields one
  result. The state is the memory, \<open>a\<close> and \<open>b\<close>; the results come out as a list.
\<close>

definition ref_mix :: "nat \<Rightarrow> 64 word \<Rightarrow> 64 word" where
  "ref_mix i a =
     (if i mod 4 = 0 then NOT (a XOR push_bit 21 a)
      else if i mod 4 = 1 then a XOR drop_bit 5 a
      else if i mod 4 = 2 then a XOR push_bit 12 a
      else a XOR drop_bit 33 a)"

definition ref_ind :: "64 word list \<Rightarrow> 64 word \<Rightarrow> 64 word" where
  "ref_ind mm x = mm ! (unat x div 8 mod 256)"

fun ref_rounds :: "nat list \<Rightarrow> 64 word list \<times> 64 word \<times> 64 word
    \<Rightarrow> 64 word list \<times> (64 word list \<times> 64 word \<times> 64 word)" where
  "ref_rounds [] s = ([], s)"
| "ref_rounds (i # is) (mm, a, b) =
     (let x = mm ! i;
          a = ref_mix i a + mm ! ((i + 128) mod 256);
          y = ref_ind mm x + a + b;
          mm = mm[i := y];
          b = ref_ind mm (drop_bit 8 y) + x;
          (rs, s) = ref_rounds is (mm, a, b)
      in (b # rs, s))"

definition ref_isaac64 ::
  "64 word list \<times> 64 word \<times> 64 word \<times> 64 word
     \<Rightarrow> 64 word list \<times> 64 word list \<times> 64 word \<times> 64 word \<times> 64 word" where
  "ref_isaac64 = (\<lambda>(mm, a, b, c).
     let (rs, mm, a, b) = ref_rounds [0..<256] (mm, a, b + (c + 1)) in (rs, mm, a, b, c + 1))"

definition isaac_view :: "isaac \<Rightarrow> 64 word list \<times> 64 word \<times> 64 word" where
  "isaac_view r = (is_buf r, is_a r, is_b r)"

abbreviation ref_step :: "nat \<Rightarrow> isaac \<Rightarrow> isaac" where
  "ref_step j \<equiv> isaac_quarter (ref_mix j) j"

lemma ref_ind_low8:
  "ref_ind mm x = mm ! low8 (drop_bit 3 x)" "ref_ind mm (drop_bit 8 y) = mm ! low8 (drop_bit 11 y)"
  by (simp_all add: ref_ind_def low8_mod drop_bit_eq_div unat_div div_mult2_eq [symmetric])

lemma ref_rounds_step:
  assumes "isaac_ok r" and "j < 256"
  shows "ref_rounds (j # js) (isaac_view r) =
    (is_out (ref_step j r) ! j # fst (ref_rounds js (isaac_view (ref_step j r))),
     snd (ref_rounds js (isaac_view (ref_step j r))))"
  using assms
  by (simp add: isaac_view_def isaac_quarter_def Let_def ref_ind_low8 isaac_ok_def split: prod.split)

lemma ref_step_out: "isaac_ok r \<Longrightarrow> i \<noteq> j \<Longrightarrow> is_out (ref_step j r) ! i = is_out r ! i"
  by (simp add: isaac_quarter_def Let_def)

lemma fold_ref_steps:
  "isaac_ok r \<Longrightarrow> list_all (\<lambda>j. j < 256) js \<Longrightarrow> distinct js \<Longrightarrow>
     ref_rounds js (isaac_view r) =
       (map (\<lambda>j. is_out (fold ref_step js r) ! j) js, isaac_view (fold ref_step js r)) \<and>
     (\<forall>i. i \<notin> set js \<longrightarrow> is_out (fold ref_step js r) ! i = is_out r ! i)"
proof (induction js arbitrary: r)
  case Nil
  then show ?case by (simp add: isaac_view_def)
next
  case (Cons j js)
  then have "isaac_ok (ref_step j r)" by simp
  from Cons.IH [OF this] Cons.prems show ?case
    by (auto simp: ref_rounds_step ref_step_out simp del: ref_rounds.simps)
qed

text \<open>The four quarters of the loop body are four steps of the reference.\<close>

lemma isaac_body_ref: "i mod 4 = 0 \<Longrightarrow> isaac_body i r = fold ref_step [i, i + 1, i + 2, i + 3] r"
proof -
  assume i: "i mod 4 = 0"
  have "(i + 1) mod 4 = 1" "(i + 2) mod 4 = 2" "(i + 3) mod 4 = 3"
    using i by (simp_all add: mod_Suc numeral_2_eq_2 numeral_3_eq_3)
  moreover have "NOT a XOR push_bit 21 a = NOT (a XOR push_bit 21 a)" for a :: "64 word"
    by (rule bit_eqI) (auto simp: bit_simps)
  ultimately have "ref_mix i = (\<lambda>a. NOT a XOR push_bit 21 a)" "ref_mix (i + 1) = (\<lambda>a. a XOR drop_bit 5 a)"
    "ref_mix (i + 2) = (\<lambda>a. a XOR push_bit 12 a)" "ref_mix (i + 3) = (\<lambda>a. a XOR drop_bit 33 a)"
    using i by (auto simp: ref_mix_def fun_eq_iff)
  then show ?thesis by (simp add: isaac_body_def)
qed

lemma isaac_loop_ref: "i mod 4 = 0 \<Longrightarrow> isaac_loop i r = fold ref_step [i..<256] r"
proof (induction i r rule: isaac_loop.induct)
  case (1 i r)
  show ?case
  proof (cases "i < 256")
    case True
    with "1.prems" have "i + 4 \<le> 256" by presburger
    moreover have four: "Suc (Suc (Suc (Suc i))) = i + 4" by simp
    ultimately have "[i..<256] = [i, i + 1, i + 2, i + 3] @ [i + 4..<256]"
      by (simp add: upt_conv_Cons four)
    moreover have "isaac_loop (i + 4) (isaac_body i r) = fold ref_step [i + 4..<256] (isaac_body i r)"
      using True "1.prems" by (intro "1.IH") auto
    ultimately show ?thesis
      using True "1.prems" by (subst isaac_loop.simps) (simp add: isaac_body_ref del: upt_rec_numeral)
  next
    case False
    then show ?thesis by (subst isaac_loop.simps) simp
  qed
qed

text \<open>C38. The unrolled in-place loop is ISAAC-64: on a state whose arrays have their 256 words, one
  \<open>shuffle\<close> leaves in the buffer, in \<open>a\<close>, \<open>b\<close> and \<open>c\<close> what Jenkins's reference algorithm computes
  from them, and in \<open>out\<close>, from index 0 on, the 256 results the reference yields.\<close>

theorem shuffle_is_isaac64:
  "isaac_ok r \<Longrightarrow>
     ref_isaac64 (is_buf r, is_a r, is_b r, is_c r) =
       (is_out (isaac_shuffle r), is_buf (isaac_shuffle r), is_a (isaac_shuffle r),
        is_b (isaac_shuffle r), is_c (isaac_shuffle r)) \<and>
     is_i (isaac_shuffle r) = 0"
proof -
  assume ok: "isaac_ok r"
  define s where "s = r\<lparr>is_c := is_c r + 1, is_b := is_b r + (is_c r + 1)\<rparr>"
  define t where "t = fold ref_step [0..<256] s"
  have "isaac_ok s" using ok by (simp add: s_def isaac_ok_def)
  then have "ref_rounds [0..<256] (isaac_view s) = (map (\<lambda>j. is_out t ! j) [0..<256], isaac_view t)"
    unfolding t_def by (intro fold_ref_steps [THEN conjunct1]) (auto simp: list_all_iff)
  moreover have t: "t = isaac_loop 0 s" by (simp add: t_def isaac_loop_ref)
  moreover have "length (is_out t) = 256"
    using isaac_loop_ok [OF \<open>isaac_ok s\<close>] by (simp add: t isaac_ok_def)
  then have "map (\<lambda>j. is_out t ! j) [0..<256] = is_out t"
    by (metis map_nth)
  moreover have "is_c t = is_c s" unfolding t by (rule isaac_loop_c)
  ultimately show ?thesis
    by (simp add: ref_isaac64_def isaac_view_def s_def isaac_shuffle_def Let_def)
qed

lemma shuffle_is_isaac64_witness:
  "ref_isaac64 (replicate 256 0, 0, 0, 0) =
     (is_out (isaac_shuffle new_isaac64), is_buf (isaac_shuffle new_isaac64),
      is_a (isaac_shuffle new_isaac64), is_b (isaac_shuffle new_isaac64),
      is_c (isaac_shuffle new_isaac64))"
  using shuffle_is_isaac64 [OF new_isaac64_ok] by (simp add: new_isaac64_def)

text \<open>Draws return the results in order, and shuffle once all 256 have been given out.\<close>

fun isaac_draws :: "nat \<Rightarrow> isaac \<Rightarrow> 64 word list \<times> isaac" where
  "isaac_draws 0 r = ([], r)"
| "isaac_draws (Suc n) r =
     (case isaac_uint64 r of (w, r) \<Rightarrow> case isaac_draws n r of (ws, r) \<Rightarrow> (w # ws, r))"

lemma isaac_draws_in_order:
  "isaac_ok r \<Longrightarrow> is_i r + n \<le> 256 \<Longrightarrow>
     isaac_draws n r = (take n (drop (is_i r) (is_out r)), r\<lparr>is_i := is_i r + n\<rparr>)"
proof (induction n arbitrary: r)
  case (Suc n)
  let ?r = "r\<lparr>is_i := is_i r + 1\<rparr>"
  have "isaac_draws n ?r = (take n (drop (is_i r + 1) (is_out r)), r\<lparr>is_i := is_i r + Suc n\<rparr>)"
    using Suc.IH [of ?r] Suc.prems by (auto simp: isaac_ok_def)
  moreover have "isaac_uint64 r = (is_out r ! is_i r, ?r)"
    using Suc.prems by (simp add: isaac_uint64_def)
  ultimately show ?case
    using Suc.prems by (simp add: isaac_ok_def Cons_nth_drop_Suc [symmetric])
qed simp

lemma isaac_draws_one_round:
  assumes "isaac_ok r" and "is_i r = 256"
  shows "fst (isaac_draws 256 r) = is_out (isaac_shuffle r)"
proof -
  have "isaac_draws 256 r = isaac_draws 256 (isaac_shuffle r)"
    using assms isaac_shuffle_ok(2) [OF assms(1)]
    by (simp add: isaac_uint64_def eval_nat_numeral(2) [of "num.One"] numeral_eq_Suc)
  then show ?thesis
    using isaac_draws_in_order [OF isaac_shuffle_ok(1) [OF assms(1)], of 256]
      isaac_shuffle_ok [OF assms(1)] by (simp add: isaac_ok_def)
qed

end
