(* ===== verification/Uuid.thy ===== *)
theory Uuid
  imports GoError Isaac64
begin

unbundle bit_operations_syntax

text \<open>
  \<open>internal/uuid/uuid.go\<close>: UUIDs, their text, JSON and binary forms, and the version 4 generator.
  A \<open>UUID\<close> is its 16 bytes; a buffer that is written into is a byte list of fixed length. Go
  strings are the characters of their bytes. What \<open>ParseBytes\<close> has filled in when it fails is
  not returned here: its callers drop it.
\<close>

type_synonym byte = "8 word"

definition bytes_of :: "string \<Rightarrow> byte list" where
  "bytes_of s = map (\<lambda>c. word_of_nat (of_char c)) s"

definition string_of :: "byte list \<Rightarrow> string" where
  "string_of bs = map (\<lambda>b. char_of (unat b)) bs"

lemma unat_byte: "unat (b :: byte) < 256"
  by (rule order.strict_trans2 [OF unsigned_less]) simp

lemma bytes_of_string_of [simp]: "bytes_of (string_of bs) = bs"
proof -
  have "word_of_nat (of_char (char_of (unat b) :: char)) = b" for b :: byte
    using unat_byte [of b] by simp
  then show ?thesis by (simp add: bytes_of_def string_of_def comp_def)
qed

lemma string_of_bytes_of [simp]: "string_of (bytes_of s) = s"
  by (simp add: bytes_of_def string_of_def comp_def unat_of_nat map_idI)

definition errInvalid :: gerr where
  "errInvalid = Err [Str ''invalid UUID'']"

definition uuid_encode :: "nat list" where
  "uuid_encode = [0, 2, 4, 6, 9, 11, 14, 16, 19, 21, 24, 26, 28, 30, 32, 34]"

definition nibbles :: "byte list" where
  "nibbles = replicate 48 0xff
     @ [0x00, 0x01, 0x02, 0x03, 0x04, 0x05, 0x06, 0x07, 0x08, 0x09] @ replicate 7 0xff
     @ [0x0a, 0x0b, 0x0c, 0x0d, 0x0e, 0x0f] @ replicate 26 0xff
     @ [0x0a, 0x0b, 0x0c, 0x0d, 0x0e, 0x0f] @ replicate 153 0xff"

definition hex_digits :: "byte list" where
  "hex_digits = bytes_of ''0123456789abcdef''"

abbreviation dash :: byte where "dash \<equiv> 45"
abbreviation dquote :: byte where "dquote \<equiv> 34"

section \<open>The text form\<close>

definition hexify :: "byte list \<Rightarrow> byte list \<Rightarrow> byte list" where
  "hexify u buf =
     fold (\<lambda>(i, j) buf. buf[j + 0 := hex_digits ! unat (drop_bit 4 (u ! i)),
                            j + 1 := hex_digits ! unat (u ! i AND 0x0f)])
       (List.enumerate 0 uuid_encode) (buf[8 := dash, 13 := dash, 18 := dash, 23 := dash])"

definition uuid_string :: "byte list \<Rightarrow> string" where
  "uuid_string u = string_of (hexify u (replicate 36 0))"

fun parse_loop :: "byte list \<Rightarrow> nat list \<Rightarrow> byte list option" where
  "parse_loop buf [] = Some []"
| "parse_loop buf (j # js) =
     (let hi = nibbles ! unat (buf ! (j + 0)); lo = nibbles ! unat (buf ! (j + 1))
      in if hi = 0xff \<or> lo = 0xff then None
         else map_option ((#) (push_bit 4 hi OR lo)) (parse_loop buf js))"

definition parse_bytes :: "byte list \<Rightarrow> gerr + byte list" where
  "parse_bytes buf =
     (if length buf \<noteq> 36 then Inl errInvalid
      else if buf ! 8 \<noteq> dash \<or> buf ! 13 \<noteq> dash \<or> buf ! 18 \<noteq> dash \<or> buf ! 23 \<noteq> dash
      then Inl errInvalid
      else case parse_loop buf uuid_encode of None \<Rightarrow> Inl errInvalid | Some u \<Rightarrow> Inr u)"

definition uuid_parse :: "string \<Rightarrow> gerr + byte list" where
  "uuid_parse s = parse_bytes (bytes_of s)"

text \<open>\<open>None\<close> is the panic.\<close>

definition must_parse :: "string \<Rightarrow> byte list option" where
  "must_parse s = (case uuid_parse s of Inl _ \<Rightarrow> None | Inr u \<Rightarrow> Some u)"

section \<open>The JSON and binary forms\<close>

text \<open>\<open>buf[1:]\<close> is the tail of the same array, so what \<open>hexify\<close> writes there stays.\<close>

definition uuid_marshal_json :: "byte list \<Rightarrow> byte list" where
  "uuid_marshal_json u =
     (let buf = (replicate 38 0)[0 := dquote];
          buf = take 1 buf @ hexify u (drop 1 buf)
      in buf[37 := dquote])"

text \<open>The receiver is passed and returned; a failure leaves it as it was.\<close>

definition uuid_unmarshal_json :: "byte list \<Rightarrow> byte list \<Rightarrow> gerr option \<times> byte list" where
  "uuid_unmarshal_json u buf =
     (if length buf \<noteq> 38 \<or> buf ! 0 \<noteq> dquote \<or> buf ! 37 \<noteq> dquote then (Some errInvalid, u)
      else case parse_bytes (take 36 (drop 1 buf)) of
             Inl e \<Rightarrow> (Some e, u)
           | Inr uuid \<Rightarrow> (None, uuid))"

definition uuid_marshal_binary :: "byte list \<Rightarrow> byte list" where
  "uuid_marshal_binary u = u"

definition uuid_unmarshal_binary :: "byte list \<Rightarrow> byte list \<Rightarrow> gerr option \<times> byte list" where
  "uuid_unmarshal_binary u data =
     (if length data < length u then (Some (Err [Str ''invalid length'']), u)
      else (None, take (length u) data))"

section \<open>The version 4 generator\<close>

text \<open>\<open>NewGen\<close>; \<open>None\<close> is the panic when the random source fails.\<close>

definition uuid_new_gen :: "byte list option \<Rightarrow> isaac option" where
  "uuid_new_gen src = isaac_seed_from src new_isaac64"

definition put_uint64_le :: "64 word \<Rightarrow> byte list" where
  "put_uint64_le w = map (\<lambda>k. ucast (drop_bit (8 * k) w)) [0..<8]"

definition uuid_new_v4 :: "isaac \<Rightarrow> byte list \<times> isaac" where
  "uuid_new_v4 g =
     (case isaac_uint64 g of (w0, g) \<Rightarrow>
      case isaac_uint64 g of (w1, g) \<Rightarrow>
        (let u = put_uint64_le w0 @ put_uint64_le w1;
             u = u[6 := (u ! 6 AND 0x0f) OR 0x40];
             u = u[8 := (u ! 8 AND 0x3f) OR 0x80]
         in (u, g)))"

section \<open>Parsing what was printed\<close>

definition put_hex :: "byte list \<Rightarrow> nat \<times> nat \<Rightarrow> byte list \<Rightarrow> byte list" where
  "put_hex u = (\<lambda>(i, j) buf. buf[j + 0 := hex_digits ! unat (drop_bit 4 (u ! i)),
                                 j + 1 := hex_digits ! unat (u ! i AND 0x0f)])"

lemma length_put_hex [simp]: "length (put_hex u p buf) = length buf"
  by (simp add: put_hex_def split: prod.split)

lemma fold_put_hex:
  "sorted_wrt (\<lambda>p q. snd p + 2 \<le> snd q) ps \<Longrightarrow> list_all (\<lambda>p. snd p + 1 < length buf) ps \<Longrightarrow>
     length (fold (put_hex u) ps buf) = length buf \<and>
     (\<forall>p \<in> set ps.
        fold (put_hex u) ps buf ! snd p = hex_digits ! unat (drop_bit 4 (u ! fst p)) \<and>
        fold (put_hex u) ps buf ! (snd p + 1) = hex_digits ! unat (u ! fst p AND 0x0f)) \<and>
     (\<forall>k. (\<forall>p \<in> set ps. k \<noteq> snd p \<and> k \<noteq> snd p + 1) \<longrightarrow> fold (put_hex u) ps buf ! k = buf ! k)"
proof (induction ps arbitrary: buf)
  case (Cons p ps)
  have away: "\<forall>q \<in> set ps. snd p \<noteq> snd q \<and> snd p \<noteq> snd q + 1 \<and> snd p + 1 \<noteq> snd q \<and> snd p + 1 \<noteq> snd q + 1"
    using Cons.prems(1) by auto
  have "sorted_wrt (\<lambda>p q. snd p + 2 \<le> snd q) ps" "list_all (\<lambda>q. snd q + 1 < length (put_hex u p buf)) ps"
    using Cons.prems by simp_all
  from Cons.IH [OF this] away Cons.prems(2) show ?case
    by (auto simp: put_hex_def split: prod.splits)
qed simp

lemma uuid_positions:
  "sorted_wrt (\<lambda>p q. snd p + 2 \<le> snd q) (List.enumerate 0 uuid_encode)"
  "list_all (\<lambda>p. snd p + 1 < 36) (List.enumerate 0 uuid_encode)"
  by (simp_all add: uuid_encode_def)

lemma hexify_fields:
  assumes "length buf = 36"
  shows "length (hexify u buf) = 36"
    and "(i, j) \<in> set (List.enumerate 0 uuid_encode) \<Longrightarrow>
      hexify u buf ! j = hex_digits ! unat (drop_bit 4 (u ! i)) \<and>
      hexify u buf ! (j + 1) = hex_digits ! unat (u ! i AND 0x0f)"
    and "k \<in> {8, 13, 18, 23} \<Longrightarrow> hexify u buf ! k = dash"
proof -
  let ?buf = "buf[8 := dash, 13 := dash, 18 := dash, 23 := dash]"
  have h: "hexify u buf = fold (put_hex u) (List.enumerate 0 uuid_encode) ?buf"
    by (simp add: hexify_def put_hex_def)
  have f: "list_all (\<lambda>p. snd p + 1 < length ?buf) (List.enumerate 0 uuid_encode)"
    using uuid_positions(2) assms by simp
  note facts = fold_put_hex [OF uuid_positions(1) f, of u, folded h]
  show "length (hexify u buf) = 36" using facts assms by simp
  show "(i, j) \<in> set (List.enumerate 0 uuid_encode) \<Longrightarrow>
      hexify u buf ! j = hex_digits ! unat (drop_bit 4 (u ! i)) \<and>
      hexify u buf ! (j + 1) = hex_digits ! unat (u ! i AND 0x0f)"
    using facts by force
  assume k: "k \<in> {8, 13, 18, 23}"
  then have "\<forall>p \<in> set (List.enumerate 0 uuid_encode). k \<noteq> snd p \<and> k \<noteq> snd p + 1"
    by (auto simp: uuid_encode_def)
  with facts k assms show "hexify u buf ! k = dash" by auto
qed

text \<open>The tables, checked entry by entry.\<close>

lemma nibble_hex: "n < 16 \<Longrightarrow> nibbles ! unat (hex_digits ! n) = word_of_nat n"
proof -
  have "list_all (\<lambda>n. nibbles ! unat (hex_digits ! n) = word_of_nat n) [0..<16]" by code_simp
  then show "n < 16 \<Longrightarrow> ?thesis" by (simp add: list_all_iff)
qed

definition lower_byte :: "byte \<Rightarrow> byte" where
  "lower_byte c = (if 65 \<le> c \<and> c \<le> 90 then c + 32 else c)"

lemma byte_cases: "list_all (\<lambda>n. P (word_of_nat n)) [0..<256] \<Longrightarrow> P (c :: byte)"
proof -
  assume "list_all (\<lambda>n. P (word_of_nat n)) [0..<256]"
  then have "\<forall>n<256. P (word_of_nat n)" by (simp add: list_all_iff del: upt_rec_numeral)
  moreover have "unat c < 256" by (rule unat_byte)
  ultimately have "P (word_of_nat (unat c))" by blast
  then show "P c" by simp
qed

lemma nibbles_lower: "nibbles ! unat (lower_byte c) = nibbles ! unat c"
  by (rule byte_cases [of "\<lambda>c. nibbles ! unat (lower_byte c) = nibbles ! unat c"]) code_simp

lemma hex_nibbles:
  "nibbles ! unat c = 0xff \<or>
     unat (nibbles ! unat c) < 16 \<and> hex_digits ! unat (nibbles ! unat c) = lower_byte c"
  by (rule byte_cases [of "\<lambda>c. nibbles ! unat c = 0xff \<or>
     unat (nibbles ! unat c) < 16 \<and> hex_digits ! unat (nibbles ! unat c) = lower_byte c"]) code_simp

lemma lower_byte_dash: "lower_byte c = dash \<longleftrightarrow> c = dash"
  by (rule byte_cases [of "\<lambda>c. (lower_byte c = dash) = (c = dash)"]) code_simp

lemma uuid_gaps:
  "k < 36 \<Longrightarrow> k \<in> {8, 13, 18, 23} \<or> (\<exists>(i, j) \<in> set (List.enumerate 0 uuid_encode). k = j \<or> k = j + 1)"
proof -
  have "list_all (\<lambda>k. k \<in> {8, 13, 18, 23} \<or>
      list_ex (\<lambda>(i, j). k = j \<or> k = j + 1) (List.enumerate 0 uuid_encode)) [0..<36]"
    by code_simp
  then show "k < 36 \<Longrightarrow> ?thesis" by (simp add: list_all_iff list_ex_iff del: upt_rec_numeral)
qed

text \<open>What the loop of \<open>ParseBytes\<close> collects: one byte per position, unless a nibble is not hex.\<close>

lemma parse_loop_eq:
  "parse_loop buf js =
     (if \<exists>j \<in> set js. nibbles ! unat (buf ! j) = 0xff \<or> nibbles ! unat (buf ! (j + 1)) = 0xff then None
      else Some (map (\<lambda>j. push_bit 4 (nibbles ! unat (buf ! j)) OR nibbles ! unat (buf ! (j + 1))) js))"
  by (induction js) (auto simp: Let_def)

lemma nibble_split: "push_bit 4 (drop_bit 4 b) OR (b AND 0x0f) = (b :: byte)"
  by (rule byte_cases [of "\<lambda>b. push_bit 4 (drop_bit 4 b) OR (b AND 0x0f) = b"]) code_simp

lemma nibble_less: "unat (drop_bit 4 (b :: byte)) < 16" "unat (b AND 0x0f :: byte) < 16"
  by (rule byte_cases [of "\<lambda>b. unat (drop_bit 4 b) < 16"], code_simp)
     (rule byte_cases [of "\<lambda>b. unat (b AND 0x0f) < 16"], code_simp)

lemma nibble_join:
  assumes "unat hi < 16" and "unat lo < 16"
  shows "drop_bit 4 (push_bit 4 hi OR lo :: byte) = hi" and "(push_bit 4 hi OR lo :: byte) AND 0x0f = lo"
proof -
  have "list_all (\<lambda>h. list_all (\<lambda>l. drop_bit 4 (push_bit 4 (word_of_nat h) OR word_of_nat l :: byte) = word_of_nat h
      \<and> (push_bit 4 (word_of_nat h) OR word_of_nat l :: byte) AND 0x0f = word_of_nat l) [0..<16]) [0..<16]"
    by code_simp
  then have "\<forall>h<16. \<forall>l<16. drop_bit 4 (push_bit 4 (word_of_nat h) OR word_of_nat l :: byte) = word_of_nat h
      \<and> (push_bit 4 (word_of_nat h) OR word_of_nat l :: byte) AND 0x0f = word_of_nat l"
    by (simp add: list_all_iff del: upt_rec_numeral)
  then have "drop_bit 4 (push_bit 4 (word_of_nat (unat hi)) OR word_of_nat (unat lo) :: byte) = word_of_nat (unat hi)
      \<and> (push_bit 4 (word_of_nat (unat hi)) OR word_of_nat (unat lo) :: byte) AND 0x0f = word_of_nat (unat lo)"
    using assms by blast
  then show "drop_bit 4 (push_bit 4 hi OR lo :: byte) = hi" and "(push_bit 4 hi OR lo :: byte) AND 0x0f = lo"
    by simp_all
qed

lemma map_enumerate_uuid: "length u = 16 \<Longrightarrow> map (\<lambda>(i, j). u ! i) (List.enumerate 0 uuid_encode) = u"
proof -
  assume u: "length u = 16"
  have len: "length uuid_encode = 16" by (simp add: uuid_encode_def)
  have "map (\<lambda>(i, j). u ! i) (List.enumerate 0 uuid_encode)
      = map ((!) u) (map fst (List.enumerate 0 uuid_encode))"
    by (simp add: case_prod_beta' comp_def del: map_fst_enumerate map_nth)
  also have "\<dots> = map ((!) u) [0..<length u]"
    by (simp only: map_fst_enumerate u len add_0)
  finally show ?thesis by (simp only: map_nth)
qed

lemma parse_hexify:
  assumes "length u = 16" and "length buf = 36"
  shows "parse_bytes (hexify u buf) = Inr u"
proof -
  note f = hexify_fields [OF assms(2), where u = u]
  let ?h = "hexify u buf"
  have nib: "nibbles ! unat (?h ! j) = drop_bit 4 (u ! i)" "nibbles ! unat (?h ! Suc j) = u ! i AND 0x0f"
    if "(i, j) \<in> set (List.enumerate 0 uuid_encode)" for i j
    using f(2) [OF that] nibble_hex nibble_less by simp_all
  have small: "drop_bit 4 b \<noteq> 0xff" "b AND 0x0f \<noteq> 0xff" for b :: byte
    using nibble_less [of b] by auto
  have js: "uuid_encode = map snd (List.enumerate 0 uuid_encode)" by simp
  have "\<exists>i. (i, j) \<in> set (List.enumerate 0 uuid_encode)" if "j \<in> set uuid_encode" for j
  proof -
    from that obtain i where "i < length uuid_encode" "uuid_encode ! i = j" by (auto simp: in_set_conv_nth)
    then have "(i, j) \<in> set (List.enumerate 0 uuid_encode)" by (simp add: in_set_enumerate_eq)
    then show ?thesis ..
  qed
  then have "\<not> (\<exists>j \<in> set uuid_encode. nibbles ! unat (?h ! j) = 0xff \<or> nibbles ! unat (?h ! (j + 1)) = 0xff)"
    using nib small by fastforce
  then have "parse_loop ?h uuid_encode =
      Some (map (\<lambda>j. push_bit 4 (nibbles ! unat (?h ! j)) OR nibbles ! unat (?h ! (j + 1))) uuid_encode)"
    by (simp add: parse_loop_eq)
  also have "\<dots> = Some (map (\<lambda>(i, j). u ! i) (List.enumerate 0 uuid_encode))"
    by (subst js, unfold map_map) (auto simp: nib nibble_split)
  finally have "parse_loop ?h uuid_encode = Some (map (\<lambda>(i, j). u ! i) (List.enumerate 0 uuid_encode))" .
  then show ?thesis
    using assms by (simp add: parse_bytes_def f map_enumerate_uuid)
qed

lemma parse_lower: "length buf = 36 \<Longrightarrow> parse_bytes (map lower_byte buf) = parse_bytes buf"
proof -
  assume len: "length buf = 36"
  have "\<forall>j \<in> set uuid_encode. j < 36 \<and> j + 1 < 36" by (simp add: uuid_encode_def)
  then have "nibbles ! unat (map lower_byte buf ! j) = nibbles ! unat (buf ! j) \<and>
      nibbles ! unat (map lower_byte buf ! (j + 1)) = nibbles ! unat (buf ! (j + 1))"
    if "j \<in> set uuid_encode" for j
    using len that by (simp add: nibbles_lower)
  then have "parse_loop (map lower_byte buf) uuid_encode = parse_loop buf uuid_encode"
    by (simp add: parse_loop_eq cong: map_cong)
  with len show ?thesis by (simp add: parse_bytes_def lower_byte_dash)
qed

text \<open>What parses was printed, up to the case of its digits.\<close>

lemma parse_bytes_printed:
  assumes "parse_bytes buf = Inr u" and blank: "length blank = 36"
  shows "length u = 16" and "map lower_byte buf = hexify u blank"
proof -
  have len: "length buf = 36"
    and dashes: "\<forall>k \<in> {8, 13, 18, 23}. buf ! k = dash"
    and loop: "parse_loop buf uuid_encode = Some u"
    using assms(1) by (auto simp: parse_bytes_def split: if_splits option.splits)
  define nib where "nib = (\<lambda>k. nibbles ! unat (buf ! k))"
  have ok: "\<forall>j \<in> set uuid_encode. nib j \<noteq> 0xff \<and> nib (j + 1) \<noteq> 0xff"
    and u: "u = map (\<lambda>j. push_bit 4 (nib j) OR nib (j + 1)) uuid_encode"
    using loop by (auto simp: parse_loop_eq nib_def split: if_splits)
  show "length u = 16" using u by (simp add: uuid_encode_def)
  show "map lower_byte buf = hexify u blank"
  proof (rule nth_equalityI)
    show "length (map lower_byte buf) = length (hexify u blank)"
      using len hexify_fields(1) [OF blank] by simp
  next
    fix k
    assume "k < length (map lower_byte buf)"
    then have k: "k < 36" using len by simp
    then consider "k \<in> {8, 13, 18, 23}" |
        i j where "(i, j) \<in> set (List.enumerate 0 uuid_encode)" "k = j \<or> k = j + 1"
      using uuid_gaps [OF k] by blast
    then show "map lower_byte buf ! k = hexify u blank ! k"
    proof cases
      case 1
      then show ?thesis
        using hexify_fields(3) [OF blank 1, of u] dashes k len by (auto simp: lower_byte_dash)
    next
      case 2
      then have i: "i < length uuid_encode" "j = uuid_encode ! i" "j \<in> set uuid_encode"
        by (auto simp: in_set_enumerate_eq)
      then have "u ! i = push_bit 4 (nib j) OR nib (j + 1)"
        using u by simp
      moreover have small: "unat (nib j) < 16" "hex_digits ! unat (nib j) = lower_byte (buf ! j)"
          "unat (nib (j + 1)) < 16" "hex_digits ! unat (nib (j + 1)) = lower_byte (buf ! (j + 1))"
        using ok i(3) hex_nibbles [of "buf ! j"] hex_nibbles [of "buf ! (j + 1)"] by (auto simp: nib_def)
      ultimately have "drop_bit 4 (u ! i) = nib j" "u ! i AND 0x0f = nib (j + 1)"
        by (simp_all only: nibble_join)
      then show ?thesis
        using hexify_fields(2) [OF blank 2(1), of u] 2(2) small k len by auto
    qed
  qed
qed

lemma parse_bytes_iff:
  assumes blank: "length blank = 36"
  shows "parse_bytes buf = Inr u \<longleftrightarrow> length u = 16 \<and> map lower_byte buf = hexify u blank"
proof
  assume "parse_bytes buf = Inr u"
  then show "length u = 16 \<and> map lower_byte buf = hexify u blank"
    using parse_bytes_printed [OF _ blank] by simp
next
  assume u: "length u = 16 \<and> map lower_byte buf = hexify u blank"
  then have "length buf = 36" using hexify_fields(1) [OF blank] by (metis length_map)
  then have "parse_bytes buf = parse_bytes (map lower_byte buf)" by (simp add: parse_lower)
  with u show "parse_bytes buf = Inr u" by (simp add: parse_hexify blank)
qed

lemma bytes_of_to_lower: "bytes_of (to_lower s) = map lower_byte (bytes_of s)"
proof -
  have "word_of_nat (of_char (ascii_lower c)) = lower_byte (word_of_nat (of_char c))" for c
  proof -
    have "of_char c = unat (word_of_nat (of_char c) :: byte)"
      by (simp add: unat_of_nat)
    then show ?thesis
      by (simp add: ascii_lower_def byte_of_def lower_byte_def word_le_nat_alt unat_of_nat)
  qed
  then show ?thesis by (simp add: bytes_of_def to_lower_def)
qed

text \<open>\<open>Parse\<close> accepts exactly the printed UUIDs, in either case of their hexadecimal digits: a
  string parses to \<open>u\<close> just when, lower-cased, it is what \<open>u.String()\<close> prints. So every UUID
  survives printing and parsing, two strings that differ beyond case never parse to the same
  UUID, and nothing else is accepted.\<close>

lemma parse_accepts_what_string_prints:
  "uuid_parse s = Inr u \<longleftrightarrow> length u = 16 \<and> to_lower s = uuid_string u"
proof -
  have "uuid_parse s = Inr u \<longleftrightarrow> length u = 16 \<and> bytes_of (to_lower s) = hexify u (replicate 36 0)"
    by (simp add: uuid_parse_def parse_bytes_iff [of "replicate 36 0"] bytes_of_to_lower)
  also have "bytes_of (to_lower s) = hexify u (replicate 36 0) \<longleftrightarrow> to_lower s = uuid_string u"
    unfolding uuid_string_def by (metis bytes_of_string_of string_of_bytes_of)
  finally show ?thesis .
qed

text \<open>The other two forms round-trip too; a failing \<open>Unmarshal\<close> leaves the receiver alone.\<close>

lemma length_hexify: "length buf = 36 \<or> length buf = 37 \<Longrightarrow> length (hexify u buf) = length buf"
proof -
  have "length (fold (put_hex u) ps b) = length b" for ps b
    by (induction ps arbitrary: b) simp_all
  then show ?thesis by (simp add: hexify_def put_hex_def)
qed

lemma fold_put_hex_append:
  "list_all (\<lambda>p. snd p + 1 < length buf) ps \<Longrightarrow>
     fold (put_hex u) ps (buf @ rest) = fold (put_hex u) ps buf @ rest"
proof (induction ps arbitrary: buf)
  case (Cons p ps)
  have "put_hex u p (buf @ rest) = put_hex u p buf @ rest"
    using Cons.prems by (cases p) (simp add: put_hex_def list_update_append)
  moreover have "list_all (\<lambda>q. snd q + 1 < length (put_hex u p buf)) ps" using Cons.prems by simp
  ultimately show ?case using Cons.IH by simp
qed simp

lemma hexify_append:
  assumes "length buf = 36"
  shows "hexify u (buf @ rest) = hexify u buf @ rest"
proof -
  have "(buf @ rest)[8 := dash, 13 := dash, 18 := dash, 23 := dash]
      = buf[8 := dash, 13 := dash, 18 := dash, 23 := dash] @ rest"
    using assms by (simp add: list_update_append)
  moreover have "list_all (\<lambda>p. snd p + 1 < length (buf[8 := dash, 13 := dash, 18 := dash, 23 := dash]))
      (List.enumerate 0 uuid_encode)"
    using uuid_positions(2) assms by simp
  ultimately show ?thesis
    by (simp only: hexify_def put_hex_def [symmetric] fold_put_hex_append)
qed

lemma marshal_json_eq: "uuid_marshal_json u = dquote # hexify u (replicate 36 0) @ [dquote]"
proof -
  have "drop 1 ((replicate 38 (0::byte))[0 := dquote]) = replicate 36 0 @ [0]"
    "take 1 ((replicate 38 (0::byte))[0 := dquote]) = [dquote]"
    by (simp_all add: numeral_eq_Suc replicate_append_same [symmetric])
  then show ?thesis
    using hexify_fields(1) [of "replicate 36 0" u]
    by (simp add: uuid_marshal_json_def Let_def hexify_append list_update_append)
qed

text \<open>Each form of a UUID reads back as the UUID, whatever the receiver held.\<close>

lemma uuid_forms_round_trip:
  "length u = 16 \<Longrightarrow> length old = 16 \<Longrightarrow>
     must_parse (uuid_string u) = Some u \<and>
     uuid_unmarshal_json old (uuid_marshal_json u) = (None, u) \<and>
     uuid_unmarshal_binary old (uuid_marshal_binary u) = (None, u)"
proof -
  assume u: "length u = 16" and old: "length old = 16"
  let ?h = "hexify u (replicate 36 0)"
  have h: "length ?h = 36" "parse_bytes ?h = Inr u"
    using u hexify_fields(1) [of "replicate 36 0" u] parse_hexify [of u "replicate 36 0"] by simp_all
  have "must_parse (uuid_string u) = Some u"
    using h by (simp add: must_parse_def uuid_parse_def uuid_string_def)
  moreover have "uuid_unmarshal_json old (uuid_marshal_json u) = (None, u)"
    using h by (simp add: uuid_unmarshal_json_def marshal_json_eq nth_append)
  moreover have "uuid_unmarshal_binary old (uuid_marshal_binary u) = (None, u)"
    using u old by (simp add: uuid_unmarshal_binary_def uuid_marshal_binary_def)
  ultimately show ?thesis by blast
qed

lemma uuid_forms_round_trip_witness:
  "must_parse (uuid_string (replicate 16 0xab)) = Some (replicate 16 0xab) \<and>
   uuid_unmarshal_json (replicate 16 0) (uuid_marshal_json (replicate 16 0xab)) = (None, replicate 16 0xab) \<and>
   uuid_unmarshal_binary (replicate 16 0) (uuid_marshal_binary (replicate 16 0xab)) = (None, replicate 16 0xab)"
  by (rule uuid_forms_round_trip) simp_all

lemma version_bits: "drop_bit 4 ((b AND 0x0f) OR 0x40 :: byte) = 4"
  by (rule byte_cases [of "\<lambda>b. drop_bit 4 ((b AND 0x0f) OR 0x40) = 4"]) code_simp

lemma variant_bits: "drop_bit 6 ((b AND 0x3f) OR 0x80 :: byte) = 2"
  by (rule byte_cases [of "\<lambda>b. drop_bit 6 ((b AND 0x3f) OR 0x80) = 2"]) code_simp

lemma variant_digit:
  "list_ex ((=) (hex_digits ! unat (drop_bit 4 ((b AND 0x3f) OR 0x80 :: byte)))) [56, 57, 97, 98]"
  by (rule byte_cases [of "\<lambda>b. list_ex ((=) (hex_digits ! unat (drop_bit 4 ((b AND 0x3f) OR 0x80)))) [56, 57, 97, 98]"])
     code_simp

lemma digit_chars:
  "char_of (56 :: nat) = CHR ''8''" "char_of (57 :: nat) = CHR ''9''"
  "char_of (97 :: nat) = CHR ''a''" "char_of (98 :: nat) = CHR ''b''" "char_of (52 :: nat) = CHR ''4''"
  by code_simp+

lemma new_v4_bytes:
  obtains u g' where "uuid_new_v4 g = (u, g')" "length u = 16"
    "\<exists>x. u ! 6 = (x AND 0x0f) OR 0x40" "\<exists>y. u ! 8 = (y AND 0x3f) OR 0x80"
proof -
  obtain w0 w1 g' where "isaac_uint64 g = (w0, fst g')" "isaac_uint64 (fst g') = (w1, snd g')"
    by (metis prod.collapse prod.sel)
  then show ?thesis
    by (intro that [of _ "snd g'"]) (auto simp: uuid_new_v4_def Let_def put_uint64_le_def)
qed

text \<open>C39. What \<open>NewV4\<close> returns is a version 4 UUID of the RFC's variant whatever the generator
  yields: 16 bytes whose version nibble is 4 and whose variant bits are 10, so that the text has
  a 4 at index 14 and one of 8, 9, a, b at index 19; and it parses back.\<close>

theorem new_v4_is_version_4:
  "case uuid_new_v4 g of (u, g') \<Rightarrow>
     length u = 16 \<and> drop_bit 4 (u ! 6) = 4 \<and> drop_bit 6 (u ! 8) = 2 \<and>
     uuid_string u ! 14 = CHR ''4'' \<and> uuid_string u ! 19 \<in> set ''89ab'' \<and>
     uuid_parse (uuid_string u) = Inr u"
proof -
  obtain u g' where u: "uuid_new_v4 g = (u, g')" "length u = 16"
      "\<exists>x. u ! 6 = (x AND 0x0f) OR 0x40" "\<exists>y. u ! 8 = (y AND 0x3f) OR 0x80"
    by (rule new_v4_bytes)
  have blank: "length (replicate 36 (0::byte)) = 36" by simp
  have pos: "(6, 14) \<in> set (List.enumerate 0 uuid_encode)" "(8, 19) \<in> set (List.enumerate 0 uuid_encode)"
    by (simp_all add: uuid_encode_def)
  have bits: "drop_bit 4 (u ! 6) = 4" "drop_bit 6 (u ! 8) = 2"
    "list_ex ((=) (hex_digits ! unat (drop_bit 4 (u ! 8)))) [56, 57, 97, 98]"
    using u(3,4) version_bits variant_bits variant_digit by metis+
  have "uuid_string u ! 14 = CHR ''4''"
    using hexify_fields(2) [OF blank pos(1), of u] hexify_fields(1) [OF blank, of u] bits(1)
    by (simp add: uuid_string_def string_of_def hex_digits_def bytes_of_def digit_chars)
  moreover have "uuid_string u ! 19 \<in> set ''89ab''"
    using hexify_fields(2) [OF blank pos(2), of u] hexify_fields(1) [OF blank, of u] bits(3)
    by (auto simp: uuid_string_def string_of_def digit_chars)
  moreover have "uuid_parse (uuid_string u) = Inr u"
    using parse_hexify [OF u(2) blank] by (simp add: uuid_parse_def uuid_string_def)
  ultimately show ?thesis using u(1,2) bits by simp
qed

end
