(* ===== verification/Program.thy ===== *)
theory Program
  imports Server CertRenewal Sweep Backfill Telemetry Leader Uuid
begin

text \<open>
  main.go: the settings from flags and environment, the startup up to the running server, the
  handler chain with its telemetry, the own-identity work of the elected replica, and the
  shutdown. The command line is what \<open>flag.Parse\<close> found on it, option by option.
\<close>

section \<open>Settings\<close>

record command_line =
  cl_kubeconfig :: "string option"
  cl_debug :: "bool option"
  cl_cors :: "bool option"
  cl_otel_tracing :: "bool option"
  cl_port :: "int option"
  cl_cert_expires :: "duration option"
  cl_service_cert_expires :: "duration option"
  cl_cert_renewal :: "bool option"
  cl_cert_renewal_threshold :: "float_arg option"
  cl_cluster_name :: "string option"
  cl_kubernetes_url :: "string option"
  cl_snowplow_host :: "string option"
  cl_snowplow_post :: "string option"
  cl_snowplow_url :: "string option"
  cl_namespace :: "string option"
  cl_authn_username :: "string option"
  cl_sign_key_file :: "string option"
  cl_jwt_kid :: "string option"
  cl_previous_keys :: "string option"
  cl_audience :: "string option"
  cl_decoy_secret :: "string option"

record settings =
  st_kubeconfig :: string
  st_debug :: bool
  st_cors :: bool
  st_otel_tracing :: bool
  st_port :: int
  st_cert_expires :: duration
  st_service_cert_expires :: duration
  st_cert_renewal :: bool
  st_threshold :: float_arg
  st_cluster_name :: string
  st_kubernetes_url :: string
  st_snowplow_url :: string
  st_namespace :: string
  st_username :: string
  st_sign_key_file :: string
  st_kid :: string
  st_previous_keys :: string
  st_audience :: string
  st_decoy_secret :: string

text \<open>A flag has its default until \<open>Parse\<close> finds it on the command line.\<close>

definition flag :: "'a option \<Rightarrow> 'a \<Rightarrow> 'a" where
  "flag given default' = (case given of None \<Rightarrow> default' | Some v \<Rightarrow> v)"

text \<open>
  The snowplow URL is put together before \<open>Parse\<close>, so from the defaults of the host and port
  flags. The \<open>snowplow-url\<close> flag exists only when that gives the bare \<open>http://:8081\<close>;
  otherwise naming it is a usage error, \<open>None\<close>.
\<close>

definition snowplow_service_url :: "environ \<Rightarrow> string" where
  "snowplow_service_url env =
     ''http://'' @ env_string env ''SNOWPLOW_SERVICE_HOST'' '''' @ '':''
       @ env_string env ''SNOWPLOW_SERVICE_PORT'' ''8081''"

definition snowplow_url :: "environ \<Rightarrow> command_line \<Rightarrow> string option" where
  "snowplow_url env cl =
     (if snowplow_service_url env = ''http://:8081''
      then Some (flag (cl_snowplow_url cl)
             (env_string env ''URL_SNOWPLOW'' ''http://snowplow.krateo-system.svc.cluster.local:8081''))
      else if cl_snowplow_url cl = None then Some (snowplow_service_url env) else None)"

definition settings_of ::
  "(string \<Rightarrow> float_arg option) \<Rightarrow> environ \<Rightarrow> command_line \<Rightarrow> settings option" where
  "settings_of parse_float env cl =
     map_option (\<lambda>url.
       \<lparr>st_kubeconfig = flag (cl_kubeconfig cl) '''',
        st_debug = flag (cl_debug cl) (env_bool env ''AUTHN_DEBUG'' False),
        st_cors = flag (cl_cors cl) (env_bool env ''AUTHN_CORS'' True),
        st_otel_tracing = flag (cl_otel_tracing cl) (tracing_enabled env),
        st_port = flag (cl_port cl) (env_int env ''AUTHN_PORT'' 8082),
        st_cert_expires = flag (cl_cert_expires cl)
          (env_duration env ''AUTHN_KUBECONFIG_CRT_EXPIRES_IN'' (hour * 24)),
        st_service_cert_expires = flag (cl_service_cert_expires cl)
          (env_duration env ''AUTHN_SERVICE_CRT_EXPIRES_IN'' CertRenewalDefaultDuration),
        st_cert_renewal = flag (cl_cert_renewal cl) (env_bool env ''AUTHN_CRT_RENEWAL_ENABLED'' True),
        st_threshold = flag (cl_cert_renewal_threshold cl)
          (env_float64 parse_float env ''AUTHN_CRT_RENEWAL_THRESHOLD'' (Positive DefaultThreshold)),
        st_cluster_name = flag (cl_cluster_name cl) (env_string env ''AUTHN_KUBECONFIG_CLUSTER_NAME'' ''krateo''),
        st_kubernetes_url = flag (cl_kubernetes_url cl) (env_string env ''AUTHN_KUBECONFIG_SERVER_URL'' ''''),
        st_snowplow_url = url,
        st_namespace = flag (cl_namespace cl) (env_string env ''AUTHN_NAMESPACE'' ''''),
        st_username = flag (cl_authn_username cl) (env_string env ''AUTHN_USERNAME'' ''authn''),
        st_sign_key_file = flag (cl_sign_key_file cl) (env_string env ''JWT_SIGN_KEY_FILE'' ''''),
        st_kid = flag (cl_jwt_kid cl) (env_string env ''JWT_KID'' ''''),
        st_previous_keys = flag (cl_previous_keys cl) (env_string env ''JWT_PREVIOUS_KEYS'' ''''),
        st_audience = flag (cl_audience cl) (env_string env ''AUTHN_SERVICEACCOUNT_AUDIENCE'' DefaultAudience),
        st_decoy_secret = flag (cl_decoy_secret cl) (env_string env ''AUTHN_BASIC_DECOY_SECRET'' '''')\<rparr>)
       (snowplow_url env cl)"

text \<open>The environment the rest of the program reads, after the two \<open>Setenv\<close> calls.\<close>

definition program_environ :: "environ \<Rightarrow> settings \<Rightarrow> environ" where
  "program_environ env st =
     (let env = (if 0 < length (st_namespace st) then env(NamespaceEnvVar \<mapsto> st_namespace st) else env)
      in if st_otel_tracing st then env(EnvTracingEnabled \<mapsto> ''true'') else env)"

definition in_environ :: "world \<Rightarrow> environ \<Rightarrow> world" where
  "in_environ W env = W\<lparr>w_getenv := \<lambda>k. case env k of None \<Rightarrow> '''' | Some v \<Rightarrow> v\<rparr>"

section \<open>Startup\<close>

text \<open>
  What startup takes from libraries besides the world: the OpenTelemetry SDK, the cluster
  configuration (its CA data) for a kubeconfig path or, for the empty one, in the cluster, the
  handlers' libraries, and whether the clientset for the leader's work can be made.
\<close>

record platform =
  pf_otel :: otel
  pf_rest_config :: "string \<Rightarrow> gerr + string"
  pf_libraries :: libraries
  pf_leader_client :: "gerr option"
  pf_parse_float :: "string \<Rightarrow> float_arg option"
  pf_version :: string

datatype log_line = LogInfo msg | LogWarn msg "gerr option" | LogErr msg gerr

definition serviceName :: string where "serviceName = ''auth''"
definition DecoyKey :: string where "DecoyKey = ''password''"

record process =
  pr_settings :: settings
  pr_environ :: environ
  pr_routes :: "server_state route list"
  pr_generator :: generator
  pr_shutdowns :: "signal list"
  pr_renewer :: "renewer option"
  pr_leader_client :: "gerr option"

datatype startup = UsageError | Fatal msg "gerr option" | Started process

definition decoy_selector :: "world \<Rightarrow> settings \<Rightarrow> selector option" where
  "decoy_selector W st =
     (if st_decoy_secret st \<noteq> ''''
      then Some \<lparr>sel_name = st_decoy_secret st, sel_namespace = w_getenv W NamespaceEnvVar, sel_key = DecoyKey\<rparr>
      else None)"

definition route_options_of ::
  "world \<Rightarrow> settings \<Rightarrow> string \<Rightarrow> rsa_public \<Rightarrow> verification_key list \<Rightarrow> route_options" where
  "route_options_of W st version pub previousKeys =
     \<lparr>rp_public_key = pub, rp_key_id = st_kid st, rp_previous_keys = previousKeys,
      rp_jwt_duration = st_cert_expires st, rp_audience = st_audience st, rp_decoy = decoy_selector W st,
      rp_self_username = st_username st, rp_snowplow_url = st_snowplow_url st, rp_healthy = 1,
      rp_version = version, rp_service_name = serviceName\<rparr>"

definition renewal_options_of :: "settings \<Rightarrow> string \<Rightarrow> renewal_options" where
  "renewal_options_of st caData =
     \<lparr>ro_rest_config = True, ro_namespace = st_namespace st, ro_ca_data = caData,
      ro_server_url = st_kubernetes_url st, ro_username = st_username st, ro_groups = [''authn''],
      ro_duration = st_service_cert_expires st, ro_threshold = st_threshold st\<rparr>"

definition generator_of :: "settings \<Rightarrow> generator" where
  "generator_of st =
     new_generator [OptKubernetesURL (st_kubernetes_url st), OptCertDuration (st_cert_expires st),
                    OptClusterName (st_cluster_name st)]"

text \<open>The JWT keys: the signing key read from its file, and the previous ones.\<close>

definition jwt_keys :: "world \<Rightarrow> settings \<Rightarrow> (msg \<times> gerr option) + (rsa_public \<times> verification_key list)" where
  "jwt_keys W st =
     (if st_kid st = '''' then Inl ([Str ''JWT key ID must be set (--jwt-kid / JWT_KID)''], None)
      else case w_read_file W (st_sign_key_file st) of
        Inl e \<Rightarrow> Inl ([Str ''reading JWT signing key file''], Some e)
      | Inr pem \<Rightarrow>
     (case w_rsa_private W pem of
        Inl e \<Rightarrow> Inl ([Str ''parsing JWT signing key''], Some e)
      | Inr pub \<Rightarrow>
     (case parse_previous_keys W (st_previous_keys st) (st_kid st) (Some pub) of
        Inl e \<Rightarrow> Inl ([Str ''JWT previous keys (--jwt-previous-keys / JWT_PREVIOUS_KEYS)''], Some e)
      | Inr keys \<Rightarrow> Inr (pub, keys))))"

definition settings_log :: "environ \<Rightarrow> log_line list" where
  "settings_log env =
     (if tracing_enabled env \<or> metrics_enabled env then [LogInfo [Str ''OpenTelemetry enabled'']] else [])"

definition previous_key_log :: "verification_key list \<Rightarrow> log_line list" where
  "previous_key_log keys =
     map (\<lambda>k. LogInfo [Str ''publishing a previous JWT key for verification only'', Str (vk_kid k)]) keys"

definition decoy_warning :: "world \<Rightarrow> settings \<Rightarrow> log_line list" where
  "decoy_warning W st =
     (if decoy_selector W st = None
      then [LogWarn [Str ''no basic decoy Secret configured: a refused basic login takes less time for an unknown user''] None]
      else [])"

definition issuer_warnings :: "world \<Rightarrow> history \<Rightarrow> log_line list \<times> history" where
  "issuer_warnings W h =
     (case oidc_configs_without_issuer W h of
        (Inl e, h) \<Rightarrow> ([LogWarn [Str ''checking OIDCConfigs for an issuer''] (Some e)], h)
      | (Inr names, h) \<Rightarrow>
          (map (\<lambda>n. LogWarn [Str ''OIDCConfig sets neither spec.issuer nor spec.discoveryURL: its logins are refused until one is set'', Str n] None) names, h))"

text \<open>A clientconfig that cannot be renewed is logged, and the server starts without a renewer.\<close>

definition make_renewer :: "world \<Rightarrow> settings \<Rightarrow> string \<Rightarrow> renewer option \<times> log_line list" where
  "make_renewer W st caData =
     (case renewer_new W (renewal_options_of st caData) of
        Inl e \<Rightarrow> (None, [LogErr [Str ''client certificate renewal unavailable''] e])
      | Inr r \<Rightarrow> (Some r, []))"

definition start_program ::
  "world \<Rightarrow> platform \<Rightarrow> environ \<Rightarrow> command_line \<Rightarrow> history
     \<Rightarrow> (startup \<times> log_line list \<times> otel_effect list) \<times> history" where
  "start_program W0 pf env0 cl h =
     (case settings_of (pf_parse_float pf) env0 cl of
        None \<Rightarrow> ((UsageError, [], []), h)
      | Some st \<Rightarrow>
     (let env = program_environ env0 st; W = in_environ W0 env
      in case telemetry_setup (pf_otel pf) env serviceName (pf_version pf) of
        ((shutdowns, Some e), fx) \<Rightarrow> ((Fatal [Str ''initializing OpenTelemetry''] (Some e), [], fx), h)
      | ((shutdowns, None), fx) \<Rightarrow>
     (case pf_rest_config pf (st_kubeconfig st) of
        Inl e \<Rightarrow> ((Fatal [Str ''resolving kubeconfig for rest client''] (Some e), settings_log env, fx), h)
      | Inr caData \<Rightarrow>
     (case jwt_keys W st of
        Inl (m, e) \<Rightarrow> ((Fatal m e, settings_log env, fx), h)
      | Inr (pub, previousKeys) \<Rightarrow>
     (case build_routes W (pf_libraries pf) (route_options_of W st (pf_version pf) pub previousKeys) h of
        (Inl e, h) \<Rightarrow> ((Fatal [Str ''building routes''] (Some e),
             settings_log env @ previous_key_log previousKeys @ decoy_warning W st, fx), h)
      | (Inr rs, h) \<Rightarrow>
     (case issuer_warnings W h of (warnings, h) \<Rightarrow>
     (case make_renewer W st caData of (renewer, logs) \<Rightarrow>
        ((Started
            \<lparr>pr_settings = st, pr_environ = env, pr_routes = rs, pr_generator = generator_of st,
             pr_shutdowns = shutdowns, pr_renewer = renewer, pr_leader_client = pf_leader_client pf\<rparr>,
          settings_log env @ previous_key_log previousKeys @ decoy_warning W st @ warnings @ logs, fx), h))))))))"

section \<open>Serving\<close>

text \<open>
  The handler chain. The metrics and the names of the server spans are collected beside the
  state the handlers thread; otelhttp, which wraps a request in a span, passes it on unchanged.
\<close>

type_synonym observed = "metric list \<times> string list"

definition with_metrics ::
  "bool \<Rightarrow> (request \<Rightarrow> response \<Rightarrow> 'e \<Rightarrow> response option \<times> 'e) \<Rightarrow> request \<Rightarrow> response \<Rightarrow> 'e \<times> observed
     \<Rightarrow> response option \<times> 'e \<times> observed" where
  "with_metrics on next req w s =
     (case s of (e, ms, spans) \<Rightarrow>
        if on then (case metrics_middleware next req w e of ((r, e), new) \<Rightarrow> (r, (e, ms @ new, spans)))
        else (case next req w e of (r, e) \<Rightarrow> (r, (e, ms, spans))))"

definition with_tracing ::
  "bool \<Rightarrow> (request \<Rightarrow> response \<Rightarrow> 'e \<times> observed \<Rightarrow> response option \<times> 'e \<times> observed)
     \<Rightarrow> request \<Rightarrow> response \<Rightarrow> 'e \<times> observed \<Rightarrow> response option \<times> 'e \<times> observed" where
  "with_tracing on next req w s =
     (case s of (e, ms, spans) \<Rightarrow>
        next req w (e, ms, if on \<and> rq_path req \<noteq> HealthPath then spans @ [rq_path req] else spans))"

definition program_handler ::
  "world \<Rightarrow> process \<Rightarrow> request \<Rightarrow> response \<Rightarrow> server_state \<times> observed
     \<Rightarrow> response option \<times> server_state \<times> observed" where
  "program_handler W p =
     (let handler = with_tracing (tracing_enabled (pr_environ p))
                      (with_metrics (metrics_enabled (pr_environ p)) (serve (pr_routes p)))
      in if st_cors (pr_settings p) then cors_handler W (cors_new W authn_cors_options) handler else handler)"

lemma program_handler_answers:
  "case program_handler W p req w (s, ms, spans) of (r, s', ms', spans') \<Rightarrow>
     (r, s') = authn_handler W (st_cors (pr_settings p)) (pr_routes p) req w s"
  by (auto simp: program_handler_def authn_handler_def cors_handler_def with_tracing_def with_metrics_def
      metrics_middleware_def Let_def split: prod.splits option.splits if_splits)


section \<open>The own-identity work\<close>

text \<open>
  What the elected replica does: the certificate is ensured, the identity annotations are
  backfilled, and then the step-up sweep and the renewal loop run side by side until the
  leadership is lost.
\<close>

definition operator_namespace_or_empty :: "world \<Rightarrow> string \<times> log_line list" where
  "operator_namespace_or_empty W =
     (case operator_namespace W of
        Inl e \<Rightarrow> ('''', [LogErr [Str ''identity annotation backfill: resolving the operator namespace''] e])
      | Inr ns \<Rightarrow> (ns, []))"

definition ensure_at_start :: "world \<Rightarrow> process \<Rightarrow> history \<Rightarrow> (duration \<times> log_line list) \<times> history" where
  "ensure_at_start W p h =
     (case pr_renewer p of
        None \<Rightarrow> ((0, []), h)
      | Some r \<Rightarrow>
          (case ensure W r h of
             ((wait, Some e), h) \<Rightarrow> ((wait, [LogErr [Str ''issuing authn clientconfig''] e]), h)
           | ((wait, None), h) \<Rightarrow> ((wait, []), h)))"

definition own_namespaces :: "world \<Rightarrow> process \<Rightarrow> string list" where
  "own_namespaces W p = [fst (operator_namespace_or_empty W), st_namespace (pr_settings p)]"

definition backfill_at_start :: "world \<Rightarrow> process \<Rightarrow> history \<Rightarrow> log_line list \<times> history" where
  "backfill_at_start W p h =
     (case backfill_run W None (own_namespaces W p) (st_username (pr_settings p)) h of
        ((Some e, _), h) \<Rightarrow> ([LogErr [Str ''identity annotation backfill''] e], h)
      | ((None, res), h) \<Rightarrow>
          ([LogInfo [Str ''identity annotation backfill done'', Dec (int (bf_scanned res)),
              Dec (int (bf_stamped res)), Dec (int (bf_skipped res))]], h))"

definition own_identity_start :: "world \<Rightarrow> process \<Rightarrow> history \<Rightarrow> (duration \<times> log_line list) \<times> history" where
  "own_identity_start W p h =
     (case ensure_at_start W p h of
        ((wait, l1), h) \<Rightarrow>
     (case backfill_at_start W p h of
        (l2, h) \<Rightarrow> ((wait, l1 @ snd (operator_namespace_or_empty W) @ l2), h)))"

definition renews :: "process \<Rightarrow> bool" where
  "renews p \<longleftrightarrow> pr_renewer p \<noteq> None \<and> st_cert_renewal (pr_settings p)"

text \<open>
  The two loops share no memory. A turn of either is one pass of its body, taken whole; the
  schedule of the turns is arbitrary. Without a renewer, or with renewal switched off, the
  foreground only waits.
\<close>

datatype turn = SweepTurn | RenewTurn

fun own_identity_turn :: "world \<Rightarrow> process \<Rightarrow> turn \<Rightarrow> duration \<times> history \<Rightarrow> duration \<times> history" where
  "own_identity_turn W p SweepTurn (wait, h) = (wait, snd (sweep W (own_namespaces W p) 0 h))"
| "own_identity_turn W p RenewTurn (wait, h) =
     (if renews p
      then (case pr_renewer p of
              None \<Rightarrow> (wait, h)
            | Some r \<Rightarrow> (case ensure W r h of ((wait, _), h) \<Rightarrow> (wait, h)))
      else (wait, h))"

definition own_identity :: "world \<Rightarrow> process \<Rightarrow> turn list \<Rightarrow> history \<Rightarrow> duration \<times> history" where
  "own_identity W p turns h =
     (case own_identity_start W p h of
        ((wait, _), h) \<Rightarrow> fold (own_identity_turn W p) turns (wait, h))"

text \<open>What each call of that work is: one of the renewer, of the backfill or of a sweep.\<close>

definition own_identity_call :: "world \<Rightarrow> process \<Rightarrow> history \<Rightarrow> call \<Rightarrow> bool" where
  "own_identity_call W p h k \<longleftrightarrow>
     (case pr_renewer p of None \<Rightarrow> False | Some r \<Rightarrow> renewal_call r k)
     \<or> backfill_step W (own_namespaces W p) h k
     \<or> sweep_step W DefaultGrace (own_namespaces W p) h k"

lemma ensure_steps:
  assumes "pr_renewer p = Some r" and "ensure W r h = ((wait, e), h')"
  shows "steps_from (own_identity_call W p) h h'"
proof -
  have "extends (renewal_call r) h h'" using ensure_run [OF assms(2)] by (auto simp: extends_def)
  then show ?thesis by (rule steps_of_extends) (simp add: own_identity_call_def assms(1))
qed

lemma own_identity_start_steps:
  "own_identity_start W p h = (x, h') \<Longrightarrow> steps_from (own_identity_call W p) h h'"
proof -
  assume s: "own_identity_start W p h = (x, h')"
  obtain a h1 where a: "ensure_at_start W p h = (a, h1)" by (metis surj_pair)
  obtain b h2 where b: "backfill_at_start W p h1 = (b, h2)" by (metis surj_pair)
  have h2: "h' = h2" using s a b by (auto simp: own_identity_start_def split: prod.splits)
  have "steps_from (own_identity_call W p) h h1"
    using a by (auto simp: ensure_at_start_def steps_none split: option.splits prod.splits dest: ensure_steps)
  moreover have "steps_from (own_identity_call W p) h1 h2"
    using b by (auto simp: backfill_at_start_def own_identity_call_def split: prod.splits option.splits
        dest!: backfill_run_steps intro: steps_mono)
  ultimately show ?thesis unfolding h2 by (rule steps_trans)
qed

lemma own_identity_turn_steps:
  "own_identity_turn W p t (wait, h) = (wait', h') \<Longrightarrow> steps_from (own_identity_call W p) h h'"
proof (cases t)
  case SweepTurn
  assume "own_identity_turn W p t (wait, h) = (wait', h')"
  with SweepTurn obtain r where "sweep W (own_namespaces W p) 0 h = (r, h')"
    by (cases "sweep W (own_namespaces W p) 0 h") auto
  from sweep_steps [OF this] show ?thesis
    by (auto intro: steps_mono simp: own_identity_call_def)
next
  case RenewTurn
  assume "own_identity_turn W p t (wait, h) = (wait', h')"
  with RenewTurn show ?thesis
    by (auto simp: steps_none split: if_splits option.splits prod.splits dest: ensure_steps)
qed

lemma own_identity_turns_steps:
  "fold (own_identity_turn W p) turns (wait, h) = (wait', h') \<Longrightarrow> steps_from (own_identity_call W p) h h'"
proof (induction turns arbitrary: wait h)
  case (Cons t turns)
  obtain w1 h1 where t: "own_identity_turn W p t (wait, h) = (w1, h1)" by (metis surj_pair)
  with Cons show ?case
    using own_identity_turn_steps [OF t] by (auto intro: steps_trans)
qed (simp add: steps_none)


section \<open>The leader and the shutdown\<close>

text \<open>\<open>leaderIdentity\<close>; \<open>None\<close> where the random source fails and \<open>NewGen\<close> panics.\<close>

definition leader_identity :: "gerr + string \<Rightarrow> byte list option \<Rightarrow> string option" where
  "leader_identity hostname entropy =
     (let host = (case hostname of Inl _ \<Rightarrow> ''authn'' | Inr name \<Rightarrow> if name = '''' then ''authn'' else name)
      in map_option (\<lambda>g. host @ ''_'' @ uuid_string (fst (uuid_new_v4 g))) (uuid_new_gen entropy))"

definition leader_options_of :: "process \<Rightarrow> string \<Rightarrow> leader_options" where
  "leader_options_of p identity =
     \<lparr>ld_client = True, ld_namespace = st_namespace (pr_settings p), ld_name = CertRenewalLease,
      ld_identity = identity, ld_lease_duration = 0, ld_renew_deadline = 0, ld_retry_period = 0\<rparr>"

text \<open>The goroutine that campaigns, with what it logs when there is no election.\<close>

definition leader_main ::
  "process \<Rightarrow> string \<Rightarrow> (election_config \<Rightarrow> gerr option) \<Rightarrow> ('s \<Rightarrow> bool) \<Rightarrow> ('s \<Rightarrow> election_event list \<times> 's)
     \<Rightarrow> 's \<Rightarrow> (log_line list \<times> leader_effect list \<times> 's) option" where
  "leader_main p identity new_elector is_done run s =
     (let unavailable = LogErr [Str ''leader election unavailable; authn's own certificate is not maintained'']
      in case pr_leader_client p of
           Some e \<Rightarrow> Some ([unavailable e], [], s)
         | None \<Rightarrow>
             map_option (\<lambda>(err, fx, s). (case err of None \<Rightarrow> [] | Some e \<Rightarrow> [unavailable e], fx, s))
               (leader_run (leader_options_of p identity) new_elector is_done run s))"

text \<open>What the shutdown does, in order; its result is a fatal error when the server does not stop.\<close>

datatype shutdown_effect = StoreHealthy int | FlushTelemetry "otel_effect list" | DisableKeepAlives | StopServer

definition shutdown_program :: "otel \<Rightarrow> process \<Rightarrow> gerr option \<Rightarrow> (shutdown_effect list \<times> log_line list) \<times> gerr option" where
  "shutdown_program ot p server_shutdown =
     (case run_shutdowns ot (pr_shutdowns p) of
        (err, fx) \<Rightarrow>
          (([StoreHealthy 0, FlushTelemetry fx, DisableKeepAlives, StopServer],
            case err of None \<Rightarrow> [] | Some e \<Rightarrow> [LogErr [Str ''error shutting down OpenTelemetry''] e]),
           server_shutdown))"

text \<open>
  The HTTP server and the goroutine that serves it: the probe turns healthy before the socket is
  bound, and any end but the shutdown's is fatal, so a port that is taken stops the process.
\<close>

record http_server =
  hs_addr :: string
  hs_read_timeout :: duration
  hs_write_timeout :: duration
  hs_idle_timeout :: duration

definition http_server_of :: "settings \<Rightarrow> http_server" where
  "http_server_of st =
     \<lparr>hs_addr = '':'' @ itoa (st_port st), hs_read_timeout = 10 * second,
      hs_write_timeout = 50 * second, hs_idle_timeout = 30 * second\<rparr>"

definition ErrServerClosed :: gerr where
  "ErrServerClosed = Sentinel ''http: Server closed''"

definition serving_goroutine ::
  "settings \<Rightarrow> (http_server \<Rightarrow> gerr option) \<Rightarrow> shutdown_effect list \<times> (msg \<times> gerr) option" where
  "serving_goroutine st listen_and_serve =
     ([StoreHealthy 1],
      case listen_and_serve (http_server_of st) of
        None \<Rightarrow> None
      | Some e \<Rightarrow>
          if e \<noteq> ErrServerClosed
          then Some ([Str ''could not listen on '', Str (hs_addr (http_server_of st))], e) else None)"

text \<open>
  An answer has less time than an issuance may take: the write timeout is over before the wait
  for a certificate is.
\<close>

lemma write_timeout_before_certificate_wait:
  "hs_write_timeout (http_server_of st) < certificateWaitTimeout"
  by (simp add: http_server_of_def certificateWaitTimeout_def)

section \<open>What the settings come to\<close>

text \<open>
  The host and port flags of snowplow are read before the command line is, so giving them
  changes nothing.
\<close>

lemma snowplow_flags_ignored:
  "settings_of pf env (cl\<lparr>cl_snowplow_host := a, cl_snowplow_post := b\<rparr>) = settings_of pf env cl"
  by (simp add: settings_of_def snowplow_url_def)

text \<open>Switching the tracing flag off does not switch tracing off when the environment has it on.\<close>

lemma tracing_flag_cannot_disable:
  "settings_of pf env cl = Some st \<Longrightarrow> tracing_enabled env \<Longrightarrow> tracing_enabled (program_environ env st)"
proof -
  assume "tracing_enabled env"
  moreover have "rune_cuts ''true'' = map (\<lambda>c. (byte_of c, [c])) ''true''"
    by (rule rune_cuts_ascii) (simp add: is_ascii_def byte_of_def)
  then have "trim_space ''true'' = ''true''"
    by (simp only: trim_space_def) (simp add: byte_of_def is_space_def del: rune_cuts.simps)
  ultimately show ?thesis
    by (auto simp: program_environ_def Let_def tracing_enabled_def telemetry_enabled_def env_bool_def parse_bool_def
        NamespaceEnvVar_def EnvTracingEnabled_def EnvEnabled_def split: option.splits)
qed

text \<open>Without a storage namespace there is no election, so the certificate is never maintained.\<close>

lemma no_storage_namespace_no_leader:
  "st_namespace (pr_settings p) = '''' \<Longrightarrow> \<exists>l. leader_main p identity new_elector is_done run s = Some ([l], [], s)"
proof -
  assume "st_namespace (pr_settings p) = ''''"
  then obtain e where "leader_run (leader_options_of p identity) new_elector is_done run s = Some (Some e, [], s)"
    using no_namespace_no_campaign [of "leader_options_of p identity"] by (force simp: leader_options_of_def)
  then show ?thesis by (cases "pr_leader_client p") (simp_all add: leader_main_def)
qed

lemma issuer_warnings_quiet: "issuer_warnings W h = (l, h') \<Longrightarrow> extends quiet h h'"
  by (auto simp: issuer_warnings_def oidc_configs_without_issuer_def list_oidc_configs_def ask_defs
      split: prod.splits sum.splits option.splits)

lemma build_routes_calls:
  "build_routes W lb ro h = (r, h') \<Longrightarrow>
     h' = h @ [CSign (own_token ro)] \<and> (case r of Inl _ \<Rightarrow> True | Inr rs \<Rightarrow> length rs = 9)"
  by (auto simp: build_routes_def ask_sign_def routes_with_def Let_def split: sum.splits)

lemma telemetry_setup_ok:
  "telemetry_setup ot env name version = ((shutdowns, None), fx) \<Longrightarrow> providers fx = shutdowns"
  by (auto simp: telemetry_setup_def Let_def setup_signal_def run_shutdowns_def split: option.splits if_splits)

lemma jwt_keys_kid: "jwt_keys W st = Inr x \<Longrightarrow> st_kid st \<noteq> ''''"
  by (auto simp: jwt_keys_def split: if_splits)

text \<open>
  How a startup ends: with nothing asked of the cluster, or once the settings, telemetry, the REST
  config and the keys are there, in what building the routes and the issuer warnings do.
\<close>

definition own_sign :: "call \<Rightarrow> bool" where
  "own_sign c \<longleftrightarrow> (case c of CSign t \<Rightarrow> jo_groups t = [''authn''] \<and> jo_key_id t \<noteq> '''' | _ \<Rightarrow> False)"

lemma start_program_run:
  assumes st: "settings_of (pf_parse_float pf) env cl = Some st"
    and V: "V = in_environ W (program_environ env st)"
    and t: "telemetry_setup (pf_otel pf) (program_environ env st) serviceName (pf_version pf) = ((shutdowns, None), fx)"
    and c: "pf_rest_config pf (st_kubeconfig st) = Inr caData" "jwt_keys V st = Inr (pub, keys)"
    and s: "start_program W pf env cl h = ((s, logs, fx'), h')"
  obtains t new where "h' = h @ CSign t # new" "own_sign (CSign t)" "list_all quiet new"
    and "case s of
        Started p \<Rightarrow> st_kid (pr_settings p) \<noteq> '''' \<and> length (pr_routes p) = 9 \<and> pr_shutdowns p = providers fx'
      | _ \<Rightarrow> True"
proof -
  let ?ro = "route_options_of V st (pf_version pf) pub keys"
  obtain r h1 where b: "build_routes V (pf_libraries pf) ?ro h = (r, h1)" by force
  have h1: "h1 = h @ [CSign (own_token ?ro)]" "case r of Inl _ \<Rightarrow> True | Inr rs \<Rightarrow> length rs = 9"
    using build_routes_calls [OF b] by auto
  note kid = jwt_keys_kid [OF c(2)] and tel = telemetry_setup_ok [OF t]
  have tok: "own_sign (CSign (own_token ?ro))"
    using kid by (simp add: own_sign_def own_token_def route_options_of_def)
  obtain l h2 where w: "issuer_warnings V h1 = (l, h2)" by force
  from issuer_warnings_quiet [OF w] obtain new where new: "h2 = h1 @ new" "list_all quiet new"
    by (auto simp: extends_def)
  note eqs = st t c b h1 w s [unfolded start_program_def] V [symmetric]
  show ?thesis
  proof (cases r)
    case (Inl e)
    with eqs tok show ?thesis by (intro that [of _ "[]"]) (auto simp: Let_def)
  next
    case (Inr rs)
    with eqs tok kid tel new show ?thesis
      by (intro that [of _ new]) (auto simp: Let_def split: prod.splits)
  qed
qed

lemma start_program_stops:
  assumes s: "start_program W pf env cl h = ((s, logs, fx), h')"
    and stop: "\<And>st shutdowns fx caData pub keys. settings_of (pf_parse_float pf) env cl = Some st \<Longrightarrow>
      telemetry_setup (pf_otel pf) (program_environ env st) serviceName (pf_version pf) = ((shutdowns, None), fx) \<Longrightarrow>
      pf_rest_config pf (st_kubeconfig st) = Inr caData \<Longrightarrow>
      jwt_keys (in_environ W (program_environ env st)) st \<noteq> Inr (pub, keys)"
  shows "h' = h \<and> (case s of Started _ \<Rightarrow> False | _ \<Rightarrow> True)"
proof (cases "settings_of (pf_parse_float pf) env cl")
  case (Some st)
  obtain shutdowns terr fx where t: "telemetry_setup (pf_otel pf) (program_environ env st) serviceName (pf_version pf)
      = ((shutdowns, terr), fx)" by (metis surj_pair)
  show ?thesis
    using s Some t stop by (auto simp: start_program_def Let_def split: option.splits sum.splits prod.splits)
qed (use s in \<open>simp add: start_program_def\<close>)

lemma start_program_cases:
  assumes s: "start_program W pf env cl h = ((s, logs, fx), h')"
  obtains (stopped) "h' = h" "case s of Started _ \<Rightarrow> False | _ \<Rightarrow> True"
  | (ran) t new where "h' = h @ CSign t # new" "own_sign (CSign t)" "list_all quiet new" "filter issues new = []"
      "case s of
         Started p \<Rightarrow> st_kid (pr_settings p) \<noteq> '''' \<and> length (pr_routes p) = 9 \<and> pr_shutdowns p = providers fx
       | _ \<Rightarrow> True"
proof (cases "h' = h \<and> (case s of Started _ \<Rightarrow> False | _ \<Rightarrow> True)")
  case True
  then show ?thesis by (intro stopped) auto
next
  case False
  with start_program_stops [OF s] obtain st shutdowns fx1 caData pub keys where
    "settings_of (pf_parse_float pf) env cl = Some st"
    "telemetry_setup (pf_otel pf) (program_environ env st) serviceName (pf_version pf) = ((shutdowns, None), fx1)"
    "pf_rest_config pf (st_kubeconfig st) = Inr caData"
    "jwt_keys (in_environ W (program_environ env st)) st = Inr (pub, keys)"
    by blast
  from start_program_run [OF this(1) refl this(2-4) s] obtain t new where
    new: "h' = h @ CSign t # new" "own_sign (CSign t)" "list_all quiet new" and
    ok: "case s of
        Started p \<Rightarrow> st_kid (pr_settings p) \<noteq> '''' \<and> length (pr_routes p) = 9 \<and> pr_shutdowns p = providers fx
      | _ \<Rightarrow> True" .
  from new(3) have "filter issues new = []" by (induction new) (auto simp: quiet_def)
  with new ok show ?thesis by (intro ran)
qed


end
