(* ===== verification/Service.thy ===== *)
theory Service
  imports Program
begin

text \<open>
  authn over time: any number of replicas are booted and halted, each serves requests with its own
  generator, and any of them may do the leader's work, in any order and, whatever the Lease says,
  several at once. The replicas share only the world's history. A run is a list of such events;
  its trace says, for each event, what was asked of the world.
\<close>

section \<open>The replicas and their events\<close>

record replica =
  re_process :: process
  re_generator :: generator
  re_observed :: observed
  re_wait :: duration

record service =
  sv_history :: history
  sv_replicas :: "nat \<rightharpoonup> replica"

datatype event =
    Boot nat environ command_line
  | Handle nat request
  | Lead nat
  | LeaderTurn nat turn
  | Halt nat

text \<open>A process reads its own environment.\<close>

definition world_of :: "world \<Rightarrow> process \<Rightarrow> world" where
  "world_of W p = in_environ W (pr_environ p)"

definition boot :: "world \<Rightarrow> platform \<Rightarrow> nat \<Rightarrow> environ \<Rightarrow> command_line \<Rightarrow> service \<Rightarrow> service" where
  "boot W pf i env cl s =
     (case start_program W pf env cl (sv_history s) of ((st, _, _), h) \<Rightarrow>
        \<lparr>sv_history = h,
         sv_replicas = (sv_replicas s)(i :=
           case st of
             Started p \<Rightarrow> Some \<lparr>re_process = p, re_generator = pr_generator p, re_observed = ([], []), re_wait = 0\<rparr>
           | _ \<Rightarrow> None)\<rparr>)"

definition handle_request :: "world \<Rightarrow> replica \<Rightarrow> request \<Rightarrow> history \<Rightarrow> response option \<times> replica \<times> history" where
  "handle_request W r req h =
     (case program_handler (world_of W (re_process r)) (re_process r) req fresh_writer
             ((re_generator r, h), re_observed r) of
        (resp, (g, h), obs) \<Rightarrow> (resp, r\<lparr>re_generator := g, re_observed := obs\<rparr>, h))"

definition lead :: "world \<Rightarrow> replica \<Rightarrow> history \<Rightarrow> replica \<times> history" where
  "lead W r h =
     (case own_identity_start (world_of W (re_process r)) (re_process r) h of
        ((wait, _), h) \<Rightarrow> (r\<lparr>re_wait := wait\<rparr>, h))"

definition leader_turn :: "world \<Rightarrow> turn \<Rightarrow> replica \<Rightarrow> history \<Rightarrow> replica \<times> history" where
  "leader_turn W t r h =
     (case own_identity_turn (world_of W (re_process r)) (re_process r) t (re_wait r, h) of
        (wait, h) \<Rightarrow> (r\<lparr>re_wait := wait\<rparr>, h))"

text \<open>What a replica does to the service; nothing when it is not running.\<close>

definition on_replica :: "nat \<Rightarrow> (replica \<Rightarrow> history \<Rightarrow> replica \<times> history) \<Rightarrow> service \<Rightarrow> service" where
  "on_replica i f s =
     (case sv_replicas s i of
        None \<Rightarrow> s
      | Some r \<Rightarrow>
          (case f r (sv_history s) of
             (r, h) \<Rightarrow> \<lparr>sv_history = h, sv_replicas = (sv_replicas s)(i \<mapsto> r)\<rparr>))"

fun service_step :: "world \<Rightarrow> platform \<Rightarrow> event \<Rightarrow> service \<Rightarrow> service" where
  "service_step W pf (Boot i env cl) s = boot W pf i env cl s"
| "service_step W pf (Handle i req) s = on_replica i (\<lambda>r h. snd (handle_request W r req h)) s"
| "service_step W pf (Lead i) s = on_replica i (lead W) s"
| "service_step W pf (LeaderTurn i t) s = on_replica i (leader_turn W t) s"
| "service_step W pf (Halt i) s = s\<lparr>sv_replicas := (sv_replicas s)(i := None)\<rparr>"

text \<open>The trace of a run: each event with the service before and after it.\<close>

fun service_trace :: "world \<Rightarrow> platform \<Rightarrow> event list \<Rightarrow> service \<Rightarrow> (service \<times> event \<times> service) list" where
  "service_trace W pf [] s = []"
| "service_trace W pf (ev # evs) s =
     (s, ev, service_step W pf ev s) # service_trace W pf evs (service_step W pf ev s)"

definition idle :: "history \<Rightarrow> service" where
  "idle h = \<lparr>sv_history = h, sv_replicas = Map.empty\<rparr>"

section \<open>What accounts for the calls of an event\<close>

text \<open>The strategy a credential route issues under.\<close>

definition login_routes :: "((string \<times> string) \<times> strategy) list" where
  "login_routes =
     [((''GET'', BasicPath), StrategyBasic), ((''POST'', LDAPPath), StrategyLDAP),
      ((''GET'', OAuthPath), StrategyOAuth), ((''GET'', OIDCPath), StrategyOIDC),
      ((''POST'', ServiceAccountPath), StrategyServiceAccount), ((''POST'', StepUpPath), StrategyOIDC)]"

text \<open>
  A call that issues to user \<open>u\<close>, or one any login may make. The user of a session holds no
  reserved group; that of a step-up holds exactly the one of its level.
\<close>

definition issues_to :: "world \<Rightarrow> bool \<Rightarrow> strategy \<Rightarrow> user \<Rightarrow> call \<Rightarrow> bool" where
  "issues_to W stepUp s u c \<longleftrightarrow>
     reads_or_completes c \<or> login_call (\<lambda>x. x = credential_name W stepUp (u_name u)) s u c"

definition entitled :: "bool \<Rightarrow> user \<Rightarrow> bool" where
  "entitled stepUp u \<longleftrightarrow> filter is_reserved (u_groups u) = (if stepUp then [StepUpGroup 2] else [])"

definition one_login :: "world \<Rightarrow> request \<Rightarrow> history \<Rightarrow> history \<Rightarrow> bool" where
  "one_login W req h h' \<longleftrightarrow>
     (let stepUp = (rq_path req = StepUpPath)
      in extends reads_or_completes h h'
         \<or> (\<exists>s u. ((rq_method req, rq_path req), s) \<in> set login_routes \<and> entitled stepUp u
              \<and> extends (issues_to W stepUp s u) h h'))"

definition accounted :: "world \<Rightarrow> service \<times> event \<times> service \<Rightarrow> bool" where
  "accounted W t \<longleftrightarrow>
     (case t of (s, ev, s') \<Rightarrow>
        let h = sv_history s; h' = sv_history s'
        in case ev of
             Boot _ _ _ \<Rightarrow> extends (\<lambda>c. quiet c \<or> own_sign c) h h' \<and> length (filter issues (new_calls h h')) \<le> 1
           | Handle i req \<Rightarrow>
               (case sv_replicas s i of
                  None \<Rightarrow> h' = h
                | Some r \<Rightarrow> one_login (world_of W (re_process r)) req h h')
           | Lead i \<Rightarrow>
               (case sv_replicas s i of
                  None \<Rightarrow> h' = h
                | Some r \<Rightarrow> steps_from (own_identity_call (world_of W (re_process r)) (re_process r)) h h')
           | LeaderTurn i _ \<Rightarrow>
               (case sv_replicas s i of
                  None \<Rightarrow> h' = h
                | Some r \<Rightarrow> steps_from (own_identity_call (world_of W (re_process r)) (re_process r)) h h')
           | Halt _ \<Rightarrow> h' = h)"

section \<open>One request\<close>

lemma one_login_reads: "extends reads_or_completes h h' \<Longrightarrow> one_login W req h h'"
  by (simp add: one_login_def Let_def)

lemma one_login_quiet: "extends quiet h h' \<Longrightarrow> one_login W req h h'"
  by (rule one_login_reads) (erule extends_mono, simp add: reads_or_completes_def)

lemma one_login_session:
  assumes "((rq_method req, rq_path req), s) \<in> set login_routes" and "rq_path req \<noteq> StepUpPath"
    and "unprivileged u"
    and "extends (\<lambda>c. reads_or_completes c \<or> login_call (\<lambda>x. x = client_config_secret_name W (u_name u)) s u c) h h'"
  shows "one_login W req h h'"
proof -
  have "entitled False u" using assms(3) by (simp add: entitled_def unprivileged_def filter_empty_conv)
  moreover have "extends (issues_to W False s u) h h'"
    using assms(4) by (rule extends_mono) (simp add: issues_to_def credential_name_def)
  ultimately show ?thesis using assms(1,2) by (auto simp: one_login_def)
qed

lemma one_login_session_quiet:
  assumes "((rq_method req, rq_path req), s) \<in> set login_routes" and "rq_path req \<noteq> StepUpPath"
    and "unprivileged u"
    and "extends (\<lambda>c. quiet c \<or> login_call (\<lambda>x. x = client_config_secret_name W (u_name u)) s u c) h h'"
  shows "one_login W req h h'"
  using assms(1-3) by (rule one_login_session) (rule extends_mono [OF assms(4)], auto simp: reads_or_completes_def)

lemmas path_defs =
  StrategiesPath_def HealthPath_def JwksPath_def BasicPath_def ServiceAccountPath_def LDAPPath_def
  OAuthPath_def OIDCPath_def StepUpPath_def

lemma login_paths:
  "((''GET'', BasicPath), StrategyBasic) \<in> set login_routes" "BasicPath \<noteq> StepUpPath"
  "((''POST'', LDAPPath), StrategyLDAP) \<in> set login_routes" "LDAPPath \<noteq> StepUpPath"
  "((''GET'', OAuthPath), StrategyOAuth) \<in> set login_routes" "OAuthPath \<noteq> StepUpPath"
  "((''GET'', OIDCPath), StrategyOIDC) \<in> set login_routes" "OIDCPath \<noteq> StepUpPath"
  "((''POST'', ServiceAccountPath), StrategyServiceAccount) \<in> set login_routes"
  "ServiceAccountPath \<noteq> StepUpPath"
  "((''POST'', StepUpPath), StrategyOIDC) \<in> set login_routes"
  by (simp_all add: login_routes_def path_defs)

text \<open>Each login, on a request to its own route.\<close>

lemma basic_one_login:
  assumes "basic_login W opts decoy len g req w h = (w', g', h')"
    and "rq_method req = ''GET''" "rq_path req = BasicPath"
  shows "one_login W req h h'"
  using assms(1)
proof (cases rule: basic_login_cases)
  case unauthenticated
  then show ?thesis by (simp add: one_login_quiet)
next
  case (refused n p e)
  from basic_validate_quiet [OF refused(2)] show ?thesis by (rule one_login_quiet)
next
  case (valid n p u h1)
  have "extends (\<lambda>c. quiet c \<or> login_call (\<lambda>x. x = client_config_secret_name W (u_name u)) StrategyBasic u c) h h'"
    by (rule extends_trans [OF quiet_or [OF basic_validate_quiet [OF valid(2)]] extends_mono [OF valid(3)]]) simp
  with basic_validate_ok [OF valid(2)] login_paths(1,2) assms(2,3) show ?thesis
    by (intro one_login_session_quiet [where s = StrategyBasic and u = u]) simp_all
qed

lemma service_account_one_login:
  assumes b: "sa_login W opts aud g req w h = (w', g', h')"
    and "rq_method req = ''POST''" "rq_path req = ServiceAccountPath"
  shows "one_login W req h h'"
proof (cases "bearer_token req")
  case None
  with b show ?thesis by (simp add: sa_login_def one_login_quiet)
next
  case (Some tok)
  obtain r h1 where v: "sa_validate W aud tok h = (r, h1)" by force
  show ?thesis
  proof (cases r)
    case (Inl e)
    with b Some v have "h' = h1" by (simp add: sa_login_def)
    with sa_validate_quiet [OF v] show ?thesis by (simp add: one_login_quiet)
  next
    case (Inr u)
    with sa_login_valid [OF v [unfolded Inr] Some b] sa_validate_ok [OF v [unfolded Inr]]
      login_paths(9,10) assms(2,3) show ?thesis
      by (intro one_login_session_quiet [where s = StrategyServiceAccount and u = u]) simp_all
  qed
qed

lemma ldap_one_login:
  assumes b: "ldap_login W media dec opts g req w h = (w', g', h')"
    and "rq_method req = ''POST''" "rq_path req = LDAPPath"
  shows "one_login W req h h'"
proof -
  obtain err user pass where j: "json_body media dec ('''', '''') req = (err, user, pass)"
    using prod_cases3 by blast
  show ?thesis
  proof (cases "ldap_login_with W opts g (query_get req ''name'') user pass w h = (w', g', h')")
    case True
    from ldap_login_with_cases [OF True] show ?thesis
    proof (elim disjE exE conjE)
      assume "extends quiet h h'"
      then show ?thesis by (rule one_login_quiet)
    next
      fix u
      assume "unprivileged u"
        "extends (\<lambda>c. quiet c \<or> login_call (\<lambda>x. x = client_config_secret_name W (u_name u)) StrategyLDAP u c) h h'"
      with login_paths(3,4) assms(2,3) show ?thesis
        by (intro one_login_session_quiet [where s = StrategyLDAP and u = u]) simp_all
    qed
  next
    case False
    with b j have "h' = h" by (auto simp: ldap_login_def Let_def split: if_splits option.splits)
    then show ?thesis by (simp add: one_login_quiet)
  qed
qed

lemma oauth_one_login:
  assumes b: "oauth_login W reqCtx base opts g req w h = (w', g', h')"
    and "rq_method req = ''GET''" "rq_path req = OAuthPath"
  shows "one_login W req h h'"
  using b
proof (cases rule: oauth_login_cases)
  case refused
  then show ?thesis by (simp add: one_login_reads)
next
  case (completed oc ref h1 x tok p h3 u h4)
  let ?P = "\<lambda>c. reads_or_completes c \<or> login_call (\<lambda>x. x = client_config_secret_name W (u_name u)) StrategyOAuth u c"
  note uf = oauth_validate_facts [OF completed(6)]
  have "extends ?P h4 h'"
    using session_tail_calls [OF completed(8)] by (rule extends_mono) (auto simp: reads_or_completes_def)
  moreover have "extends ?P h h4"
    using extends_snoc [OF completed(7), of CNewId] uf by (auto simp: reads_or_completes_def elim: extends_mono)
  ultimately have "extends ?P h h'" by (rule extends_trans [rotated])
  moreover have "unprivileged u" using uf by (rule conjunct1 [OF conjunct2])
  ultimately show ?thesis
    using login_paths(5,6) assms(2,3) by (intro one_login_session [where s = StrategyOAuth and u = u]) simp_all
qed

lemma oidc_one_login:
  assumes b: "oidc_login W reqCtx base opts g req w h = (w', g', h')"
    and "rq_method req = ''GET''" "rq_path req = OIDCPath"
  shows "one_login W req h h'"
  using b
proof (cases rule: oidc_login_cases)
  case refused
  then show ?thesis by (simp add: one_login_reads)
next
  case (admitted cfg tok u)
  with login_paths(7,8) assms(2,3) show ?thesis
    by (intro one_login_session [where s = StrategyOIDC and u = u]) (simp_all add: authenticated_def)
qed

lemma step_up_one_login:
  assumes b: "oidc_step_up W reqCtx base opts g req w h = (w', g', h')"
    and "rq_method req = ''POST''" "rq_path req = StepUpPath"
  shows "one_login W req h h'"
  using b
proof (cases rule: oidc_step_up_cases)
  case refused
  then show ?thesis by (simp add: one_login_reads)
next
  case (granted cfg tok nfo h1 c)
  let ?up = "new_step_up_user nfo StepUpLevel"
  note ok = authenticate_ok [OF granted(1)]
  have "entitled True ?up"
    using ok by (simp add: authenticated_def entitled_def StepUpLevel_def filter_empty_conv)
  moreover have "extends (issues_to W True StrategyOIDC ?up) h h'"
    by (rule extends_trans [OF extends_mono [OF granted(4)] extends_mono [OF granted(5)]])
      (simp_all add: issues_to_def credential_name_def)
  ultimately have "\<exists>s u. ((rq_method req, rq_path req), s) \<in> set login_routes \<and> entitled True u
      \<and> extends (issues_to W True s u) h h'"
    using login_paths(11) assms(2,3) by metis
  then show ?thesis using assms(3) by (simp add: one_login_def)
qed

text \<open>Whatever the request, it is served as one login or as none.\<close>

lemma login_handler_one:
  assumes "login_handler f req w (g, h) = (resp, g', h')"
    and "\<And>w' g' h'. f g req w h = (w', g', h') \<Longrightarrow> one_login W req h h'"
  shows "one_login W req h h'"
  using assms by (auto simp: login_handler_def split: prod.splits)

lemma list_handler_one: "list_handler W req w (g, h) = (resp, g', h') \<Longrightarrow> one_login V req h h'"
  by (auto simp: list_handler_def split: prod.splits intro: one_login_quiet dest: strategies_quiet)

lemma always_one: "always f req w (g, h) = (resp, g', h') \<Longrightarrow> one_login V req h h'"
  by (simp add: always_def one_login_quiet)

lemma route_one_login:
  assumes r: "r \<in> set (routes_with W lb ro tok)"
    and m: "rq_method req = rt_method r" and p: "rq_path req = rt_pattern r"
    and c: "rt_handler r req w (g, h) = (resp, g', h')"
  shows "one_login W req h h'"
proof -
  let ?opts = "\<lparr>lo_jwt_duration = rp_jwt_duration ro, lo_has_key = True, lo_key_id = rp_key_id ro\<rparr>"
    and ?base = "rest_action_context ro tok"
  from r have "r = strategies_route W \<or> (\<exists>a b c. r = health_route a b c) \<or> (\<exists>a b c. r = jwks_route a b c)
    \<or> r = basic_route W lb ?opts (rp_decoy ro) \<or> r = service_account_route W ?opts (rp_audience ro)
    \<or> r = ldap_route W lb ?opts \<or> r = oauth_route W lb ?base ?opts
    \<or> r = oidc_route W lb ?base ?opts \<or> r = step_up_route W lb ?base ?opts"
    unfolding routes_with_def Let_def set_simps by blast
  then consider "r = strategies_route W" | x y z where "r = health_route x y z"
    | x y z where "r = jwks_route x y z"
    | "r = basic_route W lb ?opts (rp_decoy ro)" | "r = service_account_route W ?opts (rp_audience ro)"
    | "r = ldap_route W lb ?opts" | "r = oauth_route W lb ?base ?opts"
    | "r = oidc_route W lb ?base ?opts" | "r = step_up_route W lb ?base ?opts"
    by blast
  then show ?thesis
  proof cases
    case 1 with c show ?thesis by (simp add: strategies_route_def list_handler_one)
  next
    case 2 with c show ?thesis by (simp add: health_route_def always_one)
  next
    case 3 with c show ?thesis by (simp add: jwks_route_def always_one)
  next
    case 4
    with c m p show ?thesis
      by (simp add: basic_route_def) (erule login_handler_one, erule basic_one_login, simp_all)
  next
    case 5
    with c m p show ?thesis
      by (simp add: service_account_route_def) (erule login_handler_one, erule service_account_one_login, simp_all)
  next
    case 6
    with c m p show ?thesis
      by (simp add: ldap_route_def) (erule login_handler_one, erule ldap_one_login, simp_all)
  next
    case 7
    with c m p show ?thesis
      by (simp add: oauth_route_def) (erule login_handler_one, erule oauth_one_login, simp_all)
  next
    case 8
    with c m p show ?thesis
      by (simp add: oidc_route_def) (erule login_handler_one, erule oidc_one_login, simp_all)
  next
    case 9
    with c m p show ?thesis
      by (simp add: step_up_route_def) (erule login_handler_one, erule step_up_one_login, simp_all)
  qed
qed

lemma serve_one_login:
  assumes "serve (routes_with W lb ro tok) req w (g, h) = (resp, g', h')"
  shows "one_login W req h h'"
proof (cases "find (matches req) (routes_with W lb ro tok)")
  case None
  with assms show ?thesis
    by (auto simp: serve_def serve_from_spec Let_def one_login_quiet split: list.splits)
next
  case (Some r)
  from find_in [OF this] have "r \<in> set (routes_with W lb ro tok)" "rq_method req = rt_method r"
    "rq_path req = rt_pattern r"
    by (auto simp: matches_def on_path_def)
  moreover have "rt_handler r req w (g, h) = (resp, g', h')"
    using assms Some by (simp add: serve_def serve_from_spec)
  ultimately show ?thesis by (rule route_one_login)
qed

section \<open>Runs\<close>

text \<open>Every running replica serves the nine routes of its own configuration.\<close>

definition serves_routes :: "world \<Rightarrow> process \<Rightarrow> bool" where
  "serves_routes W p \<longleftrightarrow> (\<exists>lb ro tok. pr_routes p = routes_with (world_of W p) lb ro tok)"

definition well_booted :: "world \<Rightarrow> service \<Rightarrow> bool" where
  "well_booted W s \<longleftrightarrow> (\<forall>i r. sv_replicas s i = Some r \<longrightarrow> serves_routes W (re_process r))"

lemma start_program_serves:
  "start_program W pf env cl h = ((Started p, logs, fx), h') \<Longrightarrow> serves_routes W p"
  unfolding start_program_def build_routes_def serves_routes_def world_of_def Let_def
  by (auto split: option.splits prod.splits sum.splits) blast

lemma replica_keeps_process:
  "re_process (fst (snd (handle_request W r req h))) = re_process r"
  "re_process (fst (lead W r h)) = re_process r" "re_process (fst (leader_turn W t r h)) = re_process r"
  by (simp_all add: handle_request_def lead_def leader_turn_def split: prod.splits)

lemma on_replica_booted:
  assumes "\<And>r h. re_process (fst (f r h)) = re_process r" and "well_booted W s"
  shows "well_booted W (on_replica i f s)"
proof (cases "sv_replicas s i")
  case (Some r)
  obtain r' h' where f: "f r (sv_history s) = (r', h')" by force
  with assms(1) [of r "sv_history s"] have "re_process r' = re_process r" by simp
  with assms(2) Some f show ?thesis by (auto simp: well_booted_def on_replica_def)
qed (use assms(2) in \<open>simp add: on_replica_def\<close>)

lemma boot_booted: "well_booted W s \<Longrightarrow> well_booted W (boot W pf i env cl s)"
  by (auto simp: well_booted_def boot_def split: prod.splits startup.splits dest: start_program_serves)

lemma step_booted: "well_booted W s \<Longrightarrow> well_booted W (service_step W pf ev s)"
proof (cases ev)
  case (Halt i)
  assume "well_booted W s"
  with Halt show ?thesis by (auto simp: well_booted_def)
qed (simp_all add: boot_booted on_replica_booted replica_keeps_process)

lemma handle_request_one:
  assumes "serves_routes W (re_process r)" and "handle_request W r req h = (resp, r', h')"
  shows "one_login (world_of W (re_process r)) req h h'"
proof -
  let ?p = "re_process r" and ?V = "world_of W (re_process r)"
  obtain lb ro tok where rs: "pr_routes ?p = routes_with ?V lb ro tok"
    using assms(1) by (auto simp: serves_routes_def)
  obtain ms spans where obs: "re_observed r = (ms, spans)" by force
  obtain x g k ms' spans' where c: "program_handler ?V ?p req fresh_writer ((re_generator r, h), ms, spans)
      = (x, (g, k), ms', spans')" by (metis surj_pair)
  have k: "k = h'" using assms(2) c obs by (simp add: handle_request_def)
  have "authn_handler ?V (st_cors (pr_settings ?p)) (routes_with ?V lb ro tok) req fresh_writer (re_generator r, h)
      = (x, g, h')"
    using program_handler_answers [of ?V ?p req fresh_writer "(re_generator r, h)" ms spans] c rs k by simp
  then show ?thesis
  proof (cases rule: authn_handler_cases)
    case (routes w)
    then show ?thesis using serve_one_login by metis
  next
    case (preflight w)
    then show ?thesis by (simp add: one_login_quiet)
  qed
qed

lemma boot_accounted: "accounted W (s, Boot i env cl, boot W pf i env cl s)"
proof -
  let ?h = "sv_history s"
  obtain st logs fx h' where p: "start_program W pf env cl ?h = ((st, logs, fx), h')" by (metis surj_pair)
  then have "extends (\<lambda>c. quiet c \<or> own_sign c) ?h h' \<and> length (filter issues (new_calls ?h h')) \<le> 1"
  proof (cases rule: start_program_cases)
    case (ran t new)
    then have "list_all (\<lambda>c. quiet c \<or> own_sign c) new" by (simp add: list_all_iff)
    with ran show ?thesis by (simp add: extends_def new_calls_def)
  qed (simp add: new_calls_def)
  then show ?thesis by (simp add: accounted_def boot_def p)
qed

lemma step_accounted:
  assumes "well_booted W s"
  shows "accounted W (s, ev, service_step W pf ev s)"
proof (cases ev)
  case (Boot i env cl)
  then show ?thesis by (simp add: boot_accounted)
next
  case (Handle i req)
  show ?thesis
  proof (cases "sv_replicas s i")
    case (Some r)
    then have "serves_routes W (re_process r)" using assms by (simp add: well_booted_def)
    moreover obtain resp r' h' where c: "handle_request W r req (sv_history s) = (resp, r', h')"
      using prod_cases3 by blast
    ultimately have "one_login (world_of W (re_process r)) req (sv_history s) h'" by (rule handle_request_one)
    with Some Handle c show ?thesis by (simp add: accounted_def on_replica_def)
  qed (simp add: Handle accounted_def on_replica_def)
next
  case (Lead i)
  then show ?thesis
    by (auto simp: accounted_def Let_def on_replica_def lead_def split: option.splits prod.splits
        dest: own_identity_start_steps)
next
  case (LeaderTurn i t)
  then show ?thesis
    by (auto simp: accounted_def Let_def on_replica_def leader_turn_def split: option.splits prod.splits
        dest: own_identity_turn_steps)
qed (simp add: accounted_def)

lemma trace_accounted: "well_booted W s \<Longrightarrow> list_all (accounted W) (service_trace W pf evs s)"
  by (induction evs arbitrary: s) (simp_all add: step_accounted step_booted)

lemma idle_booted: "well_booted W (idle h)"
  by (simp add: well_booted_def idle_def)


text \<open>What an accounted event signs.\<close>

fun reserved_sign :: "call \<Rightarrow> bool" where
  "reserved_sign (CSign t) = list_ex is_reserved (jo_groups t)"
| "reserved_sign _ = False"

definition step_up_request :: "event \<Rightarrow> bool" where
  "step_up_request ev \<longleftrightarrow>
     (case ev of Handle _ req \<Rightarrow> rq_method req = ''POST'' \<and> rq_path req = StepUpPath | _ \<Rightarrow> False)"

lemma quiet_sign: "\<not> quiet (CSign t)"
  by (simp add: quiet_def)

lemma quiet_reads: "quiet c \<Longrightarrow> reads_or_completes c"
  by (simp add: reads_or_completes_def)

lemma plain_signs:
  "reads_or_completes c \<Longrightarrow> \<not> reserved_sign c" "own_sign c \<Longrightarrow> \<not> reserved_sign c"
  "entitled False u \<Longrightarrow> issues_to W stepUp s u c \<Longrightarrow> \<not> reserved_sign c"
proof -
  show r: "reads_or_completes c \<Longrightarrow> \<not> reserved_sign c" for c
    by (cases c) (auto simp: reads_or_completes_def quiet_sign)
  show "own_sign c \<Longrightarrow> \<not> reserved_sign c"
    by (cases c) (auto simp: own_sign_def is_reserved_def ReservedGroupPrefix_def has_prefix_def)
  assume u: "entitled False u" and c: "issues_to W stepUp s u c"
  from u have "\<not> list_ex is_reserved (u_groups u)"
    by (simp add: entitled_def filter_empty_conv list_ex_iff)
  with c r [of c] show "\<not> reserved_sign c"
    by (cases "reads_or_completes c"; cases c) (auto simp: issues_to_def login_call_def)
qed

lemma one_login_signs:
  assumes "one_login W req h h'" and "\<not> (rq_method req = ''POST'' \<and> rq_path req = StepUpPath)"
  shows "extends (\<lambda>c. \<not> reserved_sign c) h h'"
proof (cases "rq_path req = StepUpPath")
  case True
  with assms(2) have "((rq_method req, rq_path req), s) \<notin> set login_routes" for s
    using login_paths(2,4,6,8,10) by (auto simp: login_routes_def)
  with assms(1) have "extends reads_or_completes h h'" by (auto simp: one_login_def Let_def)
  then show ?thesis by (rule extends_mono) (rule plain_signs)
next
  case False
  with assms(1) consider "extends reads_or_completes h h'"
    | s u where "entitled False u" "extends (issues_to W False s u) h h'"
    by (auto simp: one_login_def Let_def)
  then show ?thesis
    by cases (auto elim!: extends_mono dest: plain_signs)
qed

lemma own_identity_signs:
  "own_identity_call W p h c \<Longrightarrow> \<not> reserved_sign c"
  by (cases c) (auto simp: own_identity_call_def backfill_step_def sweep_step_def justified_def quiet_sign split: option.splits)

lemma steps_extends: "steps_from P h h' \<Longrightarrow> (\<And>h c. P h c \<Longrightarrow> Q c) \<Longrightarrow> extends Q h h'"
  by (induction rule: steps_from.induct) (auto intro: extends_snoc)

lemma own_identity_extends:
  "steps_from (own_identity_call W p) h h' \<Longrightarrow> extends (\<lambda>c. \<not> reserved_sign c) h h'"
  by (erule steps_extends) (rule own_identity_signs)

lemma accounted_signs:
  assumes "accounted W (s, ev, s')" and "\<not> step_up_request ev"
  shows "extends (\<lambda>c. \<not> reserved_sign c) (sv_history s) (sv_history s')"
proof (cases ev)
  case (Boot i env cl)
  have "extends (\<lambda>c. quiet c \<or> own_sign c) (sv_history s) (sv_history s')"
    using assms(1) Boot by (simp add: accounted_def Let_def)
  then show ?thesis
    by (rule extends_mono) (auto dest: plain_signs(2) plain_signs(1) [OF quiet_reads])
next
  case (Handle i req)
  with assms show ?thesis
    by (auto simp: accounted_def Let_def step_up_request_def split: option.splits intro: one_login_signs)
next
  case (Lead i)
  with assms show ?thesis
    by (auto simp: accounted_def Let_def split: option.splits dest: own_identity_extends)
next
  case (LeaderTurn i t)
  with assms show ?thesis
    by (auto simp: accounted_def Let_def split: option.splits dest: own_identity_extends)
qed (use assms in \<open>simp add: accounted_def Let_def\<close>)

definition service_run :: "world \<Rightarrow> platform \<Rightarrow> event list \<Rightarrow> service \<Rightarrow> service" where
  "service_run W pf evs s = fold (service_step W pf) evs s"

lemma run_signs:
  assumes "well_booted W s" and "list_all (\<lambda>ev. \<not> step_up_request ev) evs"
  shows "extends (\<lambda>c. \<not> reserved_sign c) (sv_history s) (sv_history (service_run W pf evs s))"
  using assms
proof (induction evs arbitrary: s)
  case (Cons ev evs)
  have "extends (\<lambda>c. \<not> reserved_sign c) (sv_history s) (sv_history (service_step W pf ev s))"
    using accounted_signs [OF step_accounted [OF Cons.prems(1)]] Cons.prems(2) by simp
  moreover have "extends (\<lambda>c. \<not> reserved_sign c) (sv_history (service_step W pf ev s))
      (sv_history (service_run W pf evs (service_step W pf ev s)))"
    using Cons step_booted by simp
  ultimately show ?case by (simp add: service_run_def extends_trans)
qed (simp add: service_run_def)

text \<open>
  C11. No assurance without a step-up: in a run of the service in which nobody posts to the
  step-up route, no token with a reserved group is ever signed, by any replica, whatever the
  users' sources assert.
\<close>

theorem no_reserved_token_without_step_up:
  "if list_ex step_up_request evs then True
   else list_all (\<lambda>c. \<not> reserved_sign c) (new_calls h (sv_history (service_run W pf evs (idle h))))"
proof (cases "list_ex step_up_request evs")
  case False
  then have "list_all (\<lambda>ev. \<not> step_up_request ev) evs" by (simp add: list_all_iff list_ex_iff)
  from extends_list_all [OF run_signs [OF idle_booted this]] show ?thesis
    by (simp add: idle_def)
qed simp

end
