(* ===== verification/Cluster.thy ===== *)
theory Cluster
  imports Sweep
begin

text \<open>
  The Secrets of the cluster as the apiserver keeps them, and what \<open>Put\<close> and the sweep come to
  on that state. The apiserver is not code of this repository: \<open>keeps_secrets W st\<close> states what
  it documents of Secrets, for a world \<open>W\<close> whose Secrets after a history are \<open>st\<close> of it. Any call
  may still fail. Other writers are not in the picture here, but in Concurrent; \<open>with_secrets\<close> is
  a world that satisfies the laws, whatever the initial Secrets.
\<close>

section \<open>What an apiserver promises\<close>

type_synonym secret_map = "string \<times> string \<rightharpoonup> secret"

definition key_of :: "secret \<Rightarrow> string \<times> string" where
  "key_of s = (sec_namespace s, sec_name s)"

text \<open>A Secret as it is stored: \<open>stringData\<close> is written into \<open>data\<close>.\<close>

definition stored :: "string \<Rightarrow> string \<Rightarrow> secret \<Rightarrow> secret" where
  "stored uid version s =
     s\<lparr>sec_uid := uid, sec_version := version, sec_data := map_merge (sec_data s) (sec_string_data s),
       sec_string_data := Map.empty\<rparr>"

fun secret_write :: "call \<Rightarrow> bool" where
  "secret_write (CSecretCreate _) = True"
| "secret_write (CSecretUpdate _) = True"
| "secret_write (CSecretDelete _ _ _) = True"
| "secret_write _ = False"

definition listed :: "secret_map \<Rightarrow> string \<Rightarrow> secret list \<Rightarrow> bool" where
  "listed m ns secs \<longleftrightarrow>
     distinct (map sec_name secs) \<and> (\<forall>s. s \<in> set secs \<longleftrightarrow> (\<exists>n. m (ns, n) = Some s))"

definition meets :: "secret \<Rightarrow> (string \<times> string) option \<Rightarrow> bool" where
  "meets s pre \<longleftrightarrow> (case pre of None \<Rightarrow> True | Some (uid, version) \<Rightarrow> sec_uid s = uid \<and> sec_version s = version)"

text \<open>Of each write: what it answers is what it did.\<close>

definition created :: "secret_map \<Rightarrow> secret \<Rightarrow> secret_map \<Rightarrow> gerr option \<Rightarrow> bool" where
  "created m s m' answer \<longleftrightarrow>
     (case answer of
        None \<Rightarrow> m (key_of s) = None \<and> (\<exists>u v. m' = m(key_of s \<mapsto> stored u v s))
      | Some e \<Rightarrow> m' = m \<and> (\<not> is_already_exists e \<or> m (key_of s) \<noteq> None))"

definition updated :: "secret_map \<Rightarrow> secret \<Rightarrow> secret_map \<Rightarrow> gerr option \<Rightarrow> bool" where
  "updated m s m' answer \<longleftrightarrow>
     (case answer of
        None \<Rightarrow> m (key_of s) \<noteq> None \<and> (\<exists>u v. m' = m(key_of s \<mapsto> stored u v s))
      | Some e \<Rightarrow> m' = m)"

definition deleted ::
  "secret_map \<Rightarrow> string \<times> string \<Rightarrow> (string \<times> string) option \<Rightarrow> secret_map \<Rightarrow> gerr option \<Rightarrow> bool" where
  "deleted m k pre m' answer \<longleftrightarrow>
     (case answer of
        None \<Rightarrow> (case m k of None \<Rightarrow> False | Some s \<Rightarrow> meets s pre) \<and> m' = m(k := None)
      | Some e \<Rightarrow> m' = m)"

definition keeps_secrets :: "world \<Rightarrow> (history \<Rightarrow> secret_map) \<Rightarrow> bool" where
  "keeps_secrets W st \<longleftrightarrow>
     (\<forall>h ns n s. st h (ns, n) = Some s \<longrightarrow> key_of s = (ns, n)) \<and>
     (\<forall>h c. \<not> secret_write c \<longrightarrow> st (h @ [c]) = st h) \<and>
     (\<forall>h ns secs. w_secret_list W h ns = Inr secs \<longrightarrow> listed (st h) ns secs) \<and>
     (\<forall>h s. created (st h) s (st (h @ [CSecretCreate s])) (w_secret_write W (h @ [CSecretCreate s]))) \<and>
     (\<forall>h s. updated (st h) s (st (h @ [CSecretUpdate s])) (w_secret_write W (h @ [CSecretUpdate s]))) \<and>
     (\<forall>h ns n pre. deleted (st h) (ns, n) pre (st (h @ [CSecretDelete ns n pre]))
        (w_secret_write W (h @ [CSecretDelete ns n pre])))"

lemma keeps_secrets_laws:
  assumes "keeps_secrets W st"
  shows "created (st h) s (st (h @ [CSecretCreate s])) (w_secret_write W (h @ [CSecretCreate s]))"
    and "updated (st h) s (st (h @ [CSecretUpdate s])) (w_secret_write W (h @ [CSecretUpdate s]))"
    and "deleted (st h) (ns, n) pre (st (h @ [CSecretDelete ns n pre]))
        (w_secret_write W (h @ [CSecretDelete ns n pre]))"
    and "\<not> secret_write c \<Longrightarrow> st (h @ [c]) = st h"
    and "w_secret_list W h ns = Inr secs \<Longrightarrow> listed (st h) ns secs"
    and "st h (ns, n) = Some s \<Longrightarrow> key_of s = (ns, n)"
  using assms by (simp_all add: keeps_secrets_def)

lemma keeps_secrets_create:
  assumes "keeps_secrets W st"
  shows "w_secret_write W (h @ [CSecretCreate s]) = None \<Longrightarrow>
      \<exists>u v. st (h @ [CSecretCreate s]) = (st h)(key_of s \<mapsto> stored u v s)"
    and "w_secret_write W (h @ [CSecretCreate s]) = Some e \<Longrightarrow> st (h @ [CSecretCreate s]) = st h"
  using keeps_secrets_laws(1) [OF assms, of h s] by (simp_all add: created_def)

lemma keeps_secrets_update:
  assumes "keeps_secrets W st"
  shows "w_secret_write W (h @ [CSecretUpdate s]) = None \<Longrightarrow>
      \<exists>u v. st (h @ [CSecretUpdate s]) = (st h)(key_of s \<mapsto> stored u v s)"
    and "w_secret_write W (h @ [CSecretUpdate s]) = Some e \<Longrightarrow> st (h @ [CSecretUpdate s]) = st h"
  using keeps_secrets_laws(2) [OF assms, of h s] by (simp_all add: updated_def)

lemma keeps_secrets_delete:
  assumes "keeps_secrets W st"
  shows "w_secret_write W (h @ [CSecretDelete ns n pre]) = None \<Longrightarrow>
      st (h @ [CSecretDelete ns n pre]) = (st h)((ns, n) := None)"
    and "w_secret_write W (h @ [CSecretDelete ns n pre]) = Some e \<Longrightarrow> st (h @ [CSecretDelete ns n pre]) = st h"
  using keeps_secrets_laws(3) [OF assms, of h ns n pre] by (simp_all add: deleted_def)

section \<open>\<open>Put\<close> is an update of the map\<close>

lemma secret_of_key: "key_of (secret_of W ns name nfo m) = (ns, credential_name W (ai_step_up nfo) name)"
  by (simp add: key_of_def secret_of_simps) (simp add: secret_of_def)

lemma stored_secret_of:
  "sec_data (stored u v (secret_of W ns name nfo m)) ClientCertLabel = Some (ai_cert_data nfo)"
  "sec_data (stored u v (secret_of W ns name nfo m)) ClientKeyLabel = Some (ai_key_data nfo)"
  "sec_annotations (stored u v (secret_of W ns name nfo m)) = sec_annotations (secret_of W ns name nfo m)"
  by (simp_all add: stored_def secret_of_def map_merge_apply ClientCertLabel_def CALabel_def
      ClientKeyLabel_def ServerUrlLabel_def ProxyUrlLabel_def)

definition puts :: "world \<Rightarrow> string \<Rightarrow> auth_info \<Rightarrow> secret_map \<Rightarrow> secret_map \<Rightarrow> bool" where
  "puts W name nfo m m' \<longleftrightarrow>
     (\<exists>ns s. operator_namespace W = Inr ns \<and>
        m' = m((ns, credential_name W (ai_step_up nfo) name) \<mapsto> s) \<and>
        sec_data s ClientCertLabel = Some (ai_cert_data nfo) \<and>
        sec_data s ClientKeyLabel = Some (ai_key_data nfo) \<and>
        sec_annotations s StrategyAnnotation = Some (ai_strategy nfo))"

lemma puts_intro:
  assumes "operator_namespace W = Inr ns" and "identity_annotations W (ai_strategy nfo) (ai_cert_data nfo) = Inr ident"
    and "m' = m(key_of (secret_of W ns name nfo ident) \<mapsto> stored u v (secret_of W ns name nfo ident))"
  shows "puts W name nfo m m'"
  unfolding puts_def using assms
  by (intro exI [of _ ns] exI [of _ "stored u v (secret_of W ns name nfo ident)"])
    (simp add: secret_of_key stored_secret_of secret_of_simps)

text \<open>\<open>Put\<close> refines the update of a map: on an apiserver that keeps its word, a \<open>Put\<close> that succeeds
  changes exactly one Secret, the user's of that kind in the operator namespace, to one that
  holds the certificate, the key and the strategy it was given, whether it existed before or
  not; and one that fails changes nothing.\<close>

lemma put_refines_map_update:
  "keeps_secrets W st \<Longrightarrow>
     (case store_put W name nfo h of
        (Some e, h') \<Rightarrow> st h' = st h
      | (None, h') \<Rightarrow> puts W name nfo (st h) (st h'))"
proof -
  assume k: "keeps_secrets W st"
  show ?thesis
  proof (cases "isOk (operator_namespace W) \<and> isOk (identity_annotations W (ai_strategy nfo) (ai_cert_data nfo))")
    case False
    then show ?thesis by (auto simp: store_put_def isOk_iff split: sum.splits)
  next
    case True
    then obtain ns ident where ok: "operator_namespace W = Inr ns"
        "identity_annotations W (ai_strategy nfo) (ai_cert_data nfo) = Inr ident"
      by (auto simp: isOk_iff)
    define s where "s = secret_of W ns name nfo ident"
    define h1 where "h1 = h @ [CSecretCreate s]"
    have written: "puts W name nfo m m'" if "m' = m(key_of s \<mapsto> stored u v s)" for m m' u v
      using puts_intro [OF ok] that by (simp add: s_def)
    show ?thesis
    proof (cases "w_secret_write W h1")
      case None
      then show ?thesis
        using keeps_secrets_create(1) [OF k, of h s] ok written
        by (auto simp: store_put_def ask_secret_create_def s_def [symmetric] h1_def)
    next
      case (Some e)
      then have same: "st h1 = st h" using keeps_secrets_create(2) [OF k, of h s e] by (simp add: h1_def)
      show ?thesis
      proof (cases "is_already_exists e")
        case True
        then have "store_put W name nfo h = (w_secret_write W (h1 @ [CSecretUpdate s]), h1 @ [CSecretUpdate s])"
          using Some ok by (simp add: store_put_def ask_secret_create_def ask_secret_update_def s_def [symmetric] h1_def [symmetric])
        then show ?thesis
          using keeps_secrets_update [OF k, of h1 s] same written
          by (cases "w_secret_write W (h1 @ [CSecretUpdate s])") auto
      next
        case False
        then show ?thesis
          using Some ok same by (simp add: store_put_def ask_secret_create_def s_def [symmetric] h1_def [symmetric])
      qed
    qed
  qed
qed

section \<open>What a pass of the sweep leaves behind\<close>

text \<open>At a clock reading between \<open>h\<close> and \<open>h'\<close> the stored certificate had not been expired for long.\<close>

definition fresh_between :: "world \<Rightarrow> duration \<Rightarrow> secret \<Rightarrow> history \<Rightarrow> history \<Rightarrow> bool" where
  "fresh_between W grace s h h' \<longleftrightarrow>
     (\<exists>g crt. prefix h g \<and> prefix g h' \<and>
        parse_certificate_base64 W (case sec_data s ClientCertLabel of None \<Rightarrow> '''' | Some v \<Rightarrow> v) = Inr crt \<and>
        w_now W g < time_add (ct_not_after crt) grace)"

lemma fresh_between_widen:
  "fresh_between W grace s h1 h2 \<Longrightarrow> prefix h h1 \<Longrightarrow> prefix h2 h' \<Longrightarrow> fresh_between W grace s h h'"
  unfolding fresh_between_def by (meson prefix_order.trans)

lemma sweep_secret_skips: "sweep_secret W grace ns sec res h = ((e, res'), h') \<Longrightarrow> sw_skipped res \<le> sw_skipped res'"
  by (auto simp: sweep_secret_def Let_def split: if_splits sum.splits option.splits prod.splits)

lemma sweep_secrets_skips:
  "sweep_secrets W grace ns secs res h = ((e, res'), h') \<Longrightarrow> sw_skipped res \<le> sw_skipped res'"
  by (induction W grace ns secs res h rule: sweep_secrets.induct)
    (fastforce split: prod.splits option.splits dest: sweep_secret_skips)+

lemma sweep_secret_leaves:
  assumes k: "keeps_secrets W st" and s: "sweep_secret W grace ns sec res h = ((None, res'), h')"
    and cur: "st h (ns, sec_name sec) = Some sec" and none: "sw_skipped res' \<le> sw_skipped res"
  shows "prefix h h'"
    and "st h' = st h \<or> is_step_up_secret_name (sec_name sec) \<and> st h' = (st h)((ns, sec_name sec) := None)"
    and "is_step_up_secret_name (sec_name sec) \<Longrightarrow>
      st h' (ns, sec_name sec) = None \<or> fresh_between W grace sec h h'"
proof -
  show "prefix h h'"
    using s by (auto simp: sweep_secret_def Let_def ask_defs split: if_splits sum.splits option.splits)
  define D where "D = h @ [CNow, CSecretDelete ns (sec_name sec) (Some (sec_uid sec, sec_version sec))]"
  have now: "st (h @ [CNow]) = st h" by (rule keeps_secrets_laws(4) [OF k]) simp
  have del: "st D = (st h)((ns, sec_name sec) := None)" if "w_secret_write W D = None"
    using keeps_secrets_delete(1) [OF k, of "h @ [CNow]" ns "sec_name sec" "Some (sec_uid sec, sec_version sec)"] that now
    by (simp add: D_def)
  consider "h' = h" "\<not> is_step_up_secret_name (sec_name sec)" |
      crt where "h' = h @ [CNow]" "w_now W h < time_add (ct_not_after crt) grace"
        "parse_certificate_base64 W (case sec_data sec ClientCertLabel of None \<Rightarrow> '''' | Some v \<Rightarrow> v) = Inr crt" |
      "h' = D" "w_secret_write W D = None" "is_step_up_secret_name (sec_name sec)"
    using s none by (auto simp: sweep_secret_def Let_def ask_defs D_def split: if_splits sum.splits option.splits)
  then have "(st h' = st h \<or> is_step_up_secret_name (sec_name sec) \<and> st h' = (st h)((ns, sec_name sec) := None)) \<and>
      (is_step_up_secret_name (sec_name sec) \<longrightarrow> st h' (ns, sec_name sec) = None \<or> fresh_between W grace sec h h')"
  proof cases
    case 2
    then have "fresh_between W grace sec h h'"
      unfolding fresh_between_def by (intro exI [of _ h] exI [of _ crt]) simp
    with 2 now show ?thesis by simp
  qed (use del in auto)
  then show "st h' = st h \<or> is_step_up_secret_name (sec_name sec) \<and> st h' = (st h)((ns, sec_name sec) := None)"
    and "is_step_up_secret_name (sec_name sec) \<Longrightarrow>
      st h' (ns, sec_name sec) = None \<or> fresh_between W grace sec h h'"
    by blast+
qed

text \<open>A run of passes over Secrets: what it may have removed, and what it has dealt with.\<close>

definition only_removes :: "(string \<times> string \<Rightarrow> bool) \<Rightarrow> secret_map \<Rightarrow> secret_map \<Rightarrow> bool" where
  "only_removes P m m' \<longleftrightarrow> (\<forall>k. m' k = m k \<or> m' k = None \<and> P k)"

lemma only_removes_trans: "only_removes P m m1 \<Longrightarrow> only_removes P m1 m' \<Longrightarrow> only_removes P m m'"
  unfolding only_removes_def by metis

lemma only_removes_mono: "only_removes P m m' \<Longrightarrow> (\<And>k. P k \<Longrightarrow> Q k) \<Longrightarrow> only_removes Q m m'"
  unfolding only_removes_def by blast

lemma only_removes_kept: "only_removes P m m' \<Longrightarrow> m' k = Some s \<Longrightarrow> m k = Some s"
  unfolding only_removes_def by (metis option.distinct(1))

abbreviation step_up_in :: "string set \<Rightarrow> string \<times> string \<Rightarrow> bool" where
  "step_up_in nss k \<equiv> fst k \<in> nss \<and> is_step_up_secret_name (snd k)"

lemma sweep_secrets_leaves:
  assumes k: "keeps_secrets W st"
  shows "sweep_secrets W grace ns secs res h = ((None, res'), h') \<Longrightarrow> distinct (map sec_name secs) \<Longrightarrow>
     list_all (\<lambda>s. st h (ns, sec_name s) = Some s) secs \<Longrightarrow> sw_skipped res' \<le> sw_skipped res \<Longrightarrow>
     prefix h h' \<and> only_removes (step_up_in {ns}) (st h) (st h') \<and>
     list_all (\<lambda>s. \<not> is_step_up_secret_name (sec_name s) \<or> st h' (ns, sec_name s) = None
        \<or> fresh_between W grace s h h') secs"
proof (induction secs arbitrary: res h)
  case Nil
  then show ?case by (simp add: only_removes_def)
next
  case (Cons sec secs)
  obtain e res1 h1 where s: "sweep_secret W grace ns sec res h = ((e, res1), h1)" by (metis surj_pair)
  with Cons.prems(1) have e: "e = None" and rest: "sweep_secrets W grace ns secs res1 h1 = ((None, res'), h')"
    by (auto split: option.splits)
  have skips: "sw_skipped res1 \<le> sw_skipped res" "sw_skipped res' \<le> sw_skipped res1"
    using sweep_secret_skips [OF s] sweep_secrets_skips [OF rest] Cons.prems(4) by linarith+
  have cur: "st h (ns, sec_name sec) = Some sec" using Cons.prems(3) by simp
  note one = sweep_secret_leaves [OF k s [unfolded e] cur skips(1)]
  have "list_all (\<lambda>s. st h1 (ns, sec_name s) = Some s) secs"
    using one(2) Cons.prems(2,3) by (auto simp: list_all_iff) (metis image_eqI)
  from Cons.IH [OF rest _ this skips(2)] Cons.prems(2)
  have ih: "prefix h1 h'" "only_removes (step_up_in {ns}) (st h1) (st h')"
    "list_all (\<lambda>s. \<not> is_step_up_secret_name (sec_name s) \<or> st h' (ns, sec_name s) = None
        \<or> fresh_between W grace s h1 h') secs" by auto
  have "only_removes (step_up_in {ns}) (st h) (st h1)"
    using one(2) by (auto simp: only_removes_def split: if_splits)
  then have "only_removes (step_up_in {ns}) (st h) (st h')"
    using ih(2) by (rule only_removes_trans)
  moreover have "list_all (\<lambda>s. \<not> is_step_up_secret_name (sec_name s) \<or> st h' (ns, sec_name s) = None
        \<or> fresh_between W grace s h h') secs"
    using ih(3) one(1) by (auto simp: list_all_iff intro: fresh_between_widen)
  moreover have "\<not> is_step_up_secret_name (sec_name sec) \<or> st h' (ns, sec_name sec) = None
      \<or> fresh_between W grace sec h h'"
    using one(3) ih(1,2) unfolding only_removes_def
    by (metis fresh_between_widen prefix_order.refl)
  ultimately show ?case using one(1) ih(1) by (simp add: prefix_order.trans [OF one(1)])
qed

definition swept_clean :: "world \<Rightarrow> duration \<Rightarrow> string set \<Rightarrow> secret_map \<Rightarrow> history \<Rightarrow> history \<Rightarrow> bool" where
  "swept_clean W grace nss m h h' \<longleftrightarrow>
     (\<forall>ns n s. ns \<in> nss \<and> m (ns, n) = Some s \<and> is_step_up_secret_name n \<longrightarrow> fresh_between W grace s h h')"

lemma sweep_namespaces_leaves:
  assumes k: "keeps_secrets W st"
  shows "sweep_namespaces W grace nss res h = ((None, res'), h') \<Longrightarrow> sw_skipped res' \<le> sw_skipped res \<Longrightarrow>
     prefix h h' \<and> sw_skipped res \<le> sw_skipped res' \<and> only_removes (step_up_in (set nss)) (st h) (st h') \<and>
     swept_clean W grace (set nss) (st h') h h'"
proof (induction nss arbitrary: res h)
  case Nil
  then show ?case by (simp add: only_removes_def swept_clean_def)
next
  case (Cons ns nss)
  from Cons.prems(1) obtain secs where l: "w_secret_list W h ns = Inr secs"
    by (auto simp: ask_secret_list_def split: sum.splits)
  let ?h = "h @ [CSecretList ns]"
  obtain e res1 h1 where s: "sweep_secrets W grace ns secs res ?h = ((e, res1), h1)" by (metis surj_pair)
  with Cons.prems(1) l have e: "e = None" and rest: "sweep_namespaces W grace nss res1 h1 = ((None, res'), h')"
    by (auto simp: ask_secret_list_def split: option.splits)
  have skip1: "sw_skipped res \<le> sw_skipped res1" by (rule sweep_secrets_skips [OF s])
  have same: "st ?h = st h" by (rule keeps_secrets_laws(4) [OF k]) simp
  have listed: "distinct (map sec_name secs)" "\<And>s. s \<in> set secs \<longleftrightarrow> (\<exists>n. st h (ns, n) = Some s)"
    using keeps_secrets_laws(5) [OF k l] by (auto simp: listed_def)
  have name: "sec_name s = n" if "st g (ns, n) = Some s" for g n s
    using keeps_secrets_laws(6) [OF k that] by (simp add: key_of_def)
  have cur: "list_all (\<lambda>s. st ?h (ns, sec_name s) = Some s) secs"
    using listed(2) name same by (fastforce simp: list_all_iff)
  show ?case
  proof (cases "sw_skipped res' \<le> sw_skipped res1")
    case True
    from Cons.IH [OF rest True] have ih: "prefix h1 h'" "sw_skipped res1 \<le> sw_skipped res'"
      "only_removes (step_up_in (set nss)) (st h1) (st h')" "swept_clean W grace (set nss) (st h') h1 h'" by auto
    have "sw_skipped res1 \<le> sw_skipped res" using ih(2) Cons.prems(2) by linarith
    note one = sweep_secrets_leaves [OF k s [unfolded e] listed(1) cur this]
    have pre: "prefix h h1" using one by (meson prefix_order.trans prefixI)
    have all: "swept_clean W grace {ns} (st h') h h'"
      unfolding swept_clean_def
    proof (intro allI impI)
      fix ns' n x
      assume "ns' \<in> {ns} \<and> st h' (ns', n) = Some x \<and> is_step_up_secret_name n"
      then have x: "st h' (ns, n) = Some x" "is_step_up_secret_name n" by auto
      have x1: "st h1 (ns, n) = Some x" using only_removes_kept [OF ih(3) x(1)] .
      have "only_removes (step_up_in {ns}) (st ?h) (st h1)" using one by blast
      then have "st ?h (ns, n) = Some x" using x1 by (rule only_removes_kept)
      then have "x \<in> set secs" "sec_name x = n" using listed(2) same name by auto
      then have "fresh_between W grace x ?h h1"
        using one x(2) x1 by (auto simp: list_all_iff)
      then show "fresh_between W grace x h h'"
        by (rule fresh_between_widen) (use ih(1) in auto)
    qed
    have "swept_clean W grace (set nss) (st h') h h'"
      using ih(4) pre unfolding swept_clean_def by (meson fresh_between_widen prefix_order.refl)
    with all have "swept_clean W grace (set (ns # nss)) (st h') h h'"
      unfolding swept_clean_def by auto
    moreover have "only_removes (step_up_in (set (ns # nss))) (st h) (st h')"
      using one ih(3) same by (auto intro: only_removes_trans only_removes_mono)
    ultimately show ?thesis
      using pre ih(1,2) skip1 by (auto intro: prefix_order.trans)
  next
    case False
    then show ?thesis using Cons.prems(2) skip1 by linarith
  qed
qed

text \<open>C35. The sweep does its job: on an apiserver that keeps its word, a pass that ends without an error
  and skips nothing leaves, in the namespaces it covers, only step-up Secrets whose certificate
  it saw within the grace period; and whatever else is stored it leaves as it was.\<close>

theorem sweep_leaves_no_expired_step_up:
  "keeps_secrets W st \<Longrightarrow> sweep W nss grace h = ((None, res), h') \<Longrightarrow> sw_skipped res = 0 \<Longrightarrow>
     swept_clean W (if grace \<le> 0 then DefaultGrace else grace) (set nss - {''''}) (st h') h h' \<and>
     only_removes (step_up_in (set nss - {''''})) (st h) (st h')"
  using sweep_namespaces_leaves [of W st _ "distinct_namespaces {} nss" sweep_zero h res h']
  by (simp add: sweep_def sweep_zero_def distinct_namespaces_set)

section \<open>A world that keeps its word\<close>

text \<open>
  The Secrets replayed from the history over an initial map. UIDs and versions are numbered by
  the length of the history; a write that is refused answers why. Listing enumerates the keys
  of a finite set that the history can have touched.
\<close>

definition refusal :: "api_reason \<Rightarrow> gerr option" where
  "refusal r = Some (ApiErr r ''refused'')"

definition version_at :: "history \<Rightarrow> string" where
  "version_at h = itoa (int (length h))"

definition write_answer :: "secret_map \<Rightarrow> call \<Rightarrow> gerr option" where
  "write_answer m c =
     (case c of
        CSecretCreate s \<Rightarrow> if m (key_of s) = None then None else refusal ReasonAlreadyExists
      | CSecretUpdate s \<Rightarrow> if m (key_of s) = None then refusal ReasonNotFound else None
      | CSecretDelete ns n pre \<Rightarrow>
          (case m (ns, n) of
             None \<Rightarrow> refusal ReasonNotFound
           | Some s \<Rightarrow> if meets s pre then None else refusal ReasonConflict)
      | _ \<Rightarrow> None)"

definition write_effect :: "string \<Rightarrow> secret_map \<Rightarrow> call \<Rightarrow> secret_map" where
  "write_effect v m c =
     (if write_answer m c \<noteq> None then m
      else case c of
        CSecretCreate s \<Rightarrow> m(key_of s \<mapsto> stored v v s)
      | CSecretUpdate s \<Rightarrow> m(key_of s \<mapsto> stored v v s)
      | CSecretDelete ns n pre \<Rightarrow> m((ns, n) := None)
      | _ \<Rightarrow> m)"

fun replay :: "secret_map \<Rightarrow> call list \<Rightarrow> secret_map" where
  "replay m [] = m"
| "replay m (c # cs) = write_effect (version_at cs) (replay m cs) c"

definition secrets_after :: "secret list \<Rightarrow> history \<Rightarrow> secret_map" where
  "secrets_after init h = replay (map_of (map (\<lambda>s. (key_of s, s)) init)) (rev h)"

fun call_key :: "call \<Rightarrow> (string \<times> string) list" where
  "call_key (CSecretCreate s) = [key_of s]"
| "call_key (CSecretUpdate s) = [key_of s]"
| "call_key _ = []"

definition touched :: "secret list \<Rightarrow> history \<Rightarrow> (string \<times> string) list" where
  "touched init h = remdups (map key_of init @ concat (map call_key h))"

definition with_secrets :: "secret list \<Rightarrow> world \<Rightarrow> world" where
  "with_secrets init W =
     W\<lparr>w_secret_list := \<lambda>h ns.
         Inr (List.map_filter (\<lambda>k. if fst k = ns then secrets_after init h k else None) (touched init h)),
       w_secret_write := \<lambda>h. case rev h of [] \<Rightarrow> None | c # cs \<Rightarrow> write_answer (secrets_after init (rev cs)) c\<rparr>"

lemma secrets_after_snoc:
  "secrets_after init (h @ [c]) = write_effect (version_at h) (secrets_after init h) c"
  by (simp add: secrets_after_def version_at_def)

lemma write_answer_cases:
  "created m s (write_effect v m (CSecretCreate s)) (write_answer m (CSecretCreate s))"
  "updated m s (write_effect v m (CSecretUpdate s)) (write_answer m (CSecretUpdate s))"
  "deleted m (ns, n) pre (write_effect v m (CSecretDelete ns n pre)) (write_answer m (CSecretDelete ns n pre))"
  by (auto simp: created_def updated_def deleted_def write_effect_def write_answer_def refusal_def
      is_already_exists_def as_api_def split: option.splits)

lemma key_of_stored [simp]: "key_of (stored u v s) = key_of s"
  by (simp add: key_of_def stored_def)

lemma write_effect_keys:
  "(\<And>k s. m k = Some s \<Longrightarrow> key_of s = k) \<Longrightarrow> write_effect v m c k = Some s \<Longrightarrow> key_of s = k"
  by (auto simp: write_effect_def split: call.splits if_splits)

lemma secrets_after_keys: "secrets_after init h k = Some s \<Longrightarrow> key_of s = k"
proof (induction h arbitrary: k s rule: rev_induct)
  case Nil
  then show ?case by (auto simp: secrets_after_def dest!: map_of_SomeD)
next
  case (snoc c h)
  then show ?case unfolding secrets_after_snoc by (rule write_effect_keys)
qed

lemma secrets_after_touched: "secrets_after init h k = Some s \<Longrightarrow> k \<in> set (touched init h)"
proof (induction h arbitrary: s rule: rev_induct)
  case Nil
  then show ?case by (auto simp: secrets_after_def touched_def dest!: map_of_SomeD)
next
  case (snoc c h)
  then have "k \<in> set (touched init h) \<or> k \<in> set (call_key c)"
    by (auto simp: secrets_after_snoc write_effect_def split: call.splits if_splits)
  then show ?case by (auto simp: touched_def)
qed

lemma in_map_filter: "y \<in> set (List.map_filter f xs) \<longleftrightarrow> (\<exists>x \<in> set xs. f x = Some y)"
  by (induction xs) (auto simp: List.map_filter_simps split: option.splits)

lemma listed_by_keys:
  assumes "distinct ks" and m: "\<And>k s. m k = Some s \<Longrightarrow> key_of s = k \<and> k \<in> set ks"
  shows "listed m ns (List.map_filter (\<lambda>k. if fst k = ns then m k else None) ks)"
    (is "listed m ns (List.map_filter ?f ks)")
proof -
  have nm: "sec_name s = snd k" if "?f k = Some s" for k s
    using that m [of k s] by (auto simp: key_of_def split: if_splits)
  have dist: "distinct ks \<Longrightarrow> distinct (map sec_name (List.map_filter ?f ks))" for ks
  proof (induction ks)
    case (Cons k ks)
    have "sec_name s \<notin> sec_name ` set (List.map_filter ?f ks)" if s: "?f k = Some s" for s
    proof
      assume "sec_name s \<in> sec_name ` set (List.map_filter ?f ks)"
      then obtain k' s' where "k' \<in> set ks" "?f k' = Some s'" "sec_name s' = sec_name s"
        by (auto simp: in_map_filter)
      with nm [OF s] nm have "snd k' = snd k" "fst k' = ns" by (auto split: if_splits)
      moreover have "fst k = ns" using s by (auto split: if_splits)
      ultimately show False using \<open>k' \<in> set ks\<close> Cons.prems by (metis distinct.simps(2) prod.collapse)
    qed
    with Cons show ?case by (auto simp: List.map_filter_simps split: option.split)
  qed (simp add: List.map_filter_simps)
  have "s \<in> set (List.map_filter ?f ks) \<longleftrightarrow> (\<exists>n. m (ns, n) = Some s)" for s
  proof
    assume "s \<in> set (List.map_filter ?f ks)"
    then obtain k where "?f k = Some s" by (auto simp: in_map_filter)
    then show "\<exists>n. m (ns, n) = Some s" by (cases k) (auto split: if_splits)
  next
    assume "\<exists>n. m (ns, n) = Some s"
    then obtain n where n: "m (ns, n) = Some s" by blast
    with m [OF n] show "s \<in> set (List.map_filter ?f ks)"
      by (subst in_map_filter) (rule bexI [of _ "(ns, n)"], simp_all)
  qed
  with assms(1) dist show ?thesis by (simp add: listed_def)
qed

lemma with_secrets_listed:
  "listed (secrets_after init h) ns
     (List.map_filter (\<lambda>k. if fst k = ns then secrets_after init h k else None) (touched init h))"
  by (rule listed_by_keys) (simp add: touched_def, blast dest: secrets_after_keys secrets_after_touched)

lemma with_secrets_keeps: "keeps_secrets (with_secrets init W) (secrets_after init)"
proof -
  have other: "\<not> secret_write c \<Longrightarrow> secrets_after init (h @ [c]) = secrets_after init h" for h c
    by (cases c) (simp_all add: secrets_after_snoc write_effect_def)
  have answer: "w_secret_write (with_secrets init W) (h @ [c]) = write_answer (secrets_after init h) c" for h c
    by (simp add: with_secrets_def)
  have lists: "w_secret_list (with_secrets init W) h ns = Inr
      (List.map_filter (\<lambda>k. if fst k = ns then secrets_after init h k else None) (touched init h))" for h ns
    by (simp add: with_secrets_def)
  have listing: "w_secret_list (with_secrets init W) h ns = Inr secs \<Longrightarrow> listed (secrets_after init h) ns secs"
    for h ns secs
    using with_secrets_listed [of init h ns] unfolding lists by (metis sum.inject(2))
  have writes:
    "created (secrets_after init h) s (secrets_after init (h @ [CSecretCreate s]))
       (w_secret_write (with_secrets init W) (h @ [CSecretCreate s]))"
    "updated (secrets_after init h) s (secrets_after init (h @ [CSecretUpdate s]))
       (w_secret_write (with_secrets init W) (h @ [CSecretUpdate s]))"
    "deleted (secrets_after init h) (ns, n) pre (secrets_after init (h @ [CSecretDelete ns n pre]))
       (w_secret_write (with_secrets init W) (h @ [CSecretDelete ns n pre]))" for h s ns n pre
    unfolding answer secrets_after_snoc by (rule write_answer_cases)+
  show ?thesis
    unfolding keeps_secrets_def
    by (intro conjI allI impI writes other listing secrets_after_keys)
qed

section \<open>Witnesses\<close>

text \<open>A world in which every certificate is one that expired in 1970, and the clock reads 2001.\<close>

definition expired_world :: "world \<Rightarrow> world" where
  "expired_world W =
     W\<lparr>w_base64 := Inr, w_pem_decode := \<lambda>d. Some (''CERTIFICATE'', d, ''''),
       w_x509 := \<lambda>_. Inr \<lparr>ct_common_name = ''ada'', ct_organization = [''devs''], ct_not_before = 0, ct_not_after = 0\<rparr>,
       w_now := \<lambda>_. 1000000000 * second, w_getenv := \<lambda>_. ''krateo''\<rparr>"

definition expired_step_up :: secret where
  "expired_step_up =
     \<lparr>sec_name = ''ada-clientconfig-stepup'', sec_namespace = ''krateo'', sec_uid = ''u'', sec_version = ''1'',
      sec_annotations = Map.empty, sec_data = [ClientCertLabel \<mapsto> ''c''], sec_string_data = Map.empty\<rparr>"

lemma put_refines_map_update_witness:
  "\<forall>W name nfo. case store_put (with_secrets [expired_step_up] (expired_world W)) name nfo [] of
     (Some e, h') \<Rightarrow> secrets_after [expired_step_up] h' = secrets_after [expired_step_up] []
   | (None, h') \<Rightarrow> puts (with_secrets [expired_step_up] (expired_world W)) name nfo
       (secrets_after [expired_step_up] []) (secrets_after [expired_step_up] h')"
  by (intro allI put_refines_map_update [OF with_secrets_keeps])

lemma expired_sweep:
  "\<exists>h'. sweep (with_secrets [expired_step_up] (expired_world W)) [''krateo''] 0 [] =
     ((None, \<lparr>sw_scanned = 1, sw_deleted = 1, sw_skipped = 0\<rparr>), h')"
proof -
  let ?V = "with_secrets [expired_step_up] (expired_world W)"
  have list: "w_secret_list ?V [] ''krateo'' = Inr [expired_step_up]"
    by (simp add: with_secrets_def touched_def secrets_after_def key_of_def expired_step_up_def
        List.map_filter_simps)
  have name: "is_step_up_secret_name (sec_name expired_step_up)"
    by (simp add: is_step_up_secret_name_def has_suffix_def stepUpSuffix_def expired_step_up_def)
  have cert: "\<exists>crt. parse_certificate_base64 ?V (case sec_data expired_step_up ClientCertLabel of None \<Rightarrow> '''' | Some v \<Rightarrow> v)
      = Inr crt \<and> ct_not_after crt = 0"
    by (simp add: parse_certificate_base64_def parse_certificate_pem_def with_secrets_def expired_world_def
        expired_step_up_def)
  have "secrets_after [expired_step_up] [CSecretList ''krateo'', CNow] (''krateo'', sec_name expired_step_up) = Some expired_step_up"
    by (simp add: secrets_after_def write_effect_def write_answer_def key_of_def expired_step_up_def)
  then have del: "w_secret_write ?V [CSecretList ''krateo'', CNow, CSecretDelete ''krateo'' (sec_name expired_step_up)
      (Some (sec_uid expired_step_up, sec_version expired_step_up))] = None"
    by (simp add: with_secrets_def write_answer_def meets_def)
  have "time_add 0 DefaultGrace = DefaultGrace"
    by (simp add: time_add_def DefaultGrace_def unix_to_internal_def)
  then have late: "\<not> w_now ?V g < time_add 0 DefaultGrace" for g
    by (simp add: with_secrets_def expired_world_def DefaultGrace_def)
  from cert obtain crt where c: "parse_certificate_base64 ?V
      (case sec_data expired_step_up ClientCertLabel of None \<Rightarrow> '''' | Some v \<Rightarrow> v) = Inr crt" "ct_not_after crt = 0"
    by blast
  have "sweep_secret ?V DefaultGrace ''krateo'' expired_step_up sweep_zero [CSecretList ''krateo''] =
      ((None, \<lparr>sw_scanned = 1, sw_deleted = 1, sw_skipped = 0\<rparr>),
       [CSecretList ''krateo'', CNow, CSecretDelete ''krateo'' (sec_name expired_step_up)
         (Some (sec_uid expired_step_up, sec_version expired_step_up))])"
    using name c late del by (simp add: sweep_secret_def ask_defs sweep_zero_def)
  then show ?thesis
    by (simp add: sweep_def ask_secret_list_def list)
qed

lemma sweep_leaves_no_expired_step_up_witness:
  "\<forall>W. \<exists>res h'. sweep (with_secrets [expired_step_up] (expired_world W)) [''krateo''] 0 [] = ((None, res), h') \<and>
     sw_deleted res = 1 \<and>
     swept_clean (with_secrets [expired_step_up] (expired_world W)) DefaultGrace {''krateo''}
       (secrets_after [expired_step_up] h') [] h' \<and>
     only_removes (step_up_in {''krateo''}) (secrets_after [expired_step_up] []) (secrets_after [expired_step_up] h')"
proof
  fix W
  let ?res = "\<lparr>sw_scanned = 1, sw_deleted = 1, sw_skipped = 0\<rparr>"
  obtain h' where s: "sweep (with_secrets [expired_step_up] (expired_world W)) [''krateo''] 0 [] = ((None, ?res), h')"
    using expired_sweep by blast
  from sweep_leaves_no_expired_step_up [OF with_secrets_keeps s] s
  show "\<exists>res h'. sweep (with_secrets [expired_step_up] (expired_world W)) [''krateo''] 0 [] = ((None, res), h') \<and>
     sw_deleted res = 1 \<and>
     swept_clean (with_secrets [expired_step_up] (expired_world W)) DefaultGrace {''krateo''}
       (secrets_after [expired_step_up] h') [] h' \<and>
     only_removes (step_up_in {''krateo''}) (secrets_after [expired_step_up] []) (secrets_after [expired_step_up] h')"
    by (intro exI [of _ ?res] exI [of _ h']) simp
qed

end
