(* ===== verification/Concurrent.thy ===== *)
theory Concurrent
  imports Cluster Program
begin

text \<open>
  The Secrets when others write them too: other replicas, other logins, anyone with a client. A
  history is one process's own calls; between two of them the Secrets may change in any way an
  apiserver allows. \<open>shared_secrets\<close> states what it documents of its optimistic concurrency, and
  \<open>among_others\<close> is a world that satisfies it, whatever the others do. What is shown here is why
  the sweep deletes on condition and why the backfill and the renewer write back what they read,
  and what a \<open>Put\<close> comes to without either.
\<close>

section \<open>What an apiserver promises to several clients\<close>

text \<open>
  An update of an object that carries a UID or a resourceVersion is admitted only where the
  stored one has the same; it keeps the UID and gives a new version.
\<close>

definition admits :: "secret \<Rightarrow> secret \<Rightarrow> bool" where
  "admits old s \<longleftrightarrow>
     (sec_uid s \<noteq> '''' \<longrightarrow> sec_uid s = sec_uid old) \<and> (sec_version s \<noteq> '''' \<longrightarrow> sec_version s = sec_version old)"

definition replaced :: "secret_map \<Rightarrow> secret \<Rightarrow> secret_map \<Rightarrow> gerr option \<Rightarrow> bool" where
  "replaced m s m' answer \<longleftrightarrow>
     (case answer of
        None \<Rightarrow> (\<exists>old v. m (key_of s) = Some old \<and> admits old s \<and> m' = m(key_of s \<mapsto> stored (sec_uid old) v s))
      | Some e \<Rightarrow> m' = m)"

fun may_write_secrets :: "call \<Rightarrow> bool" where
  "may_write_secrets (CSignup _) = True"
| "may_write_secrets c = secret_write c"

text \<open>
  \<open>seen h\<close> are the Secrets when the call after \<open>h\<close> takes effect, and \<open>left h\<close> those its last
  call left. Between the two the others have written. A UID and a version name one state of an
  object for ever.
\<close>

locale shared_secrets =
  fixes W :: world and seen :: "history \<Rightarrow> secret_map" and left :: "history \<Rightarrow> secret_map"
  assumes keyed: "seen h (ns, n) = Some s \<Longrightarrow> key_of s = (ns, n)"
    and stamped: "seen h k = Some s \<Longrightarrow> sec_version s \<noteq> ''''"
    and identified: "seen h k = Some s \<Longrightarrow> sec_uid s \<noteq> ''''"
    and versioned: "prefix h h' \<Longrightarrow> seen h k = Some s \<Longrightarrow> seen h' k = Some s' \<Longrightarrow>
      sec_uid s' = sec_uid s \<Longrightarrow> sec_version s' = sec_version s \<Longrightarrow> s' = s"
    and listing: "w_secret_list W h ns = Inr secs \<Longrightarrow> listed (seen h) ns secs"
    and getting: "w_secret_get W h ns n = Inr s \<Longrightarrow> seen h (ns, n) = Some s"
    and creating: "created (seen h) s (left (h @ [CSecretCreate s])) (w_secret_write W (h @ [CSecretCreate s]))"
    and updating: "replaced (seen h) s (left (h @ [CSecretUpdate s])) (w_secret_write W (h @ [CSecretUpdate s]))"
    and deleting: "deleted (seen h) (ns, n) pre (left (h @ [CSecretDelete ns n pre]))
      (w_secret_write W (h @ [CSecretDelete ns n pre]))"
    and passing: "\<not> may_write_secrets c \<Longrightarrow> left (h @ [c]) = seen h"
begin

text \<open>A conditional deletion takes away the object it names, and not a later one of that name.\<close>

lemma delete_hits:
  assumes "prefix h0 h" and "seen h0 (ns, n) = Some sec"
    and "w_secret_write W (h @ [CSecretDelete ns n (Some (sec_uid sec, sec_version sec))]) = None"
  shows "seen h (ns, n) = Some sec"
    and "left (h @ [CSecretDelete ns n (Some (sec_uid sec, sec_version sec))]) = (seen h)((ns, n) := None)"
proof -
  from deleting [of h ns n "Some (sec_uid sec, sec_version sec)"] assms(3)
  obtain s where s: "seen h (ns, n) = Some s" "meets s (Some (sec_uid sec, sec_version sec))"
    and eff: "left (h @ [CSecretDelete ns n (Some (sec_uid sec, sec_version sec))]) = (seen h)((ns, n) := None)"
    by (auto simp: deleted_def split: option.splits)
  from s versioned [OF assms(1,2) s(1)] show "seen h (ns, n) = Some sec" by (simp add: meets_def)
  show "left (h @ [CSecretDelete ns n (Some (sec_uid sec, sec_version sec))]) = (seen h)((ns, n) := None)" by (rule eff)
qed

lemma delete_misses:
  "w_secret_write W (h @ [CSecretDelete ns n pre]) = Some e \<Longrightarrow> left (h @ [CSecretDelete ns n pre]) = seen h"
  using deleting [of h ns n pre] by (simp add: deleted_def)

text \<open>An update of a Secret read before lands on that Secret as it was read, or not at all.\<close>

lemma update_hits:
  assumes "prefix h0 h" and "seen h0 (ns, n) = Some old"
    and "w_secret_write W (h @ [CSecretUpdate (old\<lparr>sec_annotations := a\<rparr>)]) = None"
  shows "seen h (ns, n) = Some old \<and> (\<exists>v. left (h @ [CSecretUpdate (old\<lparr>sec_annotations := a\<rparr>)]) =
    (seen h)((ns, n) \<mapsto> stored (sec_uid old) v (old\<lparr>sec_annotations := a\<rparr>)))"
proof -
  have key: "key_of (old\<lparr>sec_annotations := a\<rparr>) = (ns, n)"
    using keyed [OF assms(2)] by (simp add: key_of_def)
  with updating [of h "old\<lparr>sec_annotations := a\<rparr>"] assms(3) obtain now v where
    now: "seen h (ns, n) = Some now" "admits now (old\<lparr>sec_annotations := a\<rparr>)"
    and eff: "left (h @ [CSecretUpdate (old\<lparr>sec_annotations := a\<rparr>)]) =
      (seen h)((ns, n) \<mapsto> stored (sec_uid now) v (old\<lparr>sec_annotations := a\<rparr>))"
    by (auto simp: replaced_def)
  from now stamped [OF assms(2)] identified [OF assms(2)]
  have "sec_uid now = sec_uid old" "sec_version now = sec_version old" by (simp_all add: admits_def)
  with versioned [OF assms(1,2) now(1)] have "now = old" by simp
  with now eff show ?thesis by blast
qed

lemma update_misses:
  "w_secret_write W (h @ [CSecretUpdate s]) = Some e \<Longrightarrow> left (h @ [CSecretUpdate s]) = seen h"
  using updating [of h s] by (simp add: replaced_def)

lemma create_fails:
  "w_secret_write W (h @ [CSecretCreate s]) = Some e \<Longrightarrow> left (h @ [CSecretCreate s]) = seen h"
  using creating [of h s] by (simp add: created_def)

lemma quiet_passes: "quiet c \<Longrightarrow> left (h @ [c]) = seen h"
  by (rule passing) (cases c; simp add: quiet_def)

lemma listed_seen:
  assumes "w_secret_list W h ns = Inr secs" and "sec \<in> set secs"
  shows "seen h (ns, sec_name sec) = Some sec"
proof -
  from listing [OF assms(1)] assms(2) obtain n where n: "seen h (ns, n) = Some sec" by (auto simp: listed_def)
  with keyed [OF n] show ?thesis by (simp add: key_of_def)
qed

end

section \<open>What a process's own calls do among the others'\<close>

definition unchanged :: "(history \<Rightarrow> secret_map) \<Rightarrow> (history \<Rightarrow> secret_map) \<Rightarrow> history \<Rightarrow> call \<Rightarrow> bool" where
  "unchanged seen left g k \<longleftrightarrow> left (g @ [k]) = seen g"

text \<open>
  A call deletes nothing, or a step-up Secret that, when the deletion takes effect, holds a
  certificate that had expired for the grace period at the clock reading before.
\<close>

definition expired_now :: "world \<Rightarrow> duration \<Rightarrow> secret \<Rightarrow> history \<Rightarrow> bool" where
  "expired_now W grace sec g \<longleftrightarrow>
     (\<exists>g0 crt. g = g0 @ [CNow] \<and> parse_certificate_base64 W (stored_certificate sec) = Inr crt
        \<and> time_add (ct_not_after crt) grace \<le> w_now W g0)"

definition deletes_only_expired ::
  "world \<Rightarrow> (history \<Rightarrow> secret_map) \<Rightarrow> (history \<Rightarrow> secret_map) \<Rightarrow> duration \<Rightarrow> history \<Rightarrow> call \<Rightarrow> bool" where
  "deletes_only_expired W seen left grace g k \<longleftrightarrow>
     unchanged seen left g k
     \<or> (\<exists>ns n sec. seen g (ns, n) = Some sec \<and> is_step_up_secret_name n \<and> expired_now W grace sec g
          \<and> left (g @ [k]) = (seen g)((ns, n) := None))"

text \<open>
  A call changes nothing, or adds the annotations \<open>P\<close> allows to a Secret as it is stored when the
  call takes effect; its data stays what it is.
\<close>

definition only_annotates ::
  "(history \<Rightarrow> secret_map) \<Rightarrow> (history \<Rightarrow> secret_map) \<Rightarrow> (secret \<Rightarrow> (string \<rightharpoonup> string) \<Rightarrow> bool)
     \<Rightarrow> history \<Rightarrow> call \<Rightarrow> bool" where
  "only_annotates seen left P g k \<longleftrightarrow>
     unchanged seen left g k
     \<or> (\<exists>ns n old a v. seen g (ns, n) = Some old \<and> P old a
          \<and> left (g @ [k]) = (seen g)((ns, n) \<mapsto>
              stored (sec_uid old) v (old\<lparr>sec_annotations := map_merge (sec_annotations old) a\<rparr>)))"

context shared_secrets
begin

lemma sweep_step_deletes:
  assumes "sweep_step W grace nss g k"
  shows "deletes_only_expired W seen left grace g k"
proof -
  consider "quiet k" | "justified W grace nss g k" using assms by (auto simp: sweep_step_def)
  then show ?thesis
  proof cases
    case 1
    then show ?thesis by (simp add: deletes_only_expired_def unchanged_def quiet_passes)
  next
    case 2
    then obtain ns sec crt h0 rest secs where
      k: "k = CSecretDelete ns (sec_name sec) (Some (sec_uid sec, sec_version sec))"
      and l: "w_secret_list W h0 ns = Inr secs" "sec \<in> set secs"
      and n: "is_step_up_secret_name (sec_name sec)"
      and c: "parse_certificate_base64 W (stored_certificate sec) = Inr crt"
      and g: "g = (h0 @ CSecretList ns # rest) @ [CNow]"
      and t: "time_add (ct_not_after crt) grace \<le> w_now W (h0 @ CSecretList ns # rest)"
      unfolding justified_def stored_certificate_def by auto
    show ?thesis
    proof (cases "w_secret_write W (g @ [k])")
      case None
      have "prefix h0 g" using g by simp
      note hit = delete_hits [OF this listed_seen [OF l] None [unfolded k]]
      have "expired_now W grace sec g" unfolding expired_now_def using c g t by blast
      with hit n k show ?thesis unfolding deletes_only_expired_def by blast
    next
      case (Some e)
      with k show ?thesis by (simp add: deletes_only_expired_def unchanged_def delete_misses)
    qed
  qed
qed

text \<open>Writing back a Secret that was read, with more annotations.\<close>

lemma update_annotates:
  assumes "prefix h0 g" and "seen h0 (ns, n) = Some old" and "P old a"
    and "k = CSecretUpdate (old\<lparr>sec_annotations := map_merge (sec_annotations old) a\<rparr>)"
  shows "only_annotates seen left P g k"
proof (cases "w_secret_write W (g @ [k])")
  case None
  from update_hits [OF assms(1,2) None [unfolded assms(4)]] assms(3,4) show ?thesis
    unfolding only_annotates_def by blast
next
  case (Some e)
  then show ?thesis using assms(4) by (simp add: only_annotates_def unchanged_def update_misses)
qed

lemma backfill_step_annotates:
  assumes "backfill_step W nss g k"
  shows "only_annotates seen left (fills W) g k"
proof (cases "quiet k")
  case True
  then show ?thesis by (simp add: only_annotates_def unchanged_def quiet_passes)
next
  case False
  with assms obtain ns sec secs h0 rest missing where
    "k = CSecretUpdate (sec\<lparr>sec_annotations := map_merge (sec_annotations sec) missing\<rparr>)"
    "g = h0 @ CSecretList ns # rest" "w_secret_list W h0 ns = Inr secs" "sec \<in> set secs" "fills W sec missing"
    unfolding backfill_step_def by blast
  then show ?thesis using listed_seen by (intro update_annotates [of h0]) auto
qed

end

section \<open>The renewer and \<open>Put\<close>\<close>

text \<open>The renewer's steps: the signup writes what it issues, the rest annotates.\<close>

definition renewer_step ::
  "world \<Rightarrow> (history \<Rightarrow> secret_map) \<Rightarrow> (history \<Rightarrow> secret_map) \<Rightarrow> history \<Rightarrow> call \<Rightarrow> bool" where
  "renewer_step W seen left g k \<longleftrightarrow>
     signs_up k \<or> only_annotates seen left (\<lambda>old a. wanted_annotations W old = Some a) g k"

context shared_secrets
begin

lemma quiet_steps: "extends quiet h h' \<Longrightarrow> steps_from (renewer_step W seen left) h h'"
  by (erule steps_of_extends) (simp add: renewer_step_def only_annotates_def unchanged_def quiet_passes)

lemma secrets_get_seen:
  assumes "secrets_get W sel h = (Inr sec, h')"
  shows "seen h (sel_namespace sel, sel_name sel) = Some sec" and "h' = h @ [CSecretGet (sel_namespace sel) (sel_name sel)]"
  using assms getting by (auto simp: secrets_get_def ask_secret_get_def split: option.splits)

lemma sync_steps:
  assumes "prefix h0 h" and "seen h0 (ns, n) = Some sec"
  shows "steps_from (renewer_step W seen left) h (sync_annotations W sec h)"
proof (cases "sync_annotations W sec h = h")
  case False
  then obtain want where w: "wanted_annotations W sec = Some want"
    and h': "sync_annotations W sec h = h @ [CSecretUpdate (sec\<lparr>sec_annotations := map_merge (sec_annotations sec) want\<rparr>)]"
    by (auto simp: sync_annotations_def secrets_update_def ask_secret_update_def split: option.splits if_splits)
  have "renewer_step W seen left h (CSecretUpdate (sec\<lparr>sec_annotations := map_merge (sec_annotations sec) want\<rparr>))"
    unfolding renewer_step_def by (rule disjI2, rule update_annotates [OF assms _ refl]) (rule w)
  then show ?thesis unfolding h' by (rule steps_one)
qed (simp add: steps_none)

lemma annotate_steps: "steps_from (renewer_step W seen left) h (annotate W r h)"
proof (cases "secrets_get W (own_selector r) h")
  case (Pair x h1)
  have q: "extends quiet h h1"
    using Pair by (auto simp: secrets_get_def ask_secret_get_def split: option.splits)
  show ?thesis
  proof (cases x)
    case (Inr sec)
    note g = secrets_get_seen [OF Pair [unfolded Inr]]
    have "steps_from (renewer_step W seen left) h1 (sync_annotations W sec h1)"
      by (rule sync_steps [OF _ g(1)]) (simp add: g(2))
    then show ?thesis using steps_trans [OF quiet_steps [OF q]] Pair Inr by (simp add: annotate_def)
  qed (use Pair quiet_steps [OF q] in \<open>simp add: annotate_def\<close>)
qed

lemma renewal_issue_steps:
  assumes "renewal_issue W r h = (x, h')"
  shows "steps_from (renewer_step W seen left) h h'"
proof -
  have one: "steps_from (renewer_step W seen left) h (h @ [CSignup (renewal_signup r)])"
    by (rule steps_one) (simp add: renewer_step_def)
  have now: "steps_from (renewer_step W seen left) g (g @ [CNow])" for g by (rule quiet_steps) simp
  note a = annotate_steps [of "h @ [CSignup (renewal_signup r)]" r]
  from assms one steps_trans [OF one a] steps_trans [OF one steps_trans [OF a now]] show ?thesis
    unfolding renewal_issue_def ask_signup_def ask_now_def Let_def by (auto split: sum.splits)
qed

lemma current_seen:
  assumes "current W r h = (Inr (Some (crt, sec)), h1)"
  shows "\<exists>ns n. seen h (ns, n) = Some sec" and "prefix h h1"
  using assms secrets_get_seen [of "own_selector r" h]
  by (auto simp: current_def split: prod.splits sum.splits if_splits)

lemma ensure_annotates:
  assumes "ensure W r h = (x, h')"
  shows "steps_from (renewer_step W seen left) h h'"
proof -
  obtain y h1 where c: "current W r h = (y, h1)" by force
  have q: "extends quiet h h1"
    using c by (auto simp: current_def secrets_get_def ask_secret_get_def
        split: option.splits sum.splits if_splits)
  note first = quiet_steps [OF q]
  have now: "steps_from (renewer_step W seen left) h (h1 @ [CNow])"
    by (rule steps_trans [OF first quiet_steps]) simp
  show ?thesis
  proof (cases "\<exists>crt sec. y = Inr (Some (crt, sec))")
    case True
    then obtain crt sec where y: "y = Inr (Some (crt, sec))" by blast
    from current_seen [OF c [unfolded y]] obtain ns n where s: "seen h (ns, n) = Some sec" "prefix h h1" by blast
    have sync: "steps_from (renewer_step W seen left) (h1 @ [CNow]) (sync_annotations W sec (h1 @ [CNow]))"
      by (rule sync_steps [OF _ s(1)]) (use s(2) in \<open>simp add: prefix_prefix\<close>)
    from assms c y steps_trans [OF now sync] steps_trans [OF now renewal_issue_steps] show ?thesis
      by (auto simp: ensure_def ask_now_def Let_def split: if_splits)
  next
    case False
    with assms c first steps_trans [OF first renewal_issue_steps] show ?thesis
      by (auto simp: ensure_def split: sum.splits option.splits)
  qed
qed

end

text \<open>The leader's steps, whichever of its passes makes them.\<close>

definition leader_step ::
  "world \<Rightarrow> (history \<Rightarrow> secret_map) \<Rightarrow> (history \<Rightarrow> secret_map) \<Rightarrow> history \<Rightarrow> call \<Rightarrow> bool" where
  "leader_step W seen left g k \<longleftrightarrow>
     renewer_step W seen left g k \<or> only_annotates seen left (fills W) g k
     \<or> deletes_only_expired W seen left DefaultGrace g k"

context shared_secrets
begin

lemma leader_passes:
  "ensure W r h = (x, h') \<Longrightarrow> steps_from (leader_step W seen left) h h'"
  "backfill_run W None nss self h = (y, h') \<Longrightarrow> steps_from (leader_step W seen left) h h'"
  "sweep W nss 0 h = (z, h') \<Longrightarrow> steps_from (leader_step W seen left) h h'"
proof -
  show "ensure W r h = (x, h') \<Longrightarrow> steps_from (leader_step W seen left) h h'"
    by (drule ensure_annotates) (erule steps_mono, simp add: leader_step_def)
  show "backfill_run W None nss self h = (y, h') \<Longrightarrow> steps_from (leader_step W seen left) h h'"
    by (drule backfill_run_steps) (erule steps_mono, simp add: leader_step_def backfill_step_annotates)
  show "sweep W nss 0 h = (z, h') \<Longrightarrow> steps_from (leader_step W seen left) h h'"
    by (drule sweep_steps) (erule steps_mono, simp add: leader_step_def sweep_step_deletes)
qed

lemma leader_starts:
  assumes "own_identity_start W p h = (x, h')"
  shows "steps_from (leader_step W seen left) h h'"
proof -
  obtain a h1 where a: "ensure_at_start W p h = (a, h1)" by (metis surj_pair)
  obtain b h2 where b: "backfill_at_start W p h1 = (b, h2)" by (metis surj_pair)
  have h2: "h' = h2" using assms a b by (auto simp: own_identity_start_def split: prod.splits)
  have "steps_from (leader_step W seen left) h h1"
    using a by (auto simp: ensure_at_start_def steps_none split: option.splits prod.splits dest: leader_passes(1))
  moreover have "steps_from (leader_step W seen left) h1 h2"
    using b by (auto simp: backfill_at_start_def split: prod.splits option.splits dest: leader_passes(2))
  ultimately show ?thesis unfolding h2 by (rule steps_trans)
qed

lemma leader_turns:
  "own_identity_turn W p t (wait, h) = (wait', h') \<Longrightarrow> steps_from (leader_step W seen left) h h'"
proof (cases t)
  case SweepTurn
  assume "own_identity_turn W p t (wait, h) = (wait', h')"
  with SweepTurn obtain z where "sweep W (own_namespaces W p) 0 h = (z, h')"
    by (cases "sweep W (own_namespaces W p) 0 h") auto
  then show ?thesis by (rule leader_passes)
next
  case RenewTurn
  assume "own_identity_turn W p t (wait, h) = (wait', h')"
  with RenewTurn show ?thesis
    by (auto simp: steps_none split: if_splits option.splits prod.splits dest: leader_passes(1))
qed

lemma leader_schedule:
  "fold (own_identity_turn W p) turns (wait, h) = (wait', h') \<Longrightarrow> steps_from (leader_step W seen left) h h'"
proof (induction turns arbitrary: wait h)
  case (Cons t turns)
  obtain w1 h1 where t: "own_identity_turn W p t (wait, h) = (w1, h1)" by force
  with Cons leader_turns [OF t] show ?case by (auto intro: steps_trans)
qed (simp add: steps_none)

lemma leader_steps:
  assumes "own_identity W p turns h = (wait, h')"
  shows "steps_from (leader_step W seen left) h h'"
proof -
  obtain w l h1 where a: "own_identity_start W p h = ((w, l), h1)" by (metis surj_pair)
  with assms have "fold (own_identity_turn W p) turns (w, h1) = (wait, h')" by (simp add: own_identity_def)
  from steps_trans [OF leader_starts [OF a] leader_schedule [OF this]] show ?thesis .
qed

text \<open>A \<open>Put\<close> is one write, made at its last call.\<close>

lemma put_steps:
  "case store_put W name nfo h of
     (Some e, h') \<Rightarrow> steps_from (unchanged seen left) h h'
   | (None, h') \<Rightarrow> \<exists>g k. h' = g @ [k] \<and> steps_from (unchanged seen left) h g \<and> puts W name nfo (seen g) (left h')"
proof (cases "isOk (operator_namespace W) \<and> isOk (identity_annotations W (ai_strategy nfo) (ai_cert_data nfo))")
  case False
  then show ?thesis by (auto simp: store_put_def isOk_iff steps_none split: sum.splits)
next
  case True
  then obtain ns ident where ok: "operator_namespace W = Inr ns"
      "identity_annotations W (ai_strategy nfo) (ai_cert_data nfo) = Inr ident"
    by (auto simp: isOk_iff)
  define s where "s = secret_of W ns name nfo ident"
  define h1 where "h1 = h @ [CSecretCreate s]"
  define h2 where "h2 = h1 @ [CSecretUpdate s]"
  have written: "puts W name nfo m m'" if "m' = m(key_of s \<mapsto> stored u v s)" for m m' u v
    using puts_intro [OF ok] that by (simp add: s_def)
  have put: "store_put W name nfo h =
      (case w_secret_write W h1 of None \<Rightarrow> (None, h1)
       | Some e \<Rightarrow> if \<not> is_already_exists e then (Some e, h1) else (w_secret_write W h2, h2))"
    using ok by (simp add: store_put_def ask_secret_create_def ask_secret_update_def s_def h1_def h2_def Let_def
        split: option.split)
  show ?thesis
  proof (cases "w_secret_write W h1")
    case None
    then have "puts W name nfo (seen h) (left h1)"
      using creating [of h s] written by (auto simp: created_def h1_def)
    then show ?thesis using None put h1_def steps_none by force
  next
    case (Some e)
    have one: "steps_from (unchanged seen left) h h1"
      unfolding h1_def by (rule steps_one) (use Some create_fails in \<open>simp add: unchanged_def h1_def\<close>)
    show ?thesis
    proof (cases "is_already_exists e")
      case True
      show ?thesis
      proof (cases "w_secret_write W h2")
        case None
        then have "puts W name nfo (seen h1) (left h2)"
          using updating [of h1 s] written by (auto simp: replaced_def h2_def)
        with None True Some put one h2_def show ?thesis by auto
      next
        case (Some e')
        then have "unchanged seen left h1 (CSecretUpdate s)"
          using update_misses by (simp add: unchanged_def h2_def)
        with Some True \<open>w_secret_write W h1 = Some e\<close> put steps_snoc [OF one] show ?thesis by (simp add: h2_def)
      qed
    qed (use Some put one in simp)
  qed
qed

end

section \<open>A world with other writers\<close>

text \<open>
  An apiserver with optimistic concurrency: the Secrets, with the number of writes admitted so
  far, from which UIDs and versions are made. It answers a write, and it takes effect when the
  answer is not an error.
\<close>

definition version_no :: "nat \<Rightarrow> string" where
  "version_no n = replicate (Suc n) (CHR ''v'')"

lemma version_no_simps [simp]: "version_no n \<noteq> ''''" "version_no n = version_no m \<longleftrightarrow> n = m"
  by (simp_all add: version_no_def)

definition api_answer :: "secret_map \<Rightarrow> call \<Rightarrow> gerr option" where
  "api_answer m c =
     (case c of
        CSecretUpdate s \<Rightarrow>
          (case m (key_of s) of
             None \<Rightarrow> refusal ReasonNotFound
           | Some old \<Rightarrow> if admits old s then None else refusal ReasonConflict)
      | _ \<Rightarrow> write_answer m c)"

definition api_effect :: "call \<Rightarrow> nat \<times> secret_map \<Rightarrow> nat \<times> secret_map" where
  "api_effect c a =
     (case a of (n, m) \<Rightarrow>
        if api_answer m c \<noteq> None then (n, m)
        else case c of
          CSecretCreate s \<Rightarrow> (Suc n, m(key_of s \<mapsto> stored (version_no n) (version_no n) s))
        | CSecretUpdate s \<Rightarrow>
            (case m (key_of s) of
               None \<Rightarrow> (n, m)
             | Some old \<Rightarrow> (Suc n, m(key_of s \<mapsto> stored (sec_uid old) (version_no n) s)))
        | CSecretDelete ns nm pre \<Rightarrow> (n, m((ns, nm) := None))
        | _ \<Rightarrow> (n, m))"

text \<open>\<open>moves n\<close> are the calls the others make before the process's own call number \<open>n\<close>.\<close>

fun api_run :: "(nat \<Rightarrow> call list) \<Rightarrow> call list \<Rightarrow> nat \<times> secret_map" where
  "api_run moves [] = (0, Map.empty)"
| "api_run moves (c # cs) = api_effect c (fold api_effect (moves (length cs)) (api_run moves cs))"

definition seen_at :: "(nat \<Rightarrow> call list) \<Rightarrow> history \<Rightarrow> nat \<times> secret_map" where
  "seen_at moves h = fold api_effect (moves (length h)) (api_run moves (rev h))"

definition seen_among :: "(nat \<Rightarrow> call list) \<Rightarrow> history \<Rightarrow> secret_map" where
  "seen_among moves h = snd (seen_at moves h)"

definition left_among :: "(nat \<Rightarrow> call list) \<Rightarrow> history \<Rightarrow> secret_map" where
  "left_among moves h = snd (api_run moves (rev h))"

definition keys_among :: "(nat \<Rightarrow> call list) \<Rightarrow> history \<Rightarrow> (string \<times> string) list" where
  "keys_among moves h = remdups (concat (map call_key (h @ concat (map moves [0..<Suc (length h)]))))"

definition among_others :: "(nat \<Rightarrow> call list) \<Rightarrow> world \<Rightarrow> world" where
  "among_others moves W =
     W\<lparr>w_secret_get := \<lambda>h ns n.
         (case seen_among moves h (ns, n) of
            None \<Rightarrow> Inl (ApiErr ReasonNotFound ''refused'') | Some s \<Rightarrow> Inr s),
       w_secret_list := \<lambda>h ns.
         Inr (List.map_filter (\<lambda>k. if fst k = ns then seen_among moves h k else None) (keys_among moves h)),
       w_secret_write := \<lambda>h. case rev h of [] \<Rightarrow> None | c # cs \<Rightarrow> api_answer (seen_among moves (rev cs)) c\<rparr>"

text \<open>
  The Secrets are filed under their keys, with versions given so far; and later Secrets are
  those of before or have later versions.
\<close>

definition api_sound :: "nat \<times> secret_map \<Rightarrow> bool" where
  "api_sound a \<longleftrightarrow>
     (\<forall>k s. snd a k = Some s \<longrightarrow> key_of s = k \<and> sec_uid s \<noteq> '''' \<and> (\<exists>v<fst a. sec_version s = version_no v))"

definition api_later :: "nat \<times> secret_map \<Rightarrow> nat \<times> secret_map \<Rightarrow> bool" where
  "api_later a b \<longleftrightarrow> fst a \<le> fst b \<and>
     (\<forall>k s. snd b k = Some s \<longrightarrow> snd a k = Some s \<or> (\<exists>v\<ge>fst a. sec_version s = version_no v))"

lemma api_later_refl [simp]: "api_later a a"
  by (simp add: api_later_def)

lemma api_later_trans: "api_later a b \<Longrightarrow> api_later b c \<Longrightarrow> api_later a c"
  unfolding api_later_def by (meson order.trans)

lemma stored_sel [simp]: "sec_uid (stored u v s) = u" "sec_version (stored u v s) = v"
  by (simp_all add: stored_def)

lemma api_soundD:
  assumes "api_sound a" and "snd a k = Some s"
  shows "key_of s = k" and "sec_uid s \<noteq> ''''" and "\<exists>v<fst a. sec_version s = version_no v"
  using assms unfolding api_sound_def by blast+

lemma api_sound_write:
  assumes "api_sound (n, m)" and "sec_uid s \<noteq> ''''" and "sec_version s = version_no n"
  shows "api_sound (Suc n, m(key_of s \<mapsto> s))"
proof -
  have "key_of t = k \<and> sec_uid t \<noteq> '''' \<and> (\<exists>v<Suc n. sec_version t = version_no v)"
    if t: "(m(key_of s \<mapsto> s)) k = Some t" for k t
  proof (cases "k = key_of s")
    case True
    with t assms(2,3) show ?thesis by (metis fun_upd_same lessI option.inject)
  next
    case False
    with t have "snd (n, m) k = Some t" by simp
    from api_soundD [OF assms(1) this] show ?thesis by (metis fst_conv less_SucI)
  qed
  then show ?thesis unfolding api_sound_def fst_conv snd_conv by blast
qed

lemma effect_sound:
  assumes "api_sound a"
  shows "api_sound (api_effect c a)"
proof (cases a)
  case (Pair n m)
  note snd = assms [unfolded Pair]
  have old: "m k = Some s \<Longrightarrow> sec_uid s \<noteq> ''''" for k s using api_soundD(2) [OF snd, of k s] by simp
  have drop: "api_sound (n, m(k := None))" for k using snd unfolding api_sound_def by simp
  have put: "api_sound (Suc n, m(key_of s \<mapsto> stored u (version_no n) s))" if "u \<noteq> ''''" for u s
    using api_sound_write [OF snd, of "stored u (version_no n) s"] that by simp
  show ?thesis
    unfolding Pair by (cases c) (auto simp: api_effect_def intro: snd drop put dest: old split: option.split)
qed

lemma effect_later: "api_later a (api_effect c a)"
  by (cases a; cases c) (auto simp: api_later_def api_effect_def split: if_splits option.splits)

lemma fold_sound: "api_sound a \<Longrightarrow> api_sound (fold api_effect cs a)"
  by (induction cs arbitrary: a) (simp_all add: effect_sound)

lemma fold_later: "api_later a (fold api_effect cs a)"
proof (induction cs arbitrary: a)
  case (Cons c cs)
  have "api_later (api_effect c a) (fold api_effect (c # cs) a)" using Cons.IH by simp
  then show ?case by (rule api_later_trans [OF effect_later])
qed simp

lemma run_sound: "api_sound (api_run moves cs)"
  by (induction cs) (simp_all add: effect_sound fold_sound api_sound_def [of "(0, Map.empty)"])

lemma seen_sound: "api_sound (seen_at moves h)"
  by (simp add: seen_at_def fold_sound run_sound)

lemma left_snoc: "api_run moves (rev (h @ [c])) = api_effect c (seen_at moves h)"
  by (simp add: seen_at_def)

lemma seen_later:
  assumes "prefix h h'"
  shows "api_later (seen_at moves h) (seen_at moves h')"
proof -
  from assms obtain new where "h' = h @ new" by (auto simp: prefix_def)
  moreover have "api_later (seen_at moves h) (seen_at moves (h @ new))"
  proof (induction new rule: rev_induct)
    case (snoc c new)
    have "seen_at moves (h @ new @ [c]) = fold api_effect (moves (length (h @ new @ [c]))) (api_effect c (seen_at moves (h @ new)))"
      using left_snoc [of moves "h @ new" c] by (simp add: seen_at_def)
    with snoc show ?case using api_later_trans effect_later fold_later by metis
  qed simp
  ultimately show ?thesis by simp
qed

lemma effect_keys: "snd (api_effect c a) k = Some s \<Longrightarrow> k \<in> set (call_key c) \<or> snd a k \<noteq> None"
  by (cases a; cases c) (auto simp: api_effect_def split: if_splits option.splits)

lemma fold_keys: "snd (fold api_effect cs a) k = Some s \<Longrightarrow> k \<in> set (concat (map call_key cs)) \<or> snd a k \<noteq> None"
proof (induction cs arbitrary: a)
  case (Cons c cs)
  then show ?case using effect_keys [of c a k] by fastforce
qed simp

lemma run_keys:
  "snd (api_run moves cs) k = Some s \<Longrightarrow> k \<in> set (concat (map call_key (cs @ concat (map moves [0..<length cs]))))"
proof (induction cs arbitrary: s)
  case (Cons c cs)
  let ?b = "fold api_effect (moves (length cs)) (api_run moves cs)"
  from effect_keys [of c ?b k s] Cons.prems consider "k \<in> set (call_key c)" | t where "snd ?b k = Some t" by auto
  then show ?case
  proof cases
    case (2 t)
    from fold_keys [OF this] Cons.IH show ?thesis by (auto split: option.splits)
  qed simp
qed simp

lemma seen_keys: "seen_among moves h k = Some s \<Longrightarrow> k \<in> set (keys_among moves h)"
  using fold_keys [of "moves (length h)" "api_run moves (rev h)" k s] run_keys [of moves "rev h" k]
  by (auto simp: seen_among_def seen_at_def keys_among_def)

lemma seen_key_of: "seen_among moves h k = Some s \<Longrightarrow> key_of s = k"
  unfolding seen_among_def by (rule api_soundD(1) [OF seen_sound])

lemma api_writes:
  "created m s (snd (api_effect (CSecretCreate s) (n, m))) (api_answer m (CSecretCreate s))"
  "replaced m s (snd (api_effect (CSecretUpdate s) (n, m))) (api_answer m (CSecretUpdate s))"
  "deleted m (ns, nm) pre (snd (api_effect (CSecretDelete ns nm pre) (n, m))) (api_answer m (CSecretDelete ns nm pre))"
  by (auto simp: created_def replaced_def deleted_def api_effect_def api_answer_def write_answer_def refusal_def
      is_already_exists_def as_api_def split: option.splits)

lemma among_others_shares:
  "shared_secrets (among_others moves W) (seen_among moves) (left_among moves)"
proof
  note sound = api_soundD [OF seen_sound, of moves]
  have list: "w_secret_list (among_others moves W) h ns =
      Inr (List.map_filter (\<lambda>k. if fst k = ns then seen_among moves h k else None) (keys_among moves h))" for h ns
    by (simp add: among_others_def)
  have ans: "w_secret_write (among_others moves W) (h @ [c]) = api_answer (seen_among moves h) c" for h c
    by (simp add: among_others_def)
  have eff: "left_among moves (h @ [c]) = snd (api_effect c (fst (seen_at moves h), seen_among moves h))" for h c
    unfolding left_among_def left_snoc seen_among_def by simp
  fix h ns n s
  show "seen_among moves h (ns, n) = Some s \<Longrightarrow> key_of s = (ns, n)" by (rule seen_key_of)
  show "created (seen_among moves h) s (left_among moves (h @ [CSecretCreate s]))
      (w_secret_write (among_others moves W) (h @ [CSecretCreate s]))"
    unfolding ans eff by (rule api_writes)
  show "replaced (seen_among moves h) s (left_among moves (h @ [CSecretUpdate s]))
      (w_secret_write (among_others moves W) (h @ [CSecretUpdate s]))"
    unfolding ans eff by (rule api_writes)
  show "deleted (seen_among moves h) (ns, n) pre (left_among moves (h @ [CSecretDelete ns n pre]))
      (w_secret_write (among_others moves W) (h @ [CSecretDelete ns n pre]))" for pre
    unfolding ans eff by (rule api_writes)
  show "w_secret_get (among_others moves W) h ns n = Inr s \<Longrightarrow> seen_among moves h (ns, n) = Some s"
    by (simp add: among_others_def split: option.splits)
  show "\<not> may_write_secrets c \<Longrightarrow> left_among moves (h @ [c]) = seen_among moves h" for c
    unfolding eff by (cases c) (simp_all add: api_effect_def)
  have listed: "listed (seen_among moves h) ns
      (List.map_filter (\<lambda>k. if fst k = ns then seen_among moves h k else None) (keys_among moves h))"
    by (rule listed_by_keys) (simp add: keys_among_def, blast dest: seen_key_of seen_keys)
  show "w_secret_list (among_others moves W) h ns = Inr secs \<Longrightarrow> listed (seen_among moves h) ns secs" for secs
    unfolding list sum.inject by (erule subst) (rule listed)
  fix k t
  assume t: "seen_among moves h k = Some t"
  from t have a: "snd (seen_at moves h) k = Some t" by (simp add: seen_among_def)
  show "sec_uid t \<noteq> ''''" by (rule sound(2) [OF a])
  obtain v where v: "v < fst (seen_at moves h)" "sec_version t = version_no v"
    using sound(3) [OF a] by blast
  show "sec_version t \<noteq> ''''" unfolding v by simp
  fix h' t'
  assume p: "prefix h h'" and t': "seen_among moves h' k = Some t'" and same: "sec_version t' = sec_version t"
  show "t' = t"
  proof (rule ccontr)
    assume "t' \<noteq> t"
    with seen_later [OF p, of moves] a t' obtain v' where "fst (seen_at moves h) \<le> v'" "sec_version t' = version_no v'"
      unfolding api_later_def seen_among_def by (metis option.inject)
    with v same show False by simp
  qed
qed

interpretation among: shared_secrets "among_others moves W" "seen_among moves" "left_among moves"
  by (rule among_others_shares)

section \<open>Properties\<close>

text \<open>
  C32. The sweep is safe among other writers: whatever other replicas and clients do between its
  calls, each call of a pass changes no Secret or removes a step-up Secret that, at the moment
  of removal, holds a certificate that had already expired for the grace period. A step-up
  credential issued anew after the sweep listed the old one is not taken away.
\<close>

theorem sweep_safe_among_writers:
  "shared_secrets W seen left \<Longrightarrow>
     (case sweep W nss grace h of
        (_, h') \<Rightarrow> steps_from (deletes_only_expired W seen left (if grace \<le> 0 then DefaultGrace else grace)) h h')"
  by (cases "sweep W nss grace h") (simp add: steps_mono [OF sweep_steps] shared_secrets.sweep_step_deletes)

text \<open>
  C33. The leader loses no one's write: whatever the schedule of its passes and whatever other
  replicas and clients do between its calls, each call of its work besides authn's own signup
  changes no Secret, or fills in the annotations it may on the Secret as it is stored when the
  write takes effect, with the data it then holds, or removes a step-up Secret that by then holds
  a certificate expired for the grace period. A credential written since the leader read the
  Secret stays as it was written.
\<close>

theorem leader_loses_no_write:
  "shared_secrets W seen left \<Longrightarrow>
     (case own_identity W p turns h of (_, h') \<Rightarrow> steps_from (leader_step W seen left) h h')"
  by (cases "own_identity W p turns h") (simp add: shared_secrets.leader_steps)


section \<open>\<open>Put\<close> and a sweep in between\<close>

text \<open>
  A Secret \<open>s\<close> that another call created is deleted, on the sweep's condition, between the first
  and the second call of the process.
\<close>

definition swept_between :: "secret \<Rightarrow> nat \<Rightarrow> call list" where
  "swept_between s n =
     (if n = 0 then [CSecretCreate s]
      else if n = 1 then [CSecretDelete (sec_namespace s) (sec_name s) (Some (version_no 0, version_no 0))]
      else [])"

text \<open>The others change nothing but the answers about Secrets.\<close>

lemma among_others_fields [simp]:
  "w_getenv (among_others moves W) = w_getenv W" "w_read_file (among_others moves W) = w_read_file W"
  "w_base64 (among_others moves W) = w_base64 W" "w_pem_decode (among_others moves W) = w_pem_decode W"
  "w_x509 (among_others moves W) = w_x509 W" "w_rfc3339 (among_others moves W) = w_rfc3339 W"
  "w_dns1123 (among_others moves W) = w_dns1123 W"
  by (simp_all add: among_others_def)

lemma among_others_writes:
  "w_secret_write (among_others moves W) (h @ [c]) = api_answer (seen_among moves h) c"
  by (simp add: among_others_def)

lemma among_others_reads [simp]:
  "operator_namespace (among_others moves W) = operator_namespace W"
  "parse_certificate_base64 (among_others moves W) = parse_certificate_base64 W"
  "identity_annotations (among_others moves W) = identity_annotations W"
  "secret_of (among_others moves W) = secret_of W"
proof -
  have "parse_pem (among_others moves W) n d = parse_pem W n d" for n d
    by (induction W n d rule: parse_pem.induct) (auto split: option.splits)
  then have "parse_certificate_pem (among_others moves W) d = parse_certificate_pem W d" for d
    by (simp add: parse_certificate_pem_def del: parse_pem.simps)
  then show p: "parse_certificate_base64 (among_others moves W) = parse_certificate_base64 W"
    by (intro ext) (simp add: parse_certificate_base64_def split: sum.split)
  show "operator_namespace (among_others moves W) = operator_namespace W"
    by (simp only: operator_namespace_def among_others_fields)
  show "identity_annotations (among_others moves W) = identity_annotations W"
    by (intro ext) (simp add: identity_annotations_def p)
  have "cert_validity_annotations (among_others moves W) = cert_validity_annotations W"
    by (intro ext) (simp add: cert_validity_annotations_def p split: sum.split)
  then show "secret_of (among_others moves W) = secret_of W"
    by (intro ext) (simp add: secret_of_def step_up_secret_name_def client_config_secret_name_def)
qed

lemma swept_answers:
  "w_secret_write (among_others (swept_between s) W) [CSecretCreate s] = refusal ReasonAlreadyExists"
  "w_secret_write (among_others (swept_between s) W) [CSecretCreate s, CSecretUpdate s] = refusal ReasonNotFound"
  "left_among (swept_between s) [CSecretCreate s, CSecretUpdate s] (key_of s) = None"
  "is_already_exists (ApiErr ReasonAlreadyExists m)"
  using among_others_writes [of "swept_between s" W "[]" "CSecretCreate s"]
    among_others_writes [of "swept_between s" W "[CSecretCreate s]" "CSecretUpdate s"]
  by (simp_all add: seen_among_def seen_at_def left_among_def swept_between_def api_effect_def api_answer_def
      write_answer_def refusal_def meets_def key_of_def is_already_exists_def as_api_def)


section \<open>Witnesses\<close>

text \<open>
  An expired step-up Secret is there when the sweep lists; while the sweep reads the clock, a login
  of the same user stores a new credential in it.
\<close>

definition issued_anew :: secret where
  "issued_anew = expired_step_up\<lparr>sec_uid := '''', sec_version := '''', sec_string_data := [ClientCertLabel \<mapsto> ''d'']\<rparr>"

definition reissued :: "nat \<Rightarrow> call list" where
  "reissued n =
     (if n = 0 then [CSecretCreate expired_step_up] else if n = 2 then [CSecretUpdate issued_anew] else [])"

lemma reissued_sweep:
  "\<exists>h'. sweep (among_others reissued (expired_world W)) [''krateo''] 0 [] =
     ((None, \<lparr>sw_scanned = 1, sw_deleted = 0, sw_skipped = 1\<rparr>), h')"
proof -
  let ?V = "among_others reissued (expired_world W)"
  let ?s = "stored (version_no 0) (version_no 0) expired_step_up"
  let ?k = "(''krateo'', ''ada-clientconfig-stepup'')"
  have key: "key_of expired_step_up = ?k" "key_of issued_anew = ?k"
    by (simp_all add: key_of_def expired_step_up_def issued_anew_def)
  have pre: "sec_uid expired_step_up = ''u''" "sec_uid issued_anew = ''''" "sec_version issued_anew = ''''"
    by (simp_all add: expired_step_up_def issued_anew_def)
  have seen0: "seen_at reissued [] = (1, [?k \<mapsto> ?s])"
    by (simp add: seen_at_def reissued_def api_effect_def api_answer_def write_answer_def key)
  have list: "w_secret_list ?V [] ''krateo'' = Inr [?s]"
    using seen0 by (simp add: among_others_def seen_among_def keys_among_def reissued_def key List.map_filter_simps)
  have step: "seen_at reissued [CSecretList ns] = (1, [?k \<mapsto> ?s])" for ns
    using seen0 by (simp add: seen_at_def reissued_def api_effect_def api_answer_def write_answer_def key)
  have seen2: "seen_at reissued [CSecretList ''krateo'', CNow] =
      (2, [?k \<mapsto> stored (version_no 0) (version_no 1) issued_anew])"
    using step [of "''krateo''"]
    by (simp add: seen_at_def reissued_def api_effect_def api_answer_def write_answer_def key admits_def pre
        numeral_2_eq_2)
  have nm: "sec_name ?s = ''ada-clientconfig-stepup''" by (simp add: stored_def expired_step_up_def)
  have del: "w_secret_write ?V [CSecretList ''krateo'', CNow,
      CSecretDelete ''krateo'' (sec_name ?s) (Some (sec_uid ?s, sec_version ?s))] = refusal ReasonConflict"
    using among_others_writes [of reissued "expired_world W" "[CSecretList ''krateo'', CNow]"
        "CSecretDelete ''krateo'' (sec_name ?s) (Some (sec_uid ?s, sec_version ?s))"] seen2 nm
    by (simp add: seen_among_def api_answer_def write_answer_def meets_def)
  have name: "is_step_up_secret_name (sec_name ?s)"
    by (simp add: nm is_step_up_secret_name_def has_suffix_def stepUpSuffix_def)
  have "\<exists>crt. parse_certificate_base64 (expired_world W) d = Inr crt \<and> ct_not_after crt = 0" for d
    by (simp add: parse_certificate_base64_def parse_certificate_pem_def expired_world_def)
  then obtain crt where c: "parse_certificate_base64 ?V
      (case sec_data ?s ClientCertLabel of None \<Rightarrow> '''' | Some v \<Rightarrow> v) = Inr crt" "ct_not_after crt = 0"
    by auto
  have late: "\<not> w_now ?V g < time_add 0 DefaultGrace" for g
    by (simp add: among_others_def expired_world_def time_add_def DefaultGrace_def unix_to_internal_def)
  have conflict: "is_conflict (ApiErr ReasonConflict m)" for m by (simp add: is_conflict_def as_api_def)
  have "sweep_secret ?V DefaultGrace ''krateo'' ?s sweep_zero [CSecretList ''krateo''] =
      ((None, \<lparr>sw_scanned = 1, sw_deleted = 0, sw_skipped = 1\<rparr>),
       [CSecretList ''krateo'', CNow, CSecretDelete ''krateo'' (sec_name ?s) (Some (sec_uid ?s, sec_version ?s))])"
    using name c late del conflict by (simp add: sweep_secret_def Let_def ask_defs sweep_zero_def refusal_def)
  then show ?thesis
    by (simp add: sweep_def ask_secret_list_def list)
qed

lemma sweep_safe_among_writers_witness:
  "\<forall>W. \<exists>h'. sweep (among_others reissued (expired_world W)) [''krateo''] 0 [] =
       ((None, \<lparr>sw_scanned = 1, sw_deleted = 0, sw_skipped = 1\<rparr>), h')
     \<and> steps_from (deletes_only_expired (among_others reissued (expired_world W)) (seen_among reissued)
         (left_among reissued) DefaultGrace) [] h'"
proof
  fix W
  obtain h' where s: "sweep (among_others reissued (expired_world W)) [''krateo''] 0 [] =
      ((None, \<lparr>sw_scanned = 1, sw_deleted = 0, sw_skipped = 1\<rparr>), h')"
    using reissued_sweep by blast
  from sweep_safe_among_writers [where W = "among_others reissued (expired_world W)" and seen = "seen_among reissued"
      and left = "left_among reissued" and nss = "[''krateo'']" and grace = 0 and h = "[]", OF among_others_shares] s
  show "\<exists>h'. sweep (among_others reissued (expired_world W)) [''krateo''] 0 [] =
       ((None, \<lparr>sw_scanned = 1, sw_deleted = 0, sw_skipped = 1\<rparr>), h')
     \<and> steps_from (deletes_only_expired (among_others reissued (expired_world W)) (seen_among reissued)
         (left_among reissued) DefaultGrace) [] h'"
    by (intro exI [of _ h']) simp
qed

lemma leader_loses_no_write_witness:
  "\<forall>W moves p turns.
     case own_identity (among_others moves W) p (SweepTurn # turns) [] of
       (_, h') \<Rightarrow> steps_from (leader_step (among_others moves W) (seen_among moves) (left_among moves)) [] h'"
  by (intro allI leader_loses_no_write [OF among_others_shares])


end
