(* ===== verification/Sha256Encoder.thy ===== *)
theory Sha256Encoder
  imports GoError
begin

text \<open>
  \<open>internal/routes/auth/ldap/encoders\<close>: the salted password encoder compatible with Spring's
  \<open>StandardPasswordEncoder\<close>. Byte slices are the strings of their bytes. SHA-256 is a parameter
  of the definitions that use it, as is the salt \<open>rand.Read\<close> fills in (\<open>None\<close> where it fails);
  \<open>encoding/hex\<close> is modelled. The outer option of a result is \<open>None\<close> where the code panics.
\<close>

section \<open>\<open>encoding/hex\<close>\<close>

definition hex_lower :: "nat \<Rightarrow> char" where
  "hex_lower n = ''0123456789abcdef'' ! n"

definition from_hex_char :: "char \<Rightarrow> nat option" where
  "from_hex_char c =
     (let b = byte_of c
      in if 48 \<le> b \<and> b \<le> 57 then Some (b - 48)
         else if 97 \<le> b \<and> b \<le> 102 then Some (b - 97 + 10)
         else if 65 \<le> b \<and> b \<le> 70 then Some (b - 65 + 10)
         else None)"

fun hex_encode :: "string \<Rightarrow> string" where
  "hex_encode [] = []"
| "hex_encode (c # cs) = hex_lower (byte_of c div 16) # hex_lower (byte_of c mod 16) # hex_encode cs"

definition invalid_hex_byte :: "char \<Rightarrow> gerr" where
  "invalid_hex_byte c = Err [Str ''encoding/hex: invalid byte: '', Quo [c]]"

fun hex_decode :: "string \<Rightarrow> gerr + string" where
  "hex_decode [] = Inr []"
| "hex_decode [a] =
     (case from_hex_char a of
        None \<Rightarrow> Inl (invalid_hex_byte a)
      | Some _ \<Rightarrow> Inl (Err [Str ''encoding/hex: odd length hex string'']))"
| "hex_decode (a # b # cs) =
     (case from_hex_char a of
        None \<Rightarrow> Inl (invalid_hex_byte a)
      | Some hi \<Rightarrow>
     (case from_hex_char b of
        None \<Rightarrow> Inl (invalid_hex_byte b)
      | Some lo \<Rightarrow> map_sum id ((#) (char_of (hi * 16 + lo))) (hex_decode cs)))"

lemma byte_of_hex_lower: "n < 16 \<Longrightarrow> byte_of (hex_lower n) = (if n < 10 then 48 + n else 87 + n)"
proof -
  have "list_all (\<lambda>n. byte_of (hex_lower n) = (if n < 10 then 48 + n else 87 + n)) [0..<16]"
    by code_simp
  then show "n < 16 \<Longrightarrow> ?thesis" by (simp add: list_all_iff del: upt_rec_numeral)
qed

lemma byte_of_inject: "byte_of c = byte_of d \<longleftrightarrow> c = d"
  by (metis byte_of_def char_of_char)

lemma byte_of_ascii_lower:
  "byte_of (ascii_lower c) = (if 65 \<le> byte_of c \<and> byte_of c \<le> 90 then byte_of c + 32 else byte_of c)"
  by (simp add: ascii_lower_def byte_of_char_of)

lemma from_hex_char_iff: "from_hex_char c = Some n \<longleftrightarrow> n < 16 \<and> ascii_lower c = hex_lower n"
proof (cases "n < 16")
  case True
  then have "ascii_lower c = hex_lower n \<longleftrightarrow>
      (if 65 \<le> byte_of c \<and> byte_of c \<le> 90 then byte_of c + 32 else byte_of c) =
      (if n < 10 then 48 + n else 87 + n)"
    by (simp add: byte_of_inject [symmetric] byte_of_hex_lower byte_of_ascii_lower)
  with True show ?thesis by (auto simp: from_hex_char_def Let_def)
next
  case False
  then show ?thesis by (auto simp: from_hex_char_def Let_def split: if_splits)
qed

text \<open>Decoding accepts exactly what encoding gives, in either case of the digits.\<close>

lemma hex_decode_iff: "hex_decode s = Inr bs \<longleftrightarrow> to_lower s = hex_encode bs"
proof (induction s arbitrary: bs rule: hex_decode.induct)
  case (3 a b cs)
  have "hex_decode (a # b # cs) = Inr bs \<longleftrightarrow>
      (\<exists>hi lo r. from_hex_char a = Some hi \<and> from_hex_char b = Some lo \<and> hex_decode cs = Inr r \<and>
         bs = char_of (hi * 16 + lo) # r)"
    by (auto split: option.splits simp: map_sum_def split: sum.splits)
  also have "\<dots> \<longleftrightarrow>
      (\<exists>hi lo r. from_hex_char a = Some hi \<and> from_hex_char b = Some lo \<and> to_lower cs = hex_encode r \<and>
         bs = char_of (hi * 16 + lo) # r)"
    using "3.IH" by blast
  also have "\<dots> \<longleftrightarrow> (\<exists>hi lo r. hi < 16 \<and> ascii_lower a = hex_lower hi \<and> lo < 16 \<and>
      ascii_lower b = hex_lower lo \<and> to_lower cs = hex_encode r \<and> bs = char_of (hi * 16 + lo) # r)"
    by (simp only: from_hex_char_iff conj_assoc)
  also have "\<dots> \<longleftrightarrow> to_lower (a # b # cs) = hex_encode bs"
  proof
    assume "to_lower (a # b # cs) = hex_encode bs"
    then obtain c r where c: "bs = c # r" "ascii_lower a = hex_lower (byte_of c div 16)"
        "ascii_lower b = hex_lower (byte_of c mod 16)" "to_lower cs = hex_encode r"
      by (cases bs) (auto simp: to_lower_def)
    moreover have "c = char_of (byte_of c div 16 * 16 + byte_of c mod 16)"
      by (simp add: byte_of_def)
    moreover have "byte_of c div 16 < 16" using byte_of_lt [of c] by simp
    ultimately show "\<exists>hi lo r. hi < 16 \<and> ascii_lower a = hex_lower hi \<and> lo < 16 \<and>
      ascii_lower b = hex_lower lo \<and> to_lower cs = hex_encode r \<and> bs = char_of (hi * 16 + lo) # r"
      by (metis mod_less_divisor zero_less_numeral)
  next
    assume "\<exists>hi lo r. hi < 16 \<and> ascii_lower a = hex_lower hi \<and> lo < 16 \<and>
      ascii_lower b = hex_lower lo \<and> to_lower cs = hex_encode r \<and> bs = char_of (hi * 16 + lo) # r"
    then show "to_lower (a # b # cs) = hex_encode bs"
      by (auto simp: to_lower_def byte_of_char_of)
  qed
  finally show ?case .
qed (auto simp: to_lower_def split: option.splits intro: hex_encode.cases, (case_tac bs; simp)+)

section \<open>The encoder\<close>

record sha256_encoder =
  salt_length :: int
  iterations :: int

definition new_sha256_password_encoder :: "int \<Rightarrow> int \<Rightarrow> sha256_encoder" where
  "new_sha256_password_encoder n k = \<lparr>salt_length = n, iterations = k\<rparr>"

definition new_default_sha256_password_encoder :: sha256_encoder where
  "new_default_sha256_password_encoder = new_sha256_password_encoder 8 1024"

definition salt_and_hash :: "(string \<Rightarrow> string) \<Rightarrow> sha256_encoder \<Rightarrow> string \<Rightarrow> string \<Rightarrow> string" where
  "salt_and_hash sha256 e password salt =
     salt @ (sha256 ^^ nat (iterations e)) (salt @ password)"

definition salt_hash_and_encode :: "(string \<Rightarrow> string) \<Rightarrow> sha256_encoder \<Rightarrow> string \<Rightarrow> string \<Rightarrow> string" where
  "salt_hash_and_encode sha256 e password salt = hex_encode (salt_and_hash sha256 e password salt)"

text \<open>A negative salt length panics in \<open>make\<close>; \<open>read\<close> answers with that many random bytes.\<close>

definition password_encode ::
  "(string \<Rightarrow> string) \<Rightarrow> (nat \<Rightarrow> gerr + string) \<Rightarrow> sha256_encoder \<Rightarrow> string \<Rightarrow> (gerr + string) option" where
  "password_encode sha256 read e password =
     (if salt_length e < 0 then None
      else case read (nat (salt_length e)) of
             Inl err \<Rightarrow> Some (Inl err)
           | Inr salt \<Rightarrow> Some (Inr (salt_hash_and_encode sha256 e password salt)))"

text \<open>
  \<open>hashedPasswordBytes[n:]\<close> panics when the decoded hash is shorter than the salt. The slice
  before it, \<open>[0:n]\<close>, may panic already; no answer depends on which does.
\<close>

definition password_matches ::
  "(string \<Rightarrow> string) \<Rightarrow> sha256_encoder \<Rightarrow> string \<Rightarrow> string \<Rightarrow> (gerr + bool) option" where
  "password_matches sha256 e password encoded =
     (if password = [] \<or> encoded = [] then Some (Inr False)
      else case hex_decode encoded of
             Inl err \<Rightarrow> Some (Inl err)
           | Inr hashed \<Rightarrow>
               if salt_length e < 0 \<or> int (length hashed) < salt_length e then None
               else let n = nat (salt_length e);
                        ours = salt_and_hash sha256 e password (take n hashed)
                    in Some (Inr (drop n ours = drop n hashed)))"

lemma matches_iff:
  "password_matches sha256 e password encoded = Some (Inr True) \<longleftrightarrow>
     password \<noteq> [] \<and> encoded \<noteq> [] \<and>
     (\<exists>salt. int (length salt) = salt_length e \<and>
        to_lower encoded = salt_hash_and_encode sha256 e password salt)"
  (is "?lhs \<longleftrightarrow> ?rhs")
proof
  assume ?lhs
  then obtain hashed where h: "password \<noteq> []" "encoded \<noteq> []" "hex_decode encoded = Inr hashed"
      "0 \<le> salt_length e" "salt_length e \<le> int (length hashed)"
      "drop (nat (salt_length e)) (salt_and_hash sha256 e password (take (nat (salt_length e)) hashed))
        = drop (nat (salt_length e)) hashed"
    by (auto simp: password_matches_def Let_def split: if_splits sum.splits)
  define salt where "salt = take (nat (salt_length e)) hashed"
  have salt: "int (length salt) = salt_length e" using h(4,5) by (simp add: salt_def)
  have "salt_and_hash sha256 e password salt = hashed"
    using h(6) salt by (simp add: salt_and_hash_def salt_def [symmetric])
      (metis append_take_drop_id nat_int salt_def)
  then have "to_lower encoded = salt_hash_and_encode sha256 e password salt"
    using h(3) by (simp add: hex_decode_iff salt_hash_and_encode_def)
  with h salt show ?rhs by blast
next
  assume ?rhs
  then obtain salt where s: "password \<noteq> []" "encoded \<noteq> []" "int (length salt) = salt_length e"
      "hex_decode encoded = Inr (salt_and_hash sha256 e password salt)"
    by (auto simp: salt_hash_and_encode_def hex_decode_iff)
  have "nat (salt_length e) = length salt" using s(3) by linarith
  with s show ?lhs
    by (simp add: password_matches_def salt_and_hash_def s(3) [symmetric] Let_def)
qed

text \<open>\<open>Matches\<close> is the inverse of \<open>Encode\<close> and nothing more: it answers true exactly for a
  non-empty password and the hexadecimal text, in either case, of what \<open>Encode\<close> computes for
  that password and some salt of the encoder's length. In particular a password matches every
  encoding of itself, and a hash made from another digest or iteration count is refused.\<close>

lemma matches_exactly_the_encodings:
  "password_matches sha256 e password encoded = Some (Inr True) \<longleftrightarrow>
     password \<noteq> [] \<and> encoded \<noteq> [] \<and>
     (\<exists>salt. int (length salt) = salt_length e \<and>
        to_lower encoded = salt_hash_and_encode sha256 e password salt)"
  by (rule matches_iff)

text \<open>The encoder's own output always matches, the default encoder's without any assumption.\<close>

lemma to_lower_hex_encode: "to_lower (hex_encode bs) = hex_encode bs"
proof -
  have "list_all (\<lambda>n. ascii_lower (hex_lower n) = hex_lower n) [0..<16]" by code_simp
  then have "n < 16 \<Longrightarrow> ascii_lower (hex_lower n) = hex_lower n" for n
    by (simp add: list_all_iff del: upt_rec_numeral)
  moreover have "byte_of c div 16 < 16" for c using byte_of_lt [of c] by simp
  ultimately show ?thesis by (induction bs) (auto simp: to_lower_def)
qed

lemma default_encoder_round_trip:
  assumes "password \<noteq> []" and "password_encode sha256 read new_default_sha256_password_encoder password = Some (Inr encoded)"
    and "\<And>n s. read n = Inr s \<Longrightarrow> length s = n"
  shows "password_matches sha256 new_default_sha256_password_encoder password encoded = Some (Inr True)"
proof -
  obtain salt where salt: "length salt = 8"
      "encoded = salt_hash_and_encode sha256 new_default_sha256_password_encoder password salt"
    using assms(2,3) by (auto simp: password_encode_def new_default_sha256_password_encoder_def
        new_sha256_password_encoder_def split: sum.splits)
  then obtain c s where "salt = c # s" by (cases salt) auto
  with salt have "encoded \<noteq> []" by (simp add: salt_hash_and_encode_def salt_and_hash_def)
  with salt assms(1) show ?thesis
    by (subst matches_iff) (auto simp: salt_hash_and_encode_def to_lower_hex_encode
        new_default_sha256_password_encoder_def new_sha256_password_encoder_def)
qed

text \<open>A stored hash shorter than the salt makes \<open>Matches\<close> panic instead of refusing.\<close>

lemma short_hash_panics: "password_matches sha256 new_default_sha256_password_encoder ''a'' ''00'' = None"
  by (simp add: password_matches_def new_default_sha256_password_encoder_def
      new_sha256_password_encoder_def from_hex_char_def byte_of_def)

end
