(* ===== verification/Shortid.thy ===== *)
theory Shortid
  imports GoError GoTime "HOL-Library.Multiset"
begin

unbundle bit_operations_syntax

text \<open>
  \<open>internal/shortid\<close>: the generator of short identifiers, whose ids name the authn users and
  correlate their certificates. An id is a list of runes of the shuffled alphabet;
  \<open>string(idrunes)\<close> is its UTF-8 encoding. \<open>uint\<close> is 64 bits wide. The random bytes are a
  parameter, one per symbol; so is \<open>carry\<close>, which says of a value of 2 ^ 46 or more whether
  \<open>math.Log2\<close> of its \<open>float64\<close> rounds up to the next integer.
\<close>

section \<open>The alphabet\<close>

definition DefaultABC :: string where
  "DefaultABC = ''0123456789abcdefghijklmnopqrstuvwxyzABCDEFGHIJKLMNOPQRSTUVWXYZ_-''"

text \<open>\<open>nonUnique\<close>: the size of the set of runes against their number.\<close>

fun found_runes :: "rune list \<Rightarrow> rune list \<Rightarrow> rune list" where
  "found_runes found [] = found"
| "found_runes found (r # rs) =
     (if r \<in> set found then found_runes found rs else found_runes (r # found) rs)"

definition non_unique :: "rune list \<Rightarrow> bool" where
  "non_unique rs \<longleftrightarrow> length (found_runes [] rs) < length rs"

text \<open>
  The loop of \<open>shuffle\<close> on the source left and the alphabet so far. The linear congruential
  step is in 64-bit arithmetic; after it the seed is below 233280.
\<close>

definition next_seed :: "64 word \<Rightarrow> 64 word" where
  "next_seed seed = (seed * 9301 + 49297) mod 233280"

definition pick_index :: "64 word \<Rightarrow> nat \<Rightarrow> nat" where
  "pick_index seed n = unat (seed * of_nat n div 233280)"

lemma next_seed_less: "unat (next_seed seed) < 233280"
proof -
  have "next_seed seed < 233280" unfolding next_seed_def by (rule word_mod_less_divisor) simp
  then show ?thesis by (simp add: word_less_nat_alt)
qed

lemma pick_index_less:
  assumes "0 < n" and "n \<le> 2 ^ 32"
  shows "pick_index (next_seed seed) n < n"
proof -
  define s where "s = unat (next_seed seed)"
  have below: "s * n < 233280 * n"
    using assms(1) next_seed_less [of seed] by (intro mult_strict_right_mono) (simp_all add: s_def)
  note below
  also have "233280 * n \<le> 233280 * 2 ^ 32" using assms(2) by (rule mult_le_mono2)
  also have "\<dots> \<le> 2 ^ 64" by simp
  finally have small: "s * n < 2 ^ 64" .
  have "unat (of_nat n :: 64 word) = n"
    using assms(2) by (simp add: unat_of_nat take_bit_nat_eq_self)
  with small have "unat (next_seed seed * of_nat n) = s * n"
    by (simp add: unat_word_ariths s_def take_bit_nat_eq_self)
  then have "pick_index (next_seed seed) n = s * n div 233280"
    by (simp add: pick_index_def unat_div)
  also have "\<dots> < n"
    using below by (simp add: less_mult_imp_div_less mult.commute)
  finally show ?thesis .
qed

text \<open>\<open>None\<close> is the panic of an index out of range.\<close>

function shuffle_loop :: "rune list \<Rightarrow> 64 word \<Rightarrow> rune list \<Rightarrow> rune list option" where
  "shuffle_loop source seed abc =
     (case source of
        [] \<Rightarrow> None
      | [r] \<Rightarrow> Some (abc @ [r])
      | _ \<Rightarrow>
          let seed = next_seed seed; i = pick_index seed (length source)
          in if i < length source
             then shuffle_loop (remove_at i source) seed (abc @ [source ! i])
             else None)"
  by pat_completeness auto
termination
  by (relation "measure (\<lambda>(source, _, _). length source)") (auto simp: length_remove_at)

declare shuffle_loop.simps [simp del]

definition shuffle :: "rune list \<Rightarrow> 64 word \<Rightarrow> rune list option" where
  "shuffle alphabet seed = shuffle_loop alphabet seed []"

text \<open>\<open>NewAbc\<close>; the outer option is the panic, which its checks rule out.\<close>

definition new_abc :: "string \<Rightarrow> 64 word \<Rightarrow> (gerr + rune list) option" where
  "new_abc alphabet seed =
     (let rs = runes alphabet
      in if length rs \<noteq> length DefaultABC
         then Some (Inl (Err [Str ''alphabet must contain '', Dec (int (length DefaultABC)), Str '' unique characters'']))
         else if non_unique rs
         then Some (Inl (Err [Str ''alphabet must contain unique characters only'']))
         else map_option Inr (shuffle rs seed))"

lemma mset_remove_at: "i < length xs \<Longrightarrow> mset xs = add_mset (xs ! i) (mset (remove_at i xs))"
  by (metis Cons_nth_drop_Suc append_take_drop_id mset.simps(2) mset_append remove_at_def
      union_mset_add_mset_right)

lemma shuffle_loop_total:
  "source \<noteq> [] \<Longrightarrow> length source \<le> 2 ^ 32 \<Longrightarrow>
     \<exists>res. shuffle_loop source seed abc = Some res \<and> mset res = mset abc + mset source"
proof (induction source seed abc rule: shuffle_loop.induct)
  case (1 source seed abc)
  show ?case
  proof (cases "length source = 1")
    case True
    then obtain r where "source = [r]" by (auto simp: length_Suc_conv)
    then show ?thesis by (simp add: shuffle_loop.simps)
  next
    case False
    with "1.prems" obtain r r' rs where src: "source = r # r' # rs"
      by (metis One_nat_def length_Cons list.size(3) neq_Nil_conv)
    define i where "i = pick_index (next_seed seed) (length source)"
    have i: "i < length source"
      unfolding i_def by (rule pick_index_less) (use "1.prems" in auto)
    have "\<exists>res. shuffle_loop (remove_at i source) (next_seed seed) (abc @ [source ! i]) = Some res \<and>
        mset res = mset (abc @ [source ! i]) + mset (remove_at i source)"
      using src i "1.prems" length_remove_at [OF i]
      by (intro "1.IH" [OF src refl refl i_def]) (auto simp: remove_at_def)
    moreover have "shuffle_loop source seed abc =
        shuffle_loop (remove_at i source) (next_seed seed) (abc @ [source ! i])"
      using i unfolding i_def src by (subst shuffle_loop.simps) (simp add: Let_def)
    ultimately show ?thesis
      using mset_remove_at [OF i] by auto
  qed
qed

lemma found_runes_length:
  "length (found_runes found rs) \<le> length found + length rs \<and>
   (length (found_runes found rs) = length found + length rs \<longleftrightarrow>
      distinct rs \<and> set rs \<inter> set found = {})"
  by (induction found rs rule: found_runes.induct) auto

lemma non_unique_iff: "non_unique rs \<longleftrightarrow> \<not> distinct rs"
  using found_runes_length [of "[]" rs] by (auto simp: non_unique_def)

lemma alphabet_permutation:
  "case new_abc alphabet seed of
     None \<Rightarrow> False
   | Some (Inl e) \<Rightarrow> length (runes alphabet) \<noteq> 64 \<or> \<not> distinct (runes alphabet)
   | Some (Inr abc) \<Rightarrow>
       distinct (runes alphabet) \<and> distinct abc \<and> length abc = 64 \<and> mset abc = mset (runes alphabet)"
proof (cases "length (runes alphabet) = 64 \<and> distinct (runes alphabet)")
  case True
  then obtain abc where abc: "shuffle (runes alphabet) seed = Some abc"
      "mset abc = mset (runes alphabet)"
    using shuffle_loop_total [of "runes alphabet" seed "[]"] by (force simp: shuffle_def)
  then have "distinct abc \<and> length abc = 64"
    using True by (metis mset_eq_imp_distinct_iff mset_eq_length)
  with abc True show ?thesis
    by (simp add: new_abc_def non_unique_iff DefaultABC_def Let_def)
next
  case False
  then show ?thesis
    by (auto simp: new_abc_def non_unique_iff DefaultABC_def Let_def)
qed

section \<open>Encoding a number\<close>

text \<open>\<open>uint(math.Log2(float64(val)))\<close> of a positive value.\<close>

definition go_log2 :: "(nat \<Rightarrow> bool) \<Rightarrow> nat \<Rightarrow> nat" where
  "go_log2 carry val = bit_len val - 1 + (if 2 ^ 46 \<le> val \<and> carry val then 1 else 0)"

definition computed_size :: "(nat \<Rightarrow> bool) \<Rightarrow> nat \<Rightarrow> nat \<Rightarrow> nat" where
  "computed_size carry val digits = (if 1 \<le> val then go_log2 carry val div digits + 1 else 1)"

text \<open>The symbol of position \<open>i\<close>: the digit, with random bits above it.\<close>

definition symbol_index :: "nat \<Rightarrow> nat \<Rightarrow> nat \<Rightarrow> nat \<Rightarrow> nat" where
  "symbol_index val digits i random =
     (val div 2 ^ (digits * i) mod 2 ^ digits)
     OR (if digits < 6 then random AND (0x3f - (2 ^ digits - 1)) else 0)"

text \<open>
  \<open>maskedRandomInts\<close>: \<open>draw\<close> is the random bytes, crypto/rand's or, where it fails, math/rand's.
\<close>

definition masked_random_ints :: "(nat \<Rightarrow> nat) \<Rightarrow> nat \<Rightarrow> nat \<Rightarrow> nat list" where
  "masked_random_ints draw n m = map (\<lambda>i. draw i AND m) [0..<n]"

lemma symbol_index_masked:
  "i < n \<Longrightarrow> digits < 6 \<Longrightarrow> symbol_index val digits i (draw i) =
     (val div 2 ^ (digits * i) mod 2 ^ digits) OR masked_random_ints draw n (0x3f - (2 ^ digits - 1)) ! i"
  by (simp add: symbol_index_def masked_random_ints_def)

definition abc_encode ::
  "(nat \<Rightarrow> bool) \<Rightarrow> rune list \<Rightarrow> (nat \<Rightarrow> nat) \<Rightarrow> nat \<Rightarrow> nat \<Rightarrow> nat \<Rightarrow> gerr + rune list" where
  "abc_encode carry abc random val nsymbols digits =
     (if digits < 4 \<or> 6 < digits
      then Inl (Err [Str ''allowed digits range [4,6], found '', Dec (int digits)])
      else
        let size = computed_size carry val digits
        in if nsymbols \<noteq> 0 \<and> nsymbols < size
           then Inl (Err [Str ''cannot accommodate data, need '', Dec (int size), Str '' digits, got '',
                          Dec (int nsymbols)])
           else Inr (map (\<lambda>i. abc ! symbol_index val digits i (random i))
                       [0..<(if nsymbols = 0 then size else nsymbols)]))"

lemma digits_determine:
  "(\<And>i. i < n \<Longrightarrow> x div b ^ i mod b = y div b ^ i mod b) \<Longrightarrow> x < b ^ n \<Longrightarrow> y < b ^ n \<Longrightarrow> x = (y::nat)"
proof (induction n arbitrary: x y)
  case (Suc n)
  have "x div b = y div b"
  proof (rule Suc.IH)
    fix i
    assume "i < n"
    then show "x div b div b ^ i mod b = y div b div b ^ i mod b"
      using Suc.prems(1) [of "Suc i"] by (simp add: div_mult2_eq)
  qed (use Suc.prems in \<open>simp_all add: less_mult_imp_div_less mult.commute\<close>)
  moreover have "x mod b = y mod b" using Suc.prems(1) [of 0] by simp
  ultimately show ?case by (metis div_mult_mod_eq)
qed simp

text \<open>Whatever the random bits, the digit can be read back from the symbol.\<close>

lemma symbol_index_digit:
  assumes "digits \<in> {5, 6}"
  shows "symbol_index val digits i random mod 2 ^ digits = val div 2 ^ (digits * i) mod 2 ^ digits"
    and "symbol_index val digits i random < 64"
proof -
  define v where "v = val div 2 ^ (digits * i)"
  have 1: "symbol_index val digits i random =
      take_bit digits v OR (if digits < 6 then random AND (0x3f - (2 ^ digits - 1)) else 0)"
    by (simp add: symbol_index_def v_def take_bit_eq_mod)
  have "mask 6 AND 32 = (32::nat)" by (simp add: mask_eq_exp_minus_1)
  then have m: "take_bit 6 random AND 32 = random AND 32" by (simp add: take_bit_eq_mask and.assoc)
  have "take_bit digits (random AND (0x3f - (2 ^ digits - 1)) :: nat) = 0"
    using assms by (auto simp: take_bit_and)
  then have "take_bit digits (symbol_index val digits i random) = take_bit digits v"
    unfolding 1 by (simp add: take_bit_or)
  then show "symbol_index val digits i random mod 2 ^ digits = val div 2 ^ (digits * i) mod 2 ^ digits"
    by (simp add: take_bit_eq_mod v_def)
  have "take_bit 6 (symbol_index val digits i random) = symbol_index val digits i random"
    unfolding 1 using assms
    by (auto simp: take_bit_or take_bit_and min_def m)
  then show "symbol_index val digits i random < 64"
    using take_bit_nat_less_exp [of 6 "symbol_index val digits i random"] by simp
qed

lemma go_log2_bounds: "1 \<le> val \<Longrightarrow> val < 2 ^ Suc (go_log2 carry val)"
proof -
  assume "1 \<le> val"
  then have "val < 2 ^ bit_len val" using bit_len_bounds [of val] by simp
  also have "(2::nat) ^ bit_len val \<le> 2 ^ Suc (go_log2 carry val)"
    by (rule power_increasing) (simp_all add: go_log2_def)
  finally show ?thesis .
qed

lemma computed_size_fits:
  assumes "0 < digits"
  shows "val < 2 ^ (digits * computed_size carry val digits)"
proof (cases "1 \<le> val")
  case True
  have "Suc (go_log2 carry val) \<le> digits * (go_log2 carry val div digits + 1)"
    using assms by (metis Suc_eq_plus1 Suc_leI dividend_less_times_div mult_Suc_right add.commute)
  then have "(2::nat) ^ Suc (go_log2 carry val) \<le> 2 ^ (digits * (go_log2 carry val div digits + 1))"
    by (rule power_increasing) simp
  with True go_log2_bounds [of val carry] show ?thesis
    by (auto simp: computed_size_def elim: less_le_trans)
qed (simp add: not_le)

definition usable_abc :: "rune list \<Rightarrow> bool" where
  "usable_abc abc \<longleftrightarrow> distinct abc \<and> length abc = 64"

lemma abc_encode_InrD:
  assumes "abc_encode carry abc f x n digits = Inr s"
  shows "s = map (\<lambda>i. abc ! symbol_index x digits i (f i)) [0..<length s]"
    and "computed_size carry x digits \<le> length s"
    and "n \<noteq> 0 \<longrightarrow> length s = n" and "n = 0 \<longrightarrow> length s = computed_size carry x digits"
  using assms by (auto simp: abc_encode_def Let_def split: if_splits)

lemma abc_encode_inj:
  assumes abc: "usable_abc abc" and d: "digits \<in> {5, 6}"
    and x: "abc_encode carry abc f x n digits = Inr s" and y: "abc_encode carry abc g y n digits = Inr s"
  shows "x = y"
proof -
  define N where "N = length s"
  note nth = abc_encode_InrD(1) [OF x, folded N_def] abc_encode_InrD(1) [OF y, folded N_def]
  note size = abc_encode_InrD(2) [OF x, folded N_def] abc_encode_InrD(2) [OF y, folded N_def]
  have digit: "x div (2 ^ digits) ^ i mod 2 ^ digits = y div (2 ^ digits) ^ i mod 2 ^ digits" if "i < N" for i
  proof -
    have "abc ! symbol_index x digits i (f i) = abc ! symbol_index y digits i (g i)"
      using arg_cong [OF nth(1), of "\<lambda>s. s ! i"] arg_cong [OF nth(2), of "\<lambda>s. s ! i"] that
      by simp
    then have "symbol_index x digits i (f i) = symbol_index y digits i (g i)"
      using abc symbol_index_digit(2) [OF d] by (simp add: usable_abc_def nth_eq_iff_index_eq)
    then show ?thesis
      using symbol_index_digit(1) [OF d] by (metis power_mult)
  qed
  have fits: "v < (2 ^ digits) ^ N" if "computed_size carry v digits \<le> N" for v
  proof -
    have "v < 2 ^ (digits * computed_size carry v digits)"
      using d by (intro computed_size_fits) auto
    also have "(2::nat) ^ (digits * computed_size carry v digits) \<le> 2 ^ (digits * N)"
      using that by (intro power_increasing) auto
    finally show ?thesis by (simp add: power_mult)
  qed
  from digit fits [OF size(1)] fits [OF size(2)] show ?thesis by (rule digits_determine)
qed

lemma abc_encode_ok:
  assumes "digits \<in> {5, 6}" and "n = 0 \<or> digits * n \<le> 46 \<and> val < 2 ^ (digits * n)"
  shows "\<exists>s. abc_encode carry abc f val n digits = Inr s"
proof -
  have "computed_size carry val digits \<le> n" if "n \<noteq> 0"
  proof -
    have n: "digits * n \<le> 46" "val < 2 ^ (digits * n)" using assms(2) that by auto
    have "(2::nat) ^ (digits * n) \<le> 2 ^ 46" using n(1) by (intro power_increasing) auto
    with n(2) have "val < 2 ^ 46" by (rule less_le_trans)
    then have "go_log2 carry val = bit_len val - 1" by (simp add: go_log2_def)
    moreover have "bit_len val - 1 \<le> digits * n - 1" using bit_len_le [OF n(2)] by simp
    moreover have "(digits * n - 1) div digits < n"
      using assms(1) that by (intro less_mult_imp_div_less) (auto simp: mult.commute)
    ultimately show ?thesis using that
      by (simp add: computed_size_def) (meson Suc_leI div_le_mono le_less_trans)
  qed
  then show ?thesis
    using assms(1) by (auto simp: abc_encode_def Let_def not_le)
qed

section \<open>The generator\<close>

record shortid =
  sh_abc :: "rune list"
  sh_worker :: nat
  sh_epoch :: time
  sh_ms :: nat
  sh_count :: nat

definition shortid_epoch :: time where
  "shortid_epoch = 1451606400 * second" \<comment> \<open>2016-01-01 UTC\<close>

definition shortid_new :: "nat \<Rightarrow> string \<Rightarrow> 64 word \<Rightarrow> (gerr + shortid) option" where
  "shortid_new worker alphabet seed =
     (if 31 < worker then Some (Inl (Err [Str ''expected worker in the range [0,31]'']))
      else map_option (map_sum id (\<lambda>abc.
        \<lparr>sh_abc = abc, sh_worker = worker, sh_epoch = shortid_epoch, sh_ms = 0, sh_count = 0\<rparr>))
        (new_abc alphabet seed))"

text \<open>
  \<open>uint(d.Nanoseconds() / 1000000)\<close>: the division truncates towards zero, and the conversion
  of a negative number wraps.
\<close>

definition elapsed_ms :: "time \<Rightarrow> time \<Rightarrow> nat" where
  "elapsed_ms now epoch =
     (let d = time_sub now epoch in nat ((sgn d * (\<bar>d\<bar> div 1000000)) mod 2 ^ 64))"

definition ms_and_counter :: "shortid \<Rightarrow> time \<Rightarrow> time \<Rightarrow> (nat \<times> nat) \<times> shortid" where
  "ms_and_counter sid now epoch =
     (let ms = elapsed_ms now epoch;
          sid = (if ms = sh_ms sid then sid\<lparr>sh_count := Suc (sh_count sid) mod 2 ^ 64\<rparr>
                 else sid\<lparr>sh_count := 0, sh_ms := ms\<rparr>)
      in ((sh_ms sid, sh_count sid), sid))"

text \<open>The random bytes of the first eight symbols and of the ninth.\<close>

definition id_runes ::
  "(nat \<Rightarrow> bool) \<Rightarrow> rune list \<Rightarrow> (nat \<Rightarrow> nat) \<times> (nat \<Rightarrow> nat) \<Rightarrow> nat \<Rightarrow> nat \<Rightarrow> nat
     \<Rightarrow> gerr + rune list" where
  "id_runes carry abc random ms worker repeats =
     (case abc_encode carry abc (fst random) ms 8 5 of
        Inl e \<Rightarrow> Inl e
      | Inr first8 \<Rightarrow>
     (case abc_encode carry abc (snd random) worker 1 5 of
        Inl e \<Rightarrow> Inl e
      | Inr ninth \<Rightarrow>
          if 0 < repeats
          then (case abc_encode carry abc (\<lambda>_. 0) repeats 0 6 of
                  Inl e \<Rightarrow> Inl e
                | Inr rest \<Rightarrow> Inr (first8 @ [hd ninth] @ rest))
          else Inr (first8 @ [hd ninth])))"

definition generate_internal ::
  "(nat \<Rightarrow> bool) \<Rightarrow> (nat \<Rightarrow> nat) \<times> (nat \<Rightarrow> nat) \<Rightarrow> shortid \<Rightarrow> time \<Rightarrow> time
     \<Rightarrow> (gerr + rune list) \<times> shortid" where
  "generate_internal carry random sid now epoch =
     (case ms_and_counter sid now epoch of ((ms, repeats), sid) \<Rightarrow>
       (id_runes carry (sh_abc sid) random ms (sh_worker sid) repeats, sid))"

definition shortid_generate ::
  "(nat \<Rightarrow> bool) \<Rightarrow> (nat \<Rightarrow> nat) \<times> (nat \<Rightarrow> nat) \<Rightarrow> shortid \<Rightarrow> time \<Rightarrow> (gerr + rune list) \<times> shortid" where
  "shortid_generate carry random sid now = generate_internal carry random sid now (sh_epoch sid)"

text \<open>The \<open>Must\<close> variants panic, \<open>None\<close>, where the others return an error.\<close>

definition must_new_abc :: "string \<Rightarrow> 64 word \<Rightarrow> rune list option" where
  "must_new_abc alphabet seed =
     (case new_abc alphabet seed of Some (Inr abc) \<Rightarrow> Some abc | _ \<Rightarrow> None)"

definition must_encode ::
  "(nat \<Rightarrow> bool) \<Rightarrow> rune list \<Rightarrow> (nat \<Rightarrow> nat) \<Rightarrow> nat \<Rightarrow> nat \<Rightarrow> nat \<Rightarrow> rune list option" where
  "must_encode carry abc random val nsymbols digits =
     (case abc_encode carry abc random val nsymbols digits of Inr res \<Rightarrow> Some res | Inl _ \<Rightarrow> None)"

definition must_new :: "nat \<Rightarrow> string \<Rightarrow> 64 word \<Rightarrow> shortid option" where
  "must_new worker alphabet seed =
     (case shortid_new worker alphabet seed of Some (Inr sid) \<Rightarrow> Some sid | _ \<Rightarrow> None)"

definition must_generate ::
  "(nat \<Rightarrow> bool) \<Rightarrow> (nat \<Rightarrow> nat) \<times> (nat \<Rightarrow> nat) \<Rightarrow> shortid \<Rightarrow> time \<Rightarrow> rune list option \<times> shortid" where
  "must_generate carry random sid now =
     (case shortid_generate carry random sid now of
        (Inr i, sid) \<Rightarrow> (Some i, sid)
      | (Inl _, sid) \<Rightarrow> (None, sid))"

text \<open>The package's own generator, which the login handlers draw from.\<close>

definition default_shortid :: "shortid option" where
  "default_shortid = must_new 0 DefaultABC 1"

text \<open>
  The package's state: its generators, by address, and the one \<open>shortid\<close> points to.
  \<open>GetDefault\<close> hands out the pointer, so ids drawn through it advance the default generator;
  the calls are \<open>None\<close>, a panic, on a nil pointer.
\<close>

record shortids =
  generators :: "nat \<rightharpoonup> shortid"
  default_generator :: "nat option"

definition get_default :: "shortids \<Rightarrow> nat option" where
  "get_default s = default_generator s"

definition set_default :: "nat option \<Rightarrow> shortids \<Rightarrow> shortids" where
  "set_default sid s = s\<lparr>default_generator := sid\<rparr>"

definition generate_at ::
  "(nat \<Rightarrow> bool) \<Rightarrow> (nat \<Rightarrow> nat) \<times> (nat \<Rightarrow> nat) \<Rightarrow> nat option \<Rightarrow> time \<Rightarrow> shortids
     \<Rightarrow> ((gerr + rune list) \<times> shortids) option" where
  "generate_at carry random sid now s =
     (case sid of None \<Rightarrow> None
      | Some p \<Rightarrow>
     (case generators s p of None \<Rightarrow> None
      | Some g \<Rightarrow>
          (case shortid_generate carry random g now of
             (r, g) \<Rightarrow> Some (r, s\<lparr>generators := (generators s)(p \<mapsto> g)\<rparr>))))"

definition generate_default ::
  "(nat \<Rightarrow> bool) \<Rightarrow> (nat \<Rightarrow> nat) \<times> (nat \<Rightarrow> nat) \<Rightarrow> time \<Rightarrow> shortids
     \<Rightarrow> ((gerr + rune list) \<times> shortids) option" where
  "generate_default carry random now s = generate_at carry random (default_generator s) now s"

definition must_generate_default ::
  "(nat \<Rightarrow> bool) \<Rightarrow> (nat \<Rightarrow> nat) \<times> (nat \<Rightarrow> nat) \<Rightarrow> time \<Rightarrow> shortids \<Rightarrow> (rune list \<times> shortids) option" where
  "must_generate_default carry random now s =
     (case generate_default carry random now s of
        Some (Inr i, s) \<Rightarrow> Some (i, s)
      | _ \<Rightarrow> None)"

text \<open>A draw moves the generator it is made from and no other.\<close>

lemma generate_at_frame:
  "generate_at carry random (Some p) now s = Some (r, s') \<Longrightarrow> q \<noteq> p \<Longrightarrow>
     generators s' q = generators s q \<and> default_generator s' = default_generator s"
  by (auto simp: generate_at_def split: option.splits prod.splits)

lemma generate_through_default:
  "generate_default carry random now s = generate_at carry random (get_default s) now s"
  "generate_default carry random now (set_default sid s) = generate_at carry random sid now (set_default sid s)"
  by (simp_all add: generate_default_def get_default_def set_default_def)

section \<open>Rendering\<close>

text \<open>\<open>string(runes)\<close>: each rune in UTF-8, one that is no code point as U+FFFD.\<close>

definition encode_rune :: "rune \<Rightarrow> nat list" where
  "encode_rune r =
     (let r = (if 0x10FFFF < r \<or> (0xD800 \<le> r \<and> r \<le> 0xDFFF) then rune_error else r)
      in if r < 0x80 then [r]
         else if r < 0x800 then [0xC0 + r div 64, 0x80 + r mod 64]
         else if r < 0x10000 then [0xE0 + r div 4096, 0x80 + r div 64 mod 64, 0x80 + r mod 64]
         else [0xF0 + r div 262144, 0x80 + r div 4096 mod 64, 0x80 + r div 64 mod 64, 0x80 + r mod 64])"

definition string_of_runes :: "rune list \<Rightarrow> string" where
  "string_of_runes rs = concat (map (\<lambda>r. map char_of (encode_rune r)) rs)"

text \<open>\<open>Alphabet\<close>, and the two \<open>String\<close>s; the text of a time is the parameter.\<close>

definition abc_alphabet :: "rune list \<Rightarrow> string" where
  "abc_alphabet abc = string_of_runes abc"

definition abc_string :: "rune list \<Rightarrow> string" where
  "abc_string abc = ''Abc{alphabet='' @ [CHR 0x27] @ abc_alphabet abc @ [CHR 0x27] @ '')''"

definition shortid_string :: "(time \<Rightarrow> string) \<Rightarrow> shortid \<Rightarrow> string" where
  "shortid_string time_text sid =
     ''Shortid(worker='' @ itoa (int (sh_worker sid)) @ '', epoch='' @ time_text (sh_epoch sid)
     @ '', abc='' @ abc_string (sh_abc sid) @ '')''"

definition code_point :: "rune \<Rightarrow> bool" where
  "code_point r \<longleftrightarrow> r \<le> 0x10FFFF \<and> \<not> (0xD800 \<le> r \<and> r \<le> 0xDFFF)"

lemma base64_digits:
  fixes r :: nat
  shows "r div 64 * 64 + r mod 64 = r"
    and "r div 4096 * 4096 + r div 64 mod 64 * 64 + r mod 64 = r"
    and "r div 262144 * 262144 + r div 4096 mod 64 * 4096 + r div 64 mod 64 * 64 + r mod 64 = r"
proof -
  have q: "r div 64 div 64 = r div 4096" "r div 4096 div 64 = r div 262144"
    by (simp_all flip: div_mult2_eq)
  show 1: "r div 64 * 64 + r mod 64 = r" by simp
  have 2: "r div 4096 * 64 + r div 64 mod 64 = r div 64"
    using div_mult_mod_eq [of "r div 64" 64] by (simp only: q)
  have 3: "r div 262144 * 64 + r div 4096 mod 64 = r div 4096"
    using div_mult_mod_eq [of "r div 4096" 64] by (simp only: q)
  show "r div 4096 * 4096 + r div 64 mod 64 * 64 + r mod 64 = r"
    using 1 2 by linarith
  show "r div 262144 * 262144 + r div 4096 mod 64 * 4096 + r div 64 mod 64 * 64 + r mod 64 = r"
    using 1 2 3 by linarith
qed

lemma decode3_digits:
  assumes "x < 16" "y < 64" "z < 64" "x = 0 \<longrightarrow> 32 \<le> y" "x = 13 \<longrightarrow> y \<le> 31"
  shows "decode_rune (0xE0 + x) ([0x80 + y, 0x80 + z] @ bs) = (x * 4096 + y * 64 + z, 3)"
  using assms by (auto simp: decode_rune_def decode3_def is_cont_def)

lemma decode4_digits:
  assumes "w \<le> 4" "x < 64" "y < 64" "z < 64" "w = 0 \<longrightarrow> 16 \<le> x" "w = 4 \<longrightarrow> x \<le> 15"
  shows "decode_rune (0xF0 + w) ([0x80 + x, 0x80 + y, 0x80 + z] @ bs)
    = (w * 262144 + x * 4096 + y * 64 + z, 4)"
  using assms by (auto simp: decode_rune_def decode4_def is_cont_def)

lemma encode_rune_code_point:
  "code_point r \<Longrightarrow> encode_rune r =
     (if r < 0x80 then [r]
      else if r < 0x800 then [0xC0 + r div 64, 0x80 + r mod 64]
      else if r < 0x10000 then [0xE0 + r div 4096, 0x80 + r div 64 mod 64, 0x80 + r mod 64]
      else [0xF0 + r div 262144, 0x80 + r div 4096 mod 64, 0x80 + r div 64 mod 64, 0x80 + r mod 64])"
  unfolding encode_rune_def code_point_def Let_def by (cases "0x10FFFF < r \<or> (0xD800 \<le> r \<and> r \<le> 0xDFFF)") auto

lemma decode_encode_rune:
  assumes "code_point r"
  shows "decode_rune (hd (encode_rune r)) (tl (encode_rune r) @ bs) = (r, length (encode_rune r))"
proof -
  have d: "r div 4096 * 64 + r div 64 mod 64 = r div 64" "r div 262144 * 64 + r div 4096 mod 64 = r div 4096"
    using base64_digits(2,3) [of r] base64_digits(1) [of r] base64_digits(2) [of r] by linarith+
  consider "r < 0x80" | "0x80 \<le> r" "r < 0x800" | "0x800 \<le> r" "r < 0x10000" | "0x10000 \<le> r" by linarith
  then show ?thesis
  proof cases
    case 1
    then show ?thesis by (simp add: encode_rune_code_point [OF assms] decode_rune_def)
  next
    case 2
    have "2 \<le> r div 64" "r div 64 < 32" using 2 by auto
    then have "decode_rune (0xC0 + r div 64) ([0x80 + r mod 64] @ bs) = (r div 64 * 64 + r mod 64, 2)"
      by (auto simp: decode_rune_def decode2_def is_cont_def)
    with 2 show ?thesis
      by (simp add: encode_rune_code_point [OF assms])
  next
    case 3
    have "r div 4096 < 16" using 3 by auto
    moreover have "32 \<le> r div 64" using 3 by auto
    moreover have "r div 64 \<le> 863 \<or> 896 \<le> r div 64"
      using assms 3 base64_digits(1) [of r] unfolding code_point_def by linarith
    ultimately have "decode_rune (0xE0 + r div 4096) ([0x80 + r div 64 mod 64, 0x80 + r mod 64] @ bs)
        = (r div 4096 * 4096 + r div 64 mod 64 * 64 + r mod 64, 3)"
      using d by (intro decode3_digits) auto
    with 3 base64_digits(2) [of r] show ?thesis
      by (simp add: encode_rune_code_point [OF assms])
  next
    case 4
    have "r div 262144 \<le> 4" using assms unfolding code_point_def by auto
    moreover have "16 \<le> r div 4096" "r div 4096 \<le> 271" using 4 assms unfolding code_point_def by auto
    ultimately have "decode_rune (0xF0 + r div 262144)
        ([0x80 + r div 4096 mod 64, 0x80 + r div 64 mod 64, 0x80 + r mod 64] @ bs)
        = (r div 262144 * 262144 + r div 4096 mod 64 * 4096 + r div 64 mod 64 * 64 + r mod 64, 4)"
      using d by (intro decode4_digits) auto
    with 4 base64_digits(3) [of r] show ?thesis
      by (simp add: encode_rune_code_point [OF assms])
  qed
qed

lemma encode_rune_bytes: "encode_rune r \<noteq> []" "code_point r \<Longrightarrow> list_all (\<lambda>b. b < 256) (encode_rune r)"
proof -
  show "encode_rune r \<noteq> []" by (simp add: encode_rune_def Let_def)
  have "r div 64 < 32 \<or> 0x800 \<le> r" "r div 4096 < 16 \<or> 0x10000 \<le> r" "r div 64 mod 64 < 64" "r mod 64 < 64"
    "r div 4096 mod 64 < 64" by auto
  moreover have "r div 262144 \<le> 4" if "code_point r" using that unfolding code_point_def by auto
  ultimately show "list_all (\<lambda>b. b < 256) (encode_rune r)" if "code_point r"
    using that by (auto simp: encode_rune_code_point)
qed

text \<open>What is rendered reads back: an alphabet of code points is decoded from its string.\<close>

lemma runes_of_string: "list_all code_point rs \<Longrightarrow> runes (string_of_runes rs) = rs"
proof (induction rs)
  case (Cons r rs)
  obtain b bs where e: "encode_rune r = b # bs" using encode_rune_bytes(1) by (meson neq_Nil_conv)
  have raw: "map byte_of (map char_of (encode_rune r)) = encode_rune r"
    using encode_rune_bytes(2) [of r] Cons.prems by (auto simp: byte_of_def list_all_iff intro!: map_idI)
  have s: "string_of_runes (r # rs) = char_of b # map char_of bs @ string_of_runes rs"
    by (simp add: string_of_runes_def e)
  have "decode_rune (byte_of (char_of b)) (map byte_of (map char_of bs @ string_of_runes rs)) = (r, Suc (length bs))"
    using decode_encode_rune [of r "map byte_of (string_of_runes rs)"] Cons.prems raw by (simp add: e)
  with Cons show ?case
    by (simp add: s runes_def Let_def)
qed (simp add: runes_def string_of_runes_def)

text \<open>A run of the generator: one clock reading and the random bytes of each call.\<close>

fun generate_all ::
  "(nat \<Rightarrow> bool) \<Rightarrow> shortid \<Rightarrow> (time \<times> (nat \<Rightarrow> nat) \<times> (nat \<Rightarrow> nat)) list \<Rightarrow> (gerr + rune list) list" where
  "generate_all carry sid [] = []"
| "generate_all carry sid ((now, random) # calls) =
     (case shortid_generate carry random sid now of
        (r, sid) \<Rightarrow> r # generate_all carry sid calls)"

section \<open>Ids are unique\<close>

lemma id_runes_InrE:
  assumes "id_runes carry abc random ms worker repeats = Inr i"
  obtains a b c where "i = a @ [hd b] @ c" "length a = 8" "length b = 1"
    "abc_encode carry abc (fst random) ms 8 5 = Inr a"
    "abc_encode carry abc (snd random) worker 1 5 = Inr b"
    "if 0 < repeats then abc_encode carry abc (\<lambda>_. 0) repeats 0 6 = Inr c else c = []"
proof -
  obtain a where a: "abc_encode carry abc (fst random) ms 8 5 = Inr a"
    using assms by (auto simp: id_runes_def split: sum.splits)
  obtain b where b: "abc_encode carry abc (snd random) worker 1 5 = Inr b"
    using assms a by (auto simp: id_runes_def split: sum.splits)
  have len: "length a = 8" "length b = 1"
    using abc_encode_InrD(3) [OF a] abc_encode_InrD(3) [OF b] by auto
  show ?thesis
  proof (cases "0 < repeats")
    case True
    then obtain c where "abc_encode carry abc (\<lambda>_. 0) repeats 0 6 = Inr c" "i = a @ [hd b] @ c"
      using assms a b by (auto simp: id_runes_def split: sum.splits)
    with True a b len show ?thesis by (intro that [of a b c]) auto
  next
    case False
    then show ?thesis using assms a b len by (intro that [of a b "[]"]) (auto simp: id_runes_def)
  qed
qed

lemma abc_encode_counter_nonempty: "abc_encode carry abc f x 0 6 = Inr c \<Longrightarrow> c \<noteq> []"
  using abc_encode_InrD(2) [of carry abc f x 0 6 c] by (auto simp: computed_size_def split: if_splits)

lemma id_runes_inj:
  assumes abc: "usable_abc abc"
    and x: "id_runes carry abc r1 ms1 w1 n1 = Inr i" and y: "id_runes carry abc r2 ms2 w2 n2 = Inr i"
  shows "ms1 = ms2 \<and> w1 = w2 \<and> n1 = n2"
proof -
  obtain a1 b1 c1 where 1: "i = a1 @ [hd b1] @ c1" "length a1 = 8" "length b1 = 1"
    "abc_encode carry abc (fst r1) ms1 8 5 = Inr a1" "abc_encode carry abc (snd r1) w1 1 5 = Inr b1"
    "if 0 < n1 then abc_encode carry abc (\<lambda>_. 0) n1 0 6 = Inr c1 else c1 = []"
    using x by (rule id_runes_InrE)
  obtain a2 b2 c2 where 2: "i = a2 @ [hd b2] @ c2" "length a2 = 8" "length b2 = 1"
    "abc_encode carry abc (fst r2) ms2 8 5 = Inr a2" "abc_encode carry abc (snd r2) w2 1 5 = Inr b2"
    "if 0 < n2 then abc_encode carry abc (\<lambda>_. 0) n2 0 6 = Inr c2 else c2 = []"
    using y by (rule id_runes_InrE)
  have eq: "a1 = a2" "hd b1 = hd b2" "c1 = c2" using 1(1,2) 2(1,2) by auto
  have "b1 = b2" using eq(2) 1(3) 2(3) by (auto simp: length_Suc_conv)
  then have "ms1 = ms2" "w1 = w2"
    using abc_encode_inj [OF abc] 1(4,5) 2(4,5) eq(1) by blast+
  moreover have "n1 = n2"
  proof (cases "0 < n1 \<and> 0 < n2")
    case True
    then show ?thesis using abc_encode_inj [OF abc _, of 6] 1(6) 2(6) eq(3) by auto
  next
    case False
    then show ?thesis
      using 1(6) 2(6) eq(3) by (auto split: if_splits dest: abc_encode_counter_nonempty)
  qed
  ultimately show ?thesis by simp
qed

lemma id_runes_ok:
  assumes "ms < 2 ^ 40" and "worker \<le> 31"
  obtains i where "id_runes carry abc random ms worker repeats = Inr i"
proof -
  obtain a b c where "abc_encode carry abc (fst random) ms 8 5 = Inr a"
    "abc_encode carry abc (snd random) worker 1 5 = Inr b"
    "abc_encode carry abc (\<lambda>_. 0) repeats 0 6 = Inr c"
    using abc_encode_ok [of 5 8 ms carry abc "fst random"] abc_encode_ok [of 5 1 worker carry abc "snd random"]
      abc_encode_ok [of 6 0 repeats carry abc "\<lambda>_. 0"] assms by auto
  then show ?thesis
    by (intro that [of "if 0 < repeats then a @ [hd b] @ c else a @ [hd b]"]) (simp add: id_runes_def)
qed

text \<open>The end of the epoch: 2 to the 40 milliseconds, or 34.8 years, after 2016.\<close>

definition epoch_end :: time where
  "epoch_end = shortid_epoch + 2 ^ 40 * 1000000"

lemma elapsed_ms_plain:
  assumes "shortid_epoch \<le> now" and "now < epoch_end"
  shows "elapsed_ms now shortid_epoch = nat ((now - shortid_epoch) div 1000000)"
    and "elapsed_ms now shortid_epoch < 2 ^ 40"
proof -
  have d: "0 \<le> now - shortid_epoch" "now - shortid_epoch < 2 ^ 40 * 1000000"
    using assms by (auto simp: epoch_end_def)
  then have "(now - shortid_epoch) div 1000000 < 2 ^ 40" by linarith
  moreover have "time_sub now shortid_epoch = now - shortid_epoch"
    by (rule time_sub_plain) (use d in simp)
  ultimately show "elapsed_ms now shortid_epoch = nat ((now - shortid_epoch) div 1000000)"
    and "elapsed_ms now shortid_epoch < 2 ^ 40"
    using d by (auto simp: elapsed_ms_def Let_def sgn_if)
qed

text \<open>A generator as \<open>New\<close> leaves it and as the ids after it find it.\<close>

definition generator_ok :: "shortid \<Rightarrow> bool" where
  "generator_ok sid \<longleftrightarrow> usable_abc (sh_abc sid) \<and> sh_worker sid \<le> 31 \<and> sh_epoch sid = shortid_epoch"

lemma shortid_new_ok:
  "shortid_new worker alphabet seed = Some (Inr sid) \<Longrightarrow>
     generator_ok sid \<and> sh_worker sid = worker \<and> sh_ms sid = 0 \<and> sh_count sid = 0"
  using alphabet_permutation [of alphabet seed]
  by (auto simp: shortid_new_def generator_ok_def usable_abc_def map_sum_def split: if_splits sum.splits)

definition later_id :: "shortid \<Rightarrow> nat \<Rightarrow> nat \<Rightarrow> bool" where
  "later_id sid ms n \<longleftrightarrow> sh_ms sid < ms \<or> (ms = sh_ms sid \<and> sh_count sid < n)"

lemma later_id_trans:
  "later_id sid (sh_ms sid') (sh_count sid') \<Longrightarrow> later_id sid' ms n \<Longrightarrow> later_id sid ms n"
  by (auto simp: later_id_def)

lemma generate_step:
  assumes sid: "generator_ok sid" and now: "shortid_epoch \<le> now" "now < epoch_end"
    and mono: "sh_ms sid \<le> elapsed_ms now shortid_epoch" and room: "Suc (sh_count sid) < 2 ^ 64"
  obtains i sid' where "shortid_generate carry random sid now = (Inr i, sid')"
    and "generator_ok sid'" "sh_abc sid' = sh_abc sid" "sh_worker sid' = sh_worker sid"
    and "id_runes carry (sh_abc sid) random (sh_ms sid') (sh_worker sid) (sh_count sid') = Inr i"
    and "later_id sid (sh_ms sid') (sh_count sid')"
    and "sh_ms sid' = elapsed_ms now shortid_epoch" and "sh_count sid' \<le> Suc (sh_count sid)"
proof -
  define sid' where "sid' = snd (ms_and_counter sid now shortid_epoch)"
  have ms: "ms_and_counter sid now shortid_epoch = ((sh_ms sid', sh_count sid'), sid')"
    by (simp add: sid'_def ms_and_counter_def Let_def)
  have same: "generator_ok sid'" "sh_abc sid' = sh_abc sid" "sh_worker sid' = sh_worker sid"
    using sid by (auto simp: sid'_def ms_and_counter_def Let_def generator_ok_def)
  have sid': "sh_ms sid' = elapsed_ms now shortid_epoch" "sh_count sid' \<le> Suc (sh_count sid)"
      "later_id sid (sh_ms sid') (sh_count sid')"
    using room mono by (auto simp: sid'_def ms_and_counter_def Let_def later_id_def)
  obtain i where "id_runes carry (sh_abc sid) random (sh_ms sid') (sh_worker sid) (sh_count sid') = Inr i"
    using sid elapsed_ms_plain(2) [OF now] sid'(1) by (metis generator_ok_def id_runes_ok)
  moreover from this have "shortid_generate carry random sid now = (Inr i, sid')"
    using ms sid same by (simp add: shortid_generate_def generate_internal_def generator_ok_def)
  ultimately show ?thesis using sid' same by (intro that)
qed

text \<open>The clock of a run never steps back and stays within the epoch.\<close>

definition clock_ok :: "time list \<Rightarrow> bool" where
  "clock_ok nows \<longleftrightarrow> sorted nows \<and> list_all (\<lambda>now. shortid_epoch \<le> now \<and> now < epoch_end) nows"

lemma elapsed_ms_mono:
  assumes "shortid_epoch \<le> t" "t \<le> u" "u < epoch_end"
  shows "elapsed_ms t shortid_epoch \<le> elapsed_ms u shortid_epoch"
proof -
  have "(t - shortid_epoch) div 1000000 \<le> (u - shortid_epoch) div 1000000"
    using assms by (intro zdiv_mono1) auto
  then show ?thesis using assms by (simp add: elapsed_ms_plain nat_mono)
qed

lemma generate_all_unique:
  assumes "generator_ok sid" and "clock_ok (map fst calls)"
    and "list_all (\<lambda>now. sh_ms sid \<le> elapsed_ms now shortid_epoch) (map fst calls)"
    and "sh_count sid + length calls < 2 ^ 64"
  shows "\<exists>ids. generate_all carry sid calls = map Inr ids \<and> distinct ids \<and>
    (\<forall>i \<in> set ids. \<exists>r ms n. later_id sid ms n \<and>
       id_runes carry (sh_abc sid) r ms (sh_worker sid) n = Inr i)"
  using assms
proof (induction calls arbitrary: sid)
  case (Cons call calls)
  obtain now random where call: "call = (now, random)" by (cases call)
  have now: "shortid_epoch \<le> now" "now < epoch_end" "sh_ms sid \<le> elapsed_ms now shortid_epoch"
    and nows: "clock_ok (map fst calls)" "list_all (\<lambda>u. now \<le> u) (map fst calls)"
    using Cons.prems(2,3) by (auto simp: call clock_ok_def list_all_iff)
  have "Suc (sh_count sid) < 2 ^ 64" using Cons.prems(4) by simp
  with Cons.prems(1) now obtain i sid' where
    step: "shortid_generate carry random sid now = (Inr i, sid')" "generator_ok sid'"
      "id_runes carry (sh_abc sid) random (sh_ms sid') (sh_worker sid) (sh_count sid') = Inr i"
      "later_id sid (sh_ms sid') (sh_count sid')"
      "sh_ms sid' = elapsed_ms now shortid_epoch" "sh_count sid' \<le> Suc (sh_count sid)"
    and same: "sh_abc sid' = sh_abc sid" "sh_worker sid' = sh_worker sid"
    by (rule generate_step)
  have room: "sh_count sid' + length calls < 2 ^ 64" using step(6) Cons.prems(4) by simp
  have mono: "list_all (\<lambda>u. sh_ms sid' \<le> elapsed_ms u shortid_epoch) (map fst calls)"
    using nows now by (auto simp: clock_ok_def list_all_iff step(5) intro: elapsed_ms_mono)
  then obtain ids where ids: "generate_all carry sid' calls = map Inr ids" "distinct ids"
      "\<forall>i \<in> set ids. \<exists>r ms n. later_id sid' ms n \<and>
         id_runes carry (sh_abc sid) r ms (sh_worker sid) n = Inr i"
    using Cons.IH [OF step(2) nows(1) mono room] unfolding same by blast
  have "i \<notin> set ids"
  proof
    assume "i \<in> set ids"
    then obtain r ms n where "later_id sid' ms n"
        "id_runes carry (sh_abc sid) r ms (sh_worker sid) n = Inr i"
      using ids(3) by blast
    moreover have "usable_abc (sh_abc sid)" using Cons.prems(1) by (simp add: generator_ok_def)
    ultimately have "later_id sid' (sh_ms sid') (sh_count sid')"
      using id_runes_inj step(3) by blast
    then show False by (simp add: later_id_def)
  qed
  moreover have "\<exists>r ms n. later_id sid ms n \<and> id_runes carry (sh_abc sid) r ms (sh_worker sid) n = Inr j"
    if "j \<in> set (i # ids)" for j
  proof (cases "j = i")
    case False
    with that have "j \<in> set ids" by simp
    then obtain r ms n where "later_id sid' ms n"
        "id_runes carry (sh_abc sid) r ms (sh_worker sid) n = Inr j"
      using ids(3) by blast
    with step(4) show ?thesis using later_id_trans by blast
  qed (use step(3,4) in blast)
  ultimately show ?case
    using step(1) ids(1,2) by (intro exI [of _ "i # ids"]) (simp add: call)
qed simp

lemma ids_default_exists: "\<exists>sid. shortid_new 0 DefaultABC 1 = Some (Inr sid)"
proof -
  have "is_ascii DefaultABC" by (simp add: is_ascii_def DefaultABC_def byte_of_def)
  then have "length (runes DefaultABC) = 64" "distinct (runes DefaultABC)"
    by (simp_all add: runes_ascii DefaultABC_def byte_of_def)
  then show ?thesis
    using alphabet_permutation [of DefaultABC 1]
    by (auto simp: shortid_new_def map_sum_def split: option.splits sum.splits)
qed

text \<open>C36. A generator that \<open>New\<close> made gives an id on every call, and no id twice, as long as
  the clock does not step back and the 34.8 years after 2016 are not over: the calls of one
  millisecond are told apart by the counter, later ones by the millisecond, and the random
  bits never make two ids meet.\<close>

theorem ids_never_repeat:
  "shortid_new worker alphabet seed = Some (Inr sid) \<Longrightarrow> clock_ok (map fst calls) \<Longrightarrow>
   length calls < 2 ^ 64 \<Longrightarrow>
     \<exists>ids. generate_all carry sid calls = map Inr ids \<and> distinct ids"
  using generate_all_unique [of sid calls carry] shortid_new_ok [of worker alphabet seed sid]
  by (auto simp: list_all_iff)

lemma ids_never_repeat_witness:
  "\<exists>sid. shortid_new 0 DefaultABC 1 = Some (Inr sid) \<and>
     (\<exists>ids. generate_all (\<lambda>_. False) sid
        [(shortid_epoch, \<lambda>_. 255, \<lambda>_. 0), (shortid_epoch, \<lambda>_. 7, \<lambda>_. 1)] = map Inr ids \<and> distinct ids)"
proof -
  obtain sid where "shortid_new 0 DefaultABC 1 = Some (Inr sid)" using ids_default_exists by blast
  moreover from ids_never_repeat [OF this, of "[(shortid_epoch, \<lambda>_. 255, \<lambda>_. 0), (shortid_epoch, \<lambda>_. 7, \<lambda>_. 1)]" "\<lambda>_. False"]
  have "\<exists>ids. generate_all (\<lambda>_. False) sid
      [(shortid_epoch, \<lambda>_. 255, \<lambda>_. 0), (shortid_epoch, \<lambda>_. 7, \<lambda>_. 1)] = map Inr ids \<and> distinct ids"
    by (simp add: clock_ok_def epoch_end_def)
  ultimately show ?thesis by blast
qed

text \<open>\<open>New\<close> is total and its shuffle ends: it refuses a worker number above 31 and an alphabet
  that does not have 64 different runes, and otherwise returns a generator over a permutation
  of the alphabet, with no id given yet.\<close>

lemma shortid_new_is_well_formed:
  "case shortid_new worker alphabet seed of
     None \<Rightarrow> False
   | Some (Inl e) \<Rightarrow> 31 < worker \<or> length (runes alphabet) \<noteq> 64 \<or> \<not> distinct (runes alphabet)
   | Some (Inr sid) \<Rightarrow>
       worker \<le> 31 \<and> sh_worker sid = worker \<and> sh_ms sid = 0 \<and> sh_count sid = 0 \<and>
       distinct (sh_abc sid) \<and> length (sh_abc sid) = 64 \<and> mset (sh_abc sid) = mset (runes alphabet)"
  using alphabet_permutation [of alphabet seed]
  by (auto simp: shortid_new_def map_sum_def split: option.splits sum.splits)

text \<open>The package initialises, so the handlers that drop \<open>Generate\<close>'s error get an id.\<close>

lemma default_shortid_ok: "\<exists>sid. default_shortid = Some sid \<and> generator_ok sid"
  using ids_default_exists shortid_new_ok by (force simp: default_shortid_def must_new_def)

text \<open>Generators that share alphabet and seed but not the worker number never meet.\<close>

lemma workers_never_meet:
  assumes "shortid_new w1 alphabet seed = Some (Inr g1)" and "shortid_new w2 alphabet seed = Some (Inr g2)"
    and "id_runes carry (sh_abc g1) r1 ms1 w1 n1 = Inr i" and "id_runes carry (sh_abc g2) r2 ms2 w2 n2 = Inr i"
  shows "w1 = w2"
proof -
  have "sh_abc g1 = sh_abc g2"
    using assms(1,2) by (auto simp: shortid_new_def map_sum_def split: if_splits sum.splits)
  moreover have "usable_abc (sh_abc g1)"
    using shortid_new_ok [OF assms(1)] by (simp add: generator_ok_def)
  ultimately show ?thesis using id_runes_inj assms(3,4) by metis
qed

text \<open>
  The counter restarts whenever the millisecond changes, so when the wall clock steps back
  (the epoch has no monotonic reading to compare with) an id can come back.
\<close>

lemma ids_repeat_when_the_clock_steps_back:
  assumes "elapsed_ms t (sh_epoch sid) \<noteq> elapsed_ms u (sh_epoch sid)" and "elapsed_ms t (sh_epoch sid) \<noteq> sh_ms sid"
  shows "generate_all carry sid [(t, r), (u, r'), (t, r)] ! 0 = generate_all carry sid [(t, r), (u, r'), (t, r)] ! 2"
  using assms
  by (simp add: shortid_generate_def generate_internal_def ms_and_counter_def Let_def)

end
