(* ===== verification/Extensions.thy ===== *)
theory Extensions
  imports UserInfo
begin

text \<open>
  The rest of package \<open>internal/helpers/userinfo\<close>: \<open>Clone\<close> of the extensions, with the array its
  slices share, and the identity a request's context carries (context.go).
\<close>

section \<open>Clone\<close>

text \<open>
  A slice of one array: where it starts, its length, and its capacity, the elements \<open>append\<close> may
  overwrite. The entries of a map come in the order \<open>range\<close> visits them, any order.
\<close>

record slice =
  sl_from :: nat
  sl_len :: nat
  sl_cap :: nat

definition slice_get :: "'a list \<Rightarrow> slice \<Rightarrow> 'a list" where
  "slice_get arr s = take (sl_len s) (drop (sl_from s) arr)"

text \<open>
  \<open>s[i] = x\<close> within the length, and \<open>append(s, x)\<close>: in place within the capacity, else (\<open>None\<close>)
  into an array of its own.
\<close>

definition slice_assign :: "'a list \<Rightarrow> slice \<Rightarrow> nat \<Rightarrow> 'a \<Rightarrow> 'a list option" where
  "slice_assign arr s i x = (if i < sl_len s then Some (arr[sl_from s + i := x]) else None)"

definition slice_append :: "'a list \<Rightarrow> slice \<Rightarrow> 'a \<Rightarrow> 'a list option" where
  "slice_append arr s x =
     (if sl_len s < sl_cap s then Some (arr[sl_from s + sl_len s := x]) else None)"

fun clone_loop ::
  "(string \<times> string list) list \<Rightarrow> string list \<Rightarrow> slice \<Rightarrow> (string \<rightharpoonup> slice) \<Rightarrow> string list \<times> (string \<rightharpoonup> slice)" where
  "clone_loop [] arr sv cloned = (arr, cloned)"
| "clone_loop ((k, v) # exts) arr sv cloned =
     (let n = min (sl_len sv) (length v);
          arr = take (sl_from sv) arr @ take n v @ drop (sl_from sv + n) arr
      in clone_loop exts arr
           \<lparr>sl_from = sl_from sv + n, sl_len = sl_len sv - n, sl_cap = sl_cap sv - n\<rparr>
           (cloned(k \<mapsto> \<lparr>sl_from = sl_from sv, sl_len = n, sl_cap = n\<rparr>)))"

definition ext_clone :: "(string \<times> string list) list option \<Rightarrow> (string list \<times> (string \<rightharpoonup> slice)) option" where
  "ext_clone exts =
     (case exts of
        None \<Rightarrow> None
      | Some es \<Rightarrow>
          let nv = sum_list (map (\<lambda>(k, v). length v) es)
          in Some (clone_loop es (replicate nv '''') \<lparr>sl_from = 0, sl_len = nv, sl_cap = nv\<rparr> Map.empty))"

text \<open>What the loop leaves: the values one after the other, each key with its own stretch.\<close>

fun slices_at :: "nat \<Rightarrow> (string \<times> string list) list \<Rightarrow> (string \<times> slice) list" where
  "slices_at off [] = []"
| "slices_at off ((k, v) # es) =
     (k, \<lparr>sl_from = off, sl_len = length v, sl_cap = length v\<rparr>) # slices_at (off + length v) es"

lemma slices_at_keys [simp]: "map fst (slices_at off es) = map fst es"
  by (induction off es rule: slices_at.induct) simp_all

lemma clone_loop_eq:
  assumes "distinct (map fst es)" and "off + sum_list (map (\<lambda>(k, v). length v) es) = length arr"
  shows "clone_loop es arr \<lparr>sl_from = off, sl_len = sum_list (map (\<lambda>(k, v). length v) es), sl_cap = c\<rparr> m
    = (take off arr @ concat (map snd es), m ++ map_of (slices_at off es))"
  using assms
proof (induction es arbitrary: arr off c m)
  case (Cons e es)
  obtain k v where e: "e = (k, v)" by force
  let ?arr = "take off arr @ v @ drop (off + length v) arr" and ?n = "\<lambda>es. sum_list (map (\<lambda>(k, v). length v) es)"
  let ?s = "\<lparr>sl_from = off, sl_len = length v, sl_cap = length v\<rparr>"
  have room: "off + length v + ?n es = length ?arr" using Cons.prems(2) by (simp add: e)
  have "clone_loop (e # es) arr \<lparr>sl_from = off, sl_len = ?n (e # es), sl_cap = c\<rparr> m
      = clone_loop es ?arr \<lparr>sl_from = off + length v, sl_len = ?n es, sl_cap = c - length v\<rparr> (m(k \<mapsto> ?s))"
    by (simp only: e clone_loop.simps Let_def list.map sum_list.Cons prod.case slice.simps min_absorb2 le_add1
        add_diff_cancel_left' take_all order_refl)
  also have "\<dots> = (take (off + length v) ?arr @ concat (map snd es),
      m(k \<mapsto> ?s) ++ map_of (slices_at (off + length v) es))"
    using Cons.prems(1) by (intro Cons.IH room) (simp add: e)
  also have "m(k \<mapsto> ?s) ++ map_of (slices_at (off + length v) es) = m ++ map_of (slices_at off (e # es))"
    using Cons.prems(1) by (subst map_add_upd_left) (auto simp: e dom_map_of_conv_image_fst simp flip: set_map)
  also have "take (off + length v) ?arr = take off arr @ v" using Cons.prems(2) by (simp add: e)
  finally show ?case by (simp add: e)
qed simp

lemma ext_clone_eq:
  "distinct (map fst es) \<Longrightarrow> ext_clone (Some es) = Some (concat (map snd es), map_of (slices_at 0 es))"
  using clone_loop_eq [of es 0 "replicate (sum_list (map (\<lambda>(k, v). length v) es)) ''''"]
  by (simp add: ext_clone_def Let_def)

lemma slices_at_from: "(k, s) \<in> set (slices_at off es) \<Longrightarrow> off \<le> sl_from s \<and> sl_cap s = sl_len s"
  by (induction off es rule: slices_at.induct) auto

lemma slices_at_read:
  "map_option (slice_get (pre @ concat (map snd es))) (map_of (slices_at (length pre) es) k) = map_of es k"
proof (induction es arbitrary: pre)
  case (Cons e es)
  then show ?case
    using Cons.IH [of "pre @ snd e"] by (cases e) (simp add: slice_get_def)
qed simp

lemma slices_at_apart:
  assumes "distinct (map fst es)" and "j \<noteq> k"
    and "map_of (slices_at off es) j = Some s" and "map_of (slices_at off es) k = Some t"
  shows "sl_from s + sl_len s \<le> sl_from t \<or> sl_from t + sl_len t \<le> sl_from s"
  using assms
proof (induction off es rule: slices_at.induct)
  case (2 off k' v es)
  then show ?case
    by (auto split: if_splits dest!: map_of_SomeD slices_at_from)
qed simp

text \<open>
  The clone holds what the original does, and its keys are apart: an assignment to one key's
  values, within their length, is seen under no other key, and an append never writes into the
  shared array, since the capacity of each slice ends where its values do.
\<close>

theorem clone_independent:
  assumes "distinct (map fst es)" and "ext_clone (Some es) = Some (arr, m)"
  shows "(\<lambda>k. map_option (slice_get arr) (m k)) = map_of es"
    and "m k = Some s \<Longrightarrow> slice_append arr s x = None"
    and "m k = Some s \<Longrightarrow> m j = Some t \<Longrightarrow> j \<noteq> k \<Longrightarrow> slice_assign arr s i x = Some arr' \<Longrightarrow>
           slice_get arr' t = slice_get arr t"
proof -
  have am: "arr = concat (map snd es)" "m = map_of (slices_at 0 es)"
    using assms by (simp_all add: ext_clone_eq)
  show "(\<lambda>k. map_option (slice_get arr) (m k)) = map_of es"
    using slices_at_read [of "[]" es] by (simp add: am)
  show "slice_append arr s x = None" if "m k = Some s"
    using slices_at_from [of k s 0 es] that by (auto simp: am slice_append_def dest: map_of_SomeD)
  show "slice_get arr' t = slice_get arr t"
    if "m k = Some s" "m j = Some t" "j \<noteq> k" "slice_assign arr s i x = Some arr'"
    using slices_at_apart [OF assms(1) that(3) that(2) [unfolded am] that(1) [unfolded am]] that(4)
    by (auto simp: slice_assign_def slice_get_def drop_update_swap drop_update_cancel split: if_splits)
qed

section \<open>The context\<close>

text \<open>
  \<open>context.WithValue\<close> and \<open>Value\<close>: the innermost value of the key. The key of this package is of
  a type of its own, so no other package writes under it; a nil \<open>Info\<close> is no \<open>Info\<close>.
\<close>

datatype context_key = UserKey | OtherKey nat

datatype context_value = InfoValue "user option" | OtherValue nat

datatype go_context = Background | WithValue go_context context_key context_value

fun ctx_value :: "go_context \<Rightarrow> context_key \<Rightarrow> context_value option" where
  "ctx_value Background k = None"
| "ctx_value (WithValue c j v) k = (if j = k then Some v else ctx_value c k)"

definition ctx_with_user :: "go_context \<Rightarrow> user option \<Rightarrow> go_context" where
  "ctx_with_user c nfo = WithValue c UserKey (InfoValue nfo)"

definition user_from_ctx :: "go_context \<Rightarrow> user option" where
  "user_from_ctx c = (case ctx_value c UserKey of Some (InfoValue nfo) \<Rightarrow> nfo | _ \<Rightarrow> None)"

definition request_with_user :: "user option \<Rightarrow> 'r \<times> go_context \<Rightarrow> 'r \<times> go_context" where
  "request_with_user nfo r = (fst r, ctx_with_user (snd r) nfo)"

definition request_user :: "'r \<times> go_context \<Rightarrow> user option" where
  "request_user r = user_from_ctx (snd r)"

lemma request_user_roundtrip: "request_user (request_with_user nfo r) = nfo"
  by (simp add: request_user_def request_with_user_def user_from_ctx_def ctx_with_user_def)

lemma user_from_ctx_other [simp]: "user_from_ctx (WithValue c (OtherKey n) v) = user_from_ctx c"
  by (simp add: user_from_ctx_def)

end
