(* ===== verification/Registration.thy ===== *)
theory Registration
  imports GoError
begin

text \<open>
  The registration of authn's custom resources (\<open>apis/authn/*/v1alpha1/group_version_info.go\<close> and
  \<open>apis/apis.go\<close>): each API's group, version and kind, the builder its types are registered with,
  and the list \<open>AddToScheme\<close> runs. The rendering of groups and kinds and the scheme itself are
  apimachinery's and controller-runtime's, parameters here.
\<close>

record group_version =
  gv_group :: string
  gv_version :: string

record apimachinery =
  am_group_kind :: "string \<Rightarrow> string \<Rightarrow> string"
  am_group_version :: "group_version \<Rightarrow> string"

section \<open>The metadata of a kind\<close>

record type_metadata =
  tm_kind :: string
  tm_group_kind :: string
  tm_kind_api_version :: string
  tm_group_version_kind :: "group_version \<times> string"

definition metadata_of :: "apimachinery \<Rightarrow> group_version \<Rightarrow> string \<Rightarrow> type_metadata" where
  "metadata_of am gv kind =
     \<lparr>tm_kind = kind, tm_group_kind = am_group_kind am (gv_group gv) kind,
      tm_kind_api_version = kind @ ''.'' @ am_group_version am gv, tm_group_version_kind = (gv, kind)\<rparr>"

text \<open>A builder collects the types of its group and version, here by name.\<close>

record scheme_builder =
  sb_group_version :: group_version
  sb_types :: "string list"

definition register :: "string list \<Rightarrow> scheme_builder \<Rightarrow> scheme_builder" where
  "register types b = b\<lparr>sb_types := sb_types b @ types\<rparr>"

definition new_builder :: "group_version \<Rightarrow> scheme_builder" where
  "new_builder gv = \<lparr>sb_group_version = gv, sb_types = []\<rparr>"

section \<open>The five APIs\<close>

definition basic_api :: "apimachinery \<Rightarrow> type_metadata \<times> scheme_builder" where
  "basic_api am =
     (let gv = \<lparr>gv_group = ''basic.authn.krateo.io'', gv_version = ''v1alpha1''\<rparr>
      in (metadata_of am gv ''User'', register [''User'', ''UserList''] (new_builder gv)))"

definition ldap_api :: "apimachinery \<Rightarrow> type_metadata \<times> scheme_builder" where
  "ldap_api am =
     (let gv = \<lparr>gv_group = ''ldap.authn.krateo.io'', gv_version = ''v1alpha1''\<rparr>
      in (metadata_of am gv ''LDAPConfig'', register [''LDAPConfig'', ''LDAPConfigList''] (new_builder gv)))"

definition oauth_api :: "apimachinery \<Rightarrow> type_metadata \<times> scheme_builder" where
  "oauth_api am =
     (let gv = \<lparr>gv_group = ''oauth.authn.krateo.io'', gv_version = ''v1alpha1''\<rparr>
      in (metadata_of am gv ''OAuthConfig'', register [''OAuthConfig'', ''OAuthConfigList''] (new_builder gv)))"

definition oidc_api :: "apimachinery \<Rightarrow> type_metadata \<times> scheme_builder" where
  "oidc_api am =
     (let gv = \<lparr>gv_group = ''oidc.authn.krateo.io'', gv_version = ''v1alpha1''\<rparr>
      in (metadata_of am gv ''OIDCConfig'', register [''OIDCConfig'', ''OIDCConfigList''] (new_builder gv)))"

definition service_account_api :: "apimachinery \<Rightarrow> type_metadata \<times> scheme_builder" where
  "service_account_api am =
     (let gv = \<lparr>gv_group = ''serviceaccount.authn.krateo.io'', gv_version = ''v1alpha1''\<rparr>
      in (metadata_of am gv ''ServiceAccount'',
          register [''ServiceAccount'', ''ServiceAccountList''] (new_builder gv)))"

lemmas api_defs =
  basic_api_def ldap_api_def oauth_api_def oidc_api_def service_account_api_def
  metadata_of_def register_def new_builder_def Let_def

definition all_apis :: "apimachinery \<Rightarrow> (type_metadata \<times> scheme_builder) list" where
  "all_apis am = [basic_api am, ldap_api am, oauth_api am, oidc_api am, service_account_api am]"

section \<open>AddToScheme\<close>

text \<open>
  The functions \<open>init\<close> appends, and their run: in order, abandoned at the first that fails. What
  one builder's \<open>AddToScheme\<close> does to the scheme is the parameter \<open>add\<close>.
\<close>

definition AddToSchemes :: "apimachinery \<Rightarrow> scheme_builder list" where
  "AddToSchemes am = [snd (basic_api am), snd (oauth_api am), snd (service_account_api am)]"

fun run_builders ::
  "(scheme_builder \<Rightarrow> 's \<Rightarrow> gerr option \<times> 's) \<Rightarrow> scheme_builder list \<Rightarrow> 's \<Rightarrow> gerr option \<times> 's" where
  "run_builders add [] s = (None, s)"
| "run_builders add (b # bs) s =
     (case add b s of (Some e, s) \<Rightarrow> (Some e, s) | (None, s) \<Rightarrow> run_builders add bs s)"

definition AddToScheme ::
  "apimachinery \<Rightarrow> (scheme_builder \<Rightarrow> 's \<Rightarrow> gerr option \<times> 's) \<Rightarrow> 's \<Rightarrow> gerr option \<times> 's" where
  "AddToScheme am add s = run_builders add (AddToSchemes am) s"

section \<open>Facts\<close>

text \<open>
  No two APIs share a group, and each registers its kind and the list of it under that group.
\<close>

lemma apis_distinct:
  "distinct (map (\<lambda>(_, b). gv_group (sb_group_version b)) (all_apis am))"
  "list_all (\<lambda>(m, b). tm_group_version_kind m = (sb_group_version b, tm_kind m)
      \<and> sb_types b = [tm_kind m, tm_kind m @ ''List'']) (all_apis am)"
  by (simp_all add: all_apis_def api_defs)

text \<open>
  Added to a scheme that takes everything, two of the five are missing: those of LDAP and OIDC.
\<close>

lemma AddToScheme_registers:
  "map (\<lambda>b. gv_group (sb_group_version b)) (snd (AddToScheme am (\<lambda>b s. (None, s @ [b])) []))
     = [''basic.authn.krateo.io'', ''oauth.authn.krateo.io'', ''serviceaccount.authn.krateo.io'']"
  by (simp add: AddToScheme_def AddToSchemes_def api_defs)

lemma AddToScheme_misses:
  "filter (\<lambda>(_, b). b \<notin> set (snd (AddToScheme am (\<lambda>b s. (None, s @ [b])) []))) (all_apis am)
     = [ldap_api am, oidc_api am]"
  by (simp add: AddToScheme_def AddToSchemes_def all_apis_def api_defs)

end
