(* ===== verification/DeepCopy.thy ===== *)
theory DeepCopy
  imports World "HOL-Library.State_Monad"
begin

text \<open>
  The generated deep copies (\<open>zz_generated.deepcopy.go\<close> of each API, and \<open>apis/core\<close>). Here the
  addresses count: an object is a struct whose pointers and slices carry the address of what they
  point to, beside the value found there, and a copy draws new addresses from a counter. The
  contract of a deep copy, \<open>deep\<close>: the same content, at addresses that are all new and all
  different.
\<close>

section \<open>Objects with addresses\<close>

type_synonym addr = nat

datatype 'a ptr = NilPtr | Ptr addr 'a

datatype 'a arr = NilSlice | Slice addr "'a list"

text \<open>The addresses reached; an array of no elements has no storage of its own.\<close>

fun ptr_addrs :: "('a \<Rightarrow> addr list) \<Rightarrow> 'a ptr \<Rightarrow> addr list" where
  "ptr_addrs A NilPtr = []"
| "ptr_addrs A (Ptr a x) = a # A x"

fun arr_addrs :: "('a \<Rightarrow> addr list) \<Rightarrow> 'a arr \<Rightarrow> addr list" where
  "arr_addrs A NilSlice = []"
| "arr_addrs A (Slice a xs) = (if xs = [] then [] else a # concat (map A xs))"

text \<open>The content: the object with every address forgotten. A nil slice is not an empty one.\<close>

fun strip_ptr :: "('a \<Rightarrow> 'a) \<Rightarrow> 'a ptr \<Rightarrow> 'a ptr" where
  "strip_ptr S NilPtr = NilPtr"
| "strip_ptr S (Ptr a x) = Ptr 0 (S x)"

fun strip_arr :: "('a \<Rightarrow> 'a) \<Rightarrow> 'a arr \<Rightarrow> 'a arr" where
  "strip_arr S NilSlice = NilSlice"
| "strip_arr S (Slice a xs) = Slice 0 (map S xs)"

section \<open>Copying\<close>

type_synonym 'a alloc = "(addr, 'a) state"

definition new_addr :: "addr alloc" where
  "new_addr = do { n \<leftarrow> State_Monad.get; _ \<leftarrow> State_Monad.set (Suc n); State_Monad.return n }"

text \<open>\<open>*out = *in\<close> of a struct that has neither pointers nor slices.\<close>

definition copy_flat :: "'a \<Rightarrow> 'a alloc" where
  "copy_flat x = State_Monad.return x"

text \<open>
  A pointer: nil, or \<open>new\<close> and a copy into it. That is \<open>DeepCopy\<close> of any type, and what
  \<open>DeepCopyInto\<close> does for a field that is a pointer. A slice: nil, or \<open>make\<close> of the same length
  and a copy of each element.
\<close>

fun copy_ptr :: "('a \<Rightarrow> 'a alloc) \<Rightarrow> 'a ptr \<Rightarrow> 'a ptr alloc" where
  "copy_ptr f NilPtr = State_Monad.return NilPtr"
| "copy_ptr f (Ptr _ x) = do { a \<leftarrow> new_addr; y \<leftarrow> f x; State_Monad.return (Ptr a y) }"

fun copy_arr :: "('a \<Rightarrow> 'a alloc) \<Rightarrow> 'a arr \<Rightarrow> 'a arr alloc" where
  "copy_arr f NilSlice = State_Monad.return NilSlice"
| "copy_arr f (Slice _ xs) =
     do { a \<leftarrow> new_addr; ys \<leftarrow> State_Monad.traverse_list f xs; State_Monad.return (Slice a ys) }"

text \<open>\<open>DeepCopyObject\<close>: a nil pointer becomes a nil interface, not an interface holding nil.\<close>

definition copy_object :: "('a ptr \<Rightarrow> 'a ptr alloc) \<Rightarrow> 'a ptr \<Rightarrow> 'a ptr option alloc" where
  "copy_object deep_copy p =
     do { c \<leftarrow> deep_copy p; State_Monad.return (if c \<noteq> NilPtr then Some c else None) }"

section \<open>The contract\<close>

definition fresh :: "addr \<Rightarrow> addr list \<Rightarrow> addr \<Rightarrow> bool" where
  "fresh n as n' \<longleftrightarrow> n \<le> n' \<and> distinct as \<and> set as \<subseteq> {n..<n'}"

lemma fresh_Nil [simp]: "fresh n [] n"
  by (simp add: fresh_def)

lemma fresh_append: "fresh n as m \<Longrightarrow> fresh m bs k \<Longrightarrow> fresh n (as @ bs) k"
  unfolding fresh_def by (auto 0 4)

lemma fresh_Cons: "fresh (Suc n) as m \<Longrightarrow> fresh n (n # as) m"
  unfolding fresh_def by auto

lemma fresh_unused: "n \<le> m \<Longrightarrow> fresh n [] m"
  by (simp add: fresh_def)

definition deep :: "('a \<Rightarrow> addr list) \<Rightarrow> ('a \<Rightarrow> 'a) \<Rightarrow> ('a \<Rightarrow> 'a alloc) \<Rightarrow> bool" where
  "deep A S f \<longleftrightarrow> (\<forall>x n. case run_state (f x) n of (y, n') \<Rightarrow> S y = S x \<and> fresh n (A y) n')"

lemma deepI:
  "(\<And>x n y n'. run_state (f x) n = (y, n') \<Longrightarrow> S y = S x \<and> fresh n (A y) n') \<Longrightarrow> deep A S f"
  by (auto simp: deep_def)

lemma deepD: "deep A S f \<Longrightarrow> run_state (f x) n = (y, n') \<Longrightarrow> S y = S x \<and> fresh n (A y) n'"
  unfolding deep_def by (drule spec [of _ x], drule spec [of _ n]) simp

lemma run_new_addr [simp]: "run_state new_addr n = (n, Suc n)"
  by (simp add: new_addr_def)

lemma deep_flat: "deep (\<lambda>_. []) (\<lambda>x. x) copy_flat"
  by (simp add: deep_def copy_flat_def)

lemma deep_ptr: "deep A S f \<Longrightarrow> deep (ptr_addrs A) (strip_ptr S) (copy_ptr f)"
proof (rule deepI)
  fix p n q n'
  assume d: "deep A S f" and r: "run_state (copy_ptr f p) n = (q, n')"
  show "strip_ptr S q = strip_ptr S p \<and> fresh n (ptr_addrs A q) n'"
  proof (cases p)
    case (Ptr b x)
    with r obtain y where "run_state (f x) (Suc n) = (y, n')" "q = Ptr n y"
      by (auto split: prod.splits)
    with deepD [OF d this(1)] Ptr show ?thesis by (simp add: fresh_Cons)
  qed (use r in simp)
qed

lemma deep_traverse:
  assumes "deep A S f" and "run_state (State_Monad.traverse_list f xs) n = (ys, n')"
  shows "map S ys = map S xs \<and> fresh n (concat (map A ys)) n'"
  using assms(2)
proof (induction xs arbitrary: n ys)
  case (Cons x xs)
  then obtain y m zs where "run_state (f x) n = (y, m)"
      "run_state (State_Monad.traverse_list f xs) m = (zs, n')" "ys = y # zs"
    by (auto split: prod.splits)
  with deepD [OF assms(1) this(1)] Cons.IH [OF this(2)] show ?case
    by (auto intro: fresh_append)
qed simp

lemma deep_arr: "deep A S f \<Longrightarrow> deep (arr_addrs A) (strip_arr S) (copy_arr f)"
proof (rule deepI)
  fix p n q n'
  assume d: "deep A S f" and r: "run_state (copy_arr f p) n = (q, n')"
  show "strip_arr S q = strip_arr S p \<and> fresh n (arr_addrs A q) n'"
  proof (cases p)
    case (Slice b xs)
    with r obtain ys where "run_state (State_Monad.traverse_list f xs) (Suc n) = (ys, n')" "q = Slice n ys"
      by (auto split: prod.splits)
    with deep_traverse [OF d this(1)] Slice show ?thesis
      by (auto simp: fresh_unused intro: fresh_Cons)
  qed (use r in simp)
qed

text \<open>
  What the contract is for: the copy shares no address with anything that was there before, nor
  with another copy, and no two of its own pointers are the same.
\<close>

locale deep_copyable =
  fixes addrs :: "'a \<Rightarrow> addr list"
    and strip :: "'a \<Rightarrow> 'a"
    and copy :: "'a \<Rightarrow> 'a alloc"
  assumes copies: "deep addrs strip copy"
begin

lemma same_content: "run_state (copy x) n = (y, n') \<Longrightarrow> strip y = strip x"
  using deepD [OF copies] by blast

lemma no_sharing:
  "run_state (copy x) n = (y, n') \<Longrightarrow> \<forall>a\<in>set old. a < n \<Longrightarrow> set (addrs y) \<inter> set old = {}"
  using deepD [OF copies, of x n y n'] by (force simp: fresh_def)

lemma two_copies:
  "run_state (copy x) n = (y, m) \<Longrightarrow> run_state (copy x) m = (z, k) \<Longrightarrow> distinct (addrs y @ addrs z)"
  using fresh_append deepD [OF copies, of x n y m] deepD [OF copies, of x m z k] by (metis fresh_def)

end

section \<open>Resources and lists of them\<close>

text \<open>
  The five resources have one shape: \<open>TypeMeta\<close>, two strings, \<open>ObjectMeta\<close> and a spec; a list has
  \<open>ListMeta\<close> and its items. The two metadata types are apimachinery's, and so are their copies:
  parameters.
\<close>

record ('m, 's) resource =
  rs_kind :: string
  rs_api_version :: string
  rs_meta :: 'm
  rs_spec :: 's

record ('l, 'm, 's) resource_list =
  rl_kind :: string
  rl_api_version :: string
  rl_meta :: 'l
  rl_items :: "('m, 's) resource arr"

definition resource_copy ::
  "('m \<Rightarrow> 'm alloc) \<Rightarrow> ('s \<Rightarrow> 's alloc)
     \<Rightarrow> ('m, 's) resource \<Rightarrow> ('m, 's) resource alloc" where
  "resource_copy meta spec x = do {
     m \<leftarrow> meta (rs_meta x);
     s \<leftarrow> spec (rs_spec x);
     State_Monad.return (x\<lparr>rs_meta := m, rs_spec := s\<rparr>) }"

definition resource_addrs ::
  "('m \<Rightarrow> addr list) \<Rightarrow> ('s \<Rightarrow> addr list)
     \<Rightarrow> ('m, 's) resource \<Rightarrow> addr list" where
  "resource_addrs M A x = M (rs_meta x) @ A (rs_spec x)"

definition resource_strip ::
  "('m \<Rightarrow> 'm) \<Rightarrow> ('s \<Rightarrow> 's)
     \<Rightarrow> ('m, 's) resource \<Rightarrow> ('m, 's) resource" where
  "resource_strip M S x = x\<lparr>rs_meta := M (rs_meta x), rs_spec := S (rs_spec x)\<rparr>"

definition resource_list_copy ::
  "('l \<Rightarrow> 'l alloc) \<Rightarrow> (('m, 's) resource
     \<Rightarrow> ('m, 's) resource alloc)
     \<Rightarrow> ('l, 'm, 's) resource_list \<Rightarrow> ('l, 'm, 's) resource_list alloc" where
  "resource_list_copy list_meta item x = do {
     m \<leftarrow> list_meta (rl_meta x);
     items \<leftarrow> copy_arr item (rl_items x);
     State_Monad.return (x\<lparr>rl_meta := m, rl_items := items\<rparr>) }"

definition resource_list_addrs ::
  "('l \<Rightarrow> addr list) \<Rightarrow> (('m, 's) resource
     \<Rightarrow> addr list) \<Rightarrow> ('l, 'm, 's) resource_list
     \<Rightarrow> addr list" where
  "resource_list_addrs M A x = M (rl_meta x) @ arr_addrs A (rl_items x)"

definition resource_list_strip ::
  "('l \<Rightarrow> 'l) \<Rightarrow> (('m, 's) resource \<Rightarrow> ('m, 's) resource)
     \<Rightarrow> ('l, 'm, 's) resource_list \<Rightarrow> ('l, 'm, 's) resource_list" where
  "resource_list_strip M S x = x\<lparr>rl_meta := M (rl_meta x),
     rl_items := strip_arr S (rl_items x)\<rparr>"

lemma resource_deep:
  assumes "deep MA MS meta" and "deep A S spec"
  shows "deep (resource_addrs MA A) (resource_strip MS S) (resource_copy meta spec)"
  unfolding resource_copy_def resource_addrs_def resource_strip_def
  by (intro deepI, clarsimp split: prod.splits dest!: assms [THEN deepD])
    (rule fresh_append)

lemma resource_list_deep:
  assumes "deep LA LS list_meta" and "deep A S item"
  shows "deep (resource_list_addrs LA A) (resource_list_strip LS S) (resource_list_copy list_meta item)"
  unfolding resource_list_copy_def resource_list_addrs_def resource_list_strip_def
  by (intro deepI, clarsimp split: prod.splits dest!: deepD [OF assms(1)] deepD [OF deep_arr [OF assms(2)]])
    (rule fresh_append)

section \<open>The selector of core\<close>

definition selector_copy :: "selector \<Rightarrow> selector alloc" where
  "selector_copy = copy_flat"

definition selector_deep_copy :: "selector ptr \<Rightarrow> selector ptr alloc" where
  "selector_deep_copy = copy_ptr selector_copy"

lemma selector_deep: "deep (ptr_addrs (\<lambda>_. [])) (strip_ptr (\<lambda>x. x)) selector_deep_copy"
  unfolding selector_deep_copy_def selector_copy_def by (rule deep_ptr [OF deep_flat])

section \<open>basic.User\<close>

text \<open>\<open>UserSpec\<close>.\<close>

record user_spec =
  bs_password_ref :: "selector ptr"
  bs_display_name :: string
  bs_avatar_url :: string
  bs_groups :: "string arr"

definition user_spec_copy :: "user_spec \<Rightarrow> user_spec alloc" where
  "user_spec_copy s = do {
     password_ref' \<leftarrow> selector_deep_copy (bs_password_ref s);
     groups' \<leftarrow> copy_arr copy_flat (bs_groups s);
     State_Monad.return (s\<lparr>bs_password_ref := password_ref', bs_groups := groups'\<rparr>) }"

definition user_spec_deep_copy :: "user_spec ptr \<Rightarrow> user_spec ptr alloc" where
  "user_spec_deep_copy = copy_ptr user_spec_copy"

definition user_spec_addrs :: "user_spec \<Rightarrow> addr list" where
  "user_spec_addrs s = ptr_addrs (\<lambda>_. []) (bs_password_ref s)
     @ arr_addrs (\<lambda>_. []) (bs_groups s)"

definition user_spec_strip :: "user_spec \<Rightarrow> user_spec" where
  "user_spec_strip s = s\<lparr>bs_password_ref := strip_ptr (\<lambda>x. x) (bs_password_ref s),
     bs_groups := strip_arr (\<lambda>x. x) (bs_groups s)\<rparr>"

lemma user_spec_deep: "deep user_spec_addrs user_spec_strip user_spec_copy"
  unfolding user_spec_copy_def user_spec_addrs_def user_spec_strip_def
  by (intro deepI, clarsimp split: prod.splits dest!: deepD [OF deep_arr [OF deep_flat]]
        deepD [OF selector_deep])
    ((rule fresh_append, assumption)+, assumption)

text \<open>The object and its list.\<close>

definition user_copy :: "('m \<Rightarrow> 'm alloc)
     \<Rightarrow> ('m, user_spec) resource \<Rightarrow> ('m, user_spec) resource alloc" where
  "user_copy meta = resource_copy meta user_spec_copy"

definition user_deep_copy ::
  "('m \<Rightarrow> 'm alloc) \<Rightarrow> ('m, user_spec) resource ptr
     \<Rightarrow> ('m, user_spec) resource ptr alloc" where
  "user_deep_copy meta = copy_ptr (user_copy meta)"

definition user_deep_copy_object ::
  "('m \<Rightarrow> 'm alloc) \<Rightarrow> ('m, user_spec) resource ptr
     \<Rightarrow> ('m, user_spec) resource ptr option alloc" where
  "user_deep_copy_object meta = copy_object (user_deep_copy meta)"

definition user_list_copy ::
  "('l \<Rightarrow> 'l alloc) \<Rightarrow> ('m \<Rightarrow> 'm alloc)
     \<Rightarrow> ('l, 'm, user_spec) resource_list
     \<Rightarrow> ('l, 'm, user_spec) resource_list alloc" where
  "user_list_copy list_meta meta = resource_list_copy list_meta (user_copy meta)"

definition user_list_deep_copy ::
  "('l \<Rightarrow> 'l alloc) \<Rightarrow> ('m \<Rightarrow> 'm alloc)
     \<Rightarrow> ('l, 'm, user_spec) resource_list ptr
     \<Rightarrow> ('l, 'm, user_spec) resource_list ptr alloc" where
  "user_list_deep_copy list_meta meta = copy_ptr (user_list_copy list_meta meta)"

definition user_list_deep_copy_object ::
  "('l \<Rightarrow> 'l alloc) \<Rightarrow> ('m \<Rightarrow> 'm alloc)
     \<Rightarrow> ('l, 'm, user_spec) resource_list ptr
     \<Rightarrow> ('l, 'm, user_spec) resource_list ptr option alloc" where
  "user_list_deep_copy_object list_meta meta = copy_object (user_list_deep_copy list_meta meta)"

section \<open>ServiceAccount\<close>

text \<open>\<open>ServiceAccountSpec\<close>.\<close>

record service_account_spec =
  vs_ref :: "obj_ref ptr"
  vs_groups :: "string arr"
  vs_display_name :: string

definition service_account_spec_copy :: "service_account_spec
     \<Rightarrow> service_account_spec alloc" where
  "service_account_spec_copy s = do {
     ref' \<leftarrow> copy_ptr copy_flat (vs_ref s);
     groups' \<leftarrow> copy_arr copy_flat (vs_groups s);
     State_Monad.return (s\<lparr>vs_ref := ref', vs_groups := groups'\<rparr>) }"

definition service_account_spec_deep_copy :: "service_account_spec ptr
     \<Rightarrow> service_account_spec ptr alloc" where
  "service_account_spec_deep_copy = copy_ptr service_account_spec_copy"

definition service_account_spec_addrs :: "service_account_spec \<Rightarrow> addr list" where
  "service_account_spec_addrs s = ptr_addrs (\<lambda>_. []) (vs_ref s)
     @ arr_addrs (\<lambda>_. []) (vs_groups s)"

definition service_account_spec_strip :: "service_account_spec
     \<Rightarrow> service_account_spec" where
  "service_account_spec_strip s = s\<lparr>vs_ref := strip_ptr (\<lambda>x. x) (vs_ref s),
     vs_groups := strip_arr (\<lambda>x. x) (vs_groups s)\<rparr>"

lemma service_account_spec_deep: "deep service_account_spec_addrs service_account_spec_strip service_account_spec_copy"
  unfolding service_account_spec_copy_def service_account_spec_addrs_def service_account_spec_strip_def
  by (intro deepI, clarsimp split: prod.splits dest!: deepD [OF deep_arr [OF deep_flat]]
        deepD [OF deep_ptr [OF deep_flat]])
    ((rule fresh_append, assumption)+, assumption)

text \<open>The object and its list.\<close>

definition service_account_copy :: "('m \<Rightarrow> 'm alloc)
     \<Rightarrow> ('m, service_account_spec) resource
     \<Rightarrow> ('m, service_account_spec) resource alloc" where
  "service_account_copy meta = resource_copy meta service_account_spec_copy"

definition service_account_deep_copy ::
  "('m \<Rightarrow> 'm alloc) \<Rightarrow> ('m, service_account_spec) resource ptr
     \<Rightarrow> ('m, service_account_spec) resource ptr alloc" where
  "service_account_deep_copy meta = copy_ptr (service_account_copy meta)"

definition service_account_deep_copy_object ::
  "('m \<Rightarrow> 'm alloc) \<Rightarrow> ('m, service_account_spec) resource ptr
     \<Rightarrow> ('m, service_account_spec) resource ptr option alloc" where
  "service_account_deep_copy_object meta = copy_object (service_account_deep_copy meta)"

definition service_account_list_copy ::
  "('l \<Rightarrow> 'l alloc) \<Rightarrow> ('m \<Rightarrow> 'm alloc)
     \<Rightarrow> ('l, 'm, service_account_spec) resource_list
     \<Rightarrow> ('l, 'm, service_account_spec) resource_list alloc" where
  "service_account_list_copy list_meta meta = resource_list_copy list_meta (service_account_copy meta)"

definition service_account_list_deep_copy ::
  "('l \<Rightarrow> 'l alloc) \<Rightarrow> ('m \<Rightarrow> 'm alloc)
     \<Rightarrow> ('l, 'm, service_account_spec) resource_list ptr
     \<Rightarrow> ('l, 'm, service_account_spec) resource_list ptr alloc" where
  "service_account_list_deep_copy list_meta meta = copy_ptr (service_account_list_copy list_meta meta)"

definition service_account_list_deep_copy_object ::
  "('l \<Rightarrow> 'l alloc) \<Rightarrow> ('m \<Rightarrow> 'm alloc)
     \<Rightarrow> ('l, 'm, service_account_spec) resource_list ptr
     \<Rightarrow> ('l, 'm, service_account_spec) resource_list ptr option alloc" where
  "service_account_list_deep_copy_object list_meta meta = copy_object (service_account_list_deep_copy list_meta meta)"

section \<open>LDAPConfig\<close>

text \<open>\<open>LDAPGroupSearch\<close> is flat.\<close>

definition group_search_copy :: "group_search \<Rightarrow> group_search alloc" where
  "group_search_copy = copy_flat"

definition group_search_deep_copy :: "group_search ptr \<Rightarrow> group_search ptr alloc" where
  "group_search_deep_copy = copy_ptr group_search_copy"

text \<open>\<open>LDAPConfigSpec\<close>.\<close>

record ldap_spec =
  ds_dial_url :: string
  ds_bind_dn :: "string ptr"
  ds_bind_secret :: "selector ptr"
  ds_base_dn :: string
  ds_tls :: "bool ptr"
  ds_group_search :: "group_search ptr"
  ds_graphics :: "graphics ptr"

definition ldap_spec_copy :: "ldap_spec \<Rightarrow> ldap_spec alloc" where
  "ldap_spec_copy s = do {
     bind_dn' \<leftarrow> copy_ptr copy_flat (ds_bind_dn s);
     bind_secret' \<leftarrow> selector_deep_copy (ds_bind_secret s);
     tls' \<leftarrow> copy_ptr copy_flat (ds_tls s);
     group_search' \<leftarrow> copy_ptr copy_flat (ds_group_search s);
     graphics' \<leftarrow> copy_ptr copy_flat (ds_graphics s);
     State_Monad.return (s\<lparr>ds_bind_dn := bind_dn', ds_bind_secret := bind_secret',
     ds_tls := tls', ds_group_search := group_search', ds_graphics := graphics'\<rparr>) }"

definition ldap_spec_deep_copy :: "ldap_spec ptr \<Rightarrow> ldap_spec ptr alloc" where
  "ldap_spec_deep_copy = copy_ptr ldap_spec_copy"

definition ldap_spec_addrs :: "ldap_spec \<Rightarrow> addr list" where
  "ldap_spec_addrs s = ptr_addrs (\<lambda>_. []) (ds_bind_dn s)
     @ ptr_addrs (\<lambda>_. []) (ds_bind_secret s) @ ptr_addrs (\<lambda>_. []) (ds_tls s)
     @ ptr_addrs (\<lambda>_. []) (ds_group_search s) @ ptr_addrs (\<lambda>_. []) (ds_graphics s)"

definition ldap_spec_strip :: "ldap_spec \<Rightarrow> ldap_spec" where
  "ldap_spec_strip s = s\<lparr>ds_bind_dn := strip_ptr (\<lambda>x. x) (ds_bind_dn s),
     ds_bind_secret := strip_ptr (\<lambda>x. x) (ds_bind_secret s),
     ds_tls := strip_ptr (\<lambda>x. x) (ds_tls s),
     ds_group_search := strip_ptr (\<lambda>x. x) (ds_group_search s),
     ds_graphics := strip_ptr (\<lambda>x. x) (ds_graphics s)\<rparr>"

lemma ldap_spec_deep: "deep ldap_spec_addrs ldap_spec_strip ldap_spec_copy"
  unfolding ldap_spec_copy_def ldap_spec_addrs_def ldap_spec_strip_def
  by (intro deepI, clarsimp split: prod.splits dest!: deepD [OF deep_ptr [OF deep_flat]]
        deepD [OF selector_deep])
    ((rule fresh_append, assumption)+, assumption)

text \<open>The object and its list.\<close>

definition ldap_config_copy :: "('m \<Rightarrow> 'm alloc)
     \<Rightarrow> ('m, ldap_spec) resource \<Rightarrow> ('m, ldap_spec) resource alloc" where
  "ldap_config_copy meta = resource_copy meta ldap_spec_copy"

definition ldap_config_deep_copy ::
  "('m \<Rightarrow> 'm alloc) \<Rightarrow> ('m, ldap_spec) resource ptr
     \<Rightarrow> ('m, ldap_spec) resource ptr alloc" where
  "ldap_config_deep_copy meta = copy_ptr (ldap_config_copy meta)"

definition ldap_config_deep_copy_object ::
  "('m \<Rightarrow> 'm alloc) \<Rightarrow> ('m, ldap_spec) resource ptr
     \<Rightarrow> ('m, ldap_spec) resource ptr option alloc" where
  "ldap_config_deep_copy_object meta = copy_object (ldap_config_deep_copy meta)"

definition ldap_config_list_copy ::
  "('l \<Rightarrow> 'l alloc) \<Rightarrow> ('m \<Rightarrow> 'm alloc)
     \<Rightarrow> ('l, 'm, ldap_spec) resource_list
     \<Rightarrow> ('l, 'm, ldap_spec) resource_list alloc" where
  "ldap_config_list_copy list_meta meta = resource_list_copy list_meta (ldap_config_copy meta)"

definition ldap_config_list_deep_copy ::
  "('l \<Rightarrow> 'l alloc) \<Rightarrow> ('m \<Rightarrow> 'm alloc)
     \<Rightarrow> ('l, 'm, ldap_spec) resource_list ptr
     \<Rightarrow> ('l, 'm, ldap_spec) resource_list ptr alloc" where
  "ldap_config_list_deep_copy list_meta meta = copy_ptr (ldap_config_list_copy list_meta meta)"

definition ldap_config_list_deep_copy_object ::
  "('l \<Rightarrow> 'l alloc) \<Rightarrow> ('m \<Rightarrow> 'm alloc)
     \<Rightarrow> ('l, 'm, ldap_spec) resource_list ptr
     \<Rightarrow> ('l, 'm, ldap_spec) resource_list ptr option alloc" where
  "ldap_config_list_deep_copy_object list_meta meta = copy_object (ldap_config_list_deep_copy list_meta meta)"

section \<open>OAuthConfig\<close>

text \<open>\<open>oauth.ConfigSpec\<close>, which \<open>OAuthConfigSpec\<close> embeds.\<close>

record oauth_base_spec =
  os_client_id :: string
  os_client_secret_ref :: "selector ptr"
  os_auth_url :: string
  os_token_url :: string
  os_auth_style :: "int ptr"
  os_redirect_url :: string
  os_scopes :: "string arr"

definition oauth_base_copy :: "oauth_base_spec \<Rightarrow> oauth_base_spec alloc" where
  "oauth_base_copy s = do {
     client_secret_ref' \<leftarrow> selector_deep_copy (os_client_secret_ref s);
     auth_style' \<leftarrow> copy_ptr copy_flat (os_auth_style s);
     scopes' \<leftarrow> copy_arr copy_flat (os_scopes s);
     State_Monad.return (s\<lparr>os_client_secret_ref := client_secret_ref',
     os_auth_style := auth_style', os_scopes := scopes'\<rparr>) }"

definition oauth_base_deep_copy :: "oauth_base_spec ptr
     \<Rightarrow> oauth_base_spec ptr alloc" where
  "oauth_base_deep_copy = copy_ptr oauth_base_copy"

definition oauth_base_addrs :: "oauth_base_spec \<Rightarrow> addr list" where
  "oauth_base_addrs s = ptr_addrs (\<lambda>_. []) (os_client_secret_ref s)
     @ ptr_addrs (\<lambda>_. []) (os_auth_style s) @ arr_addrs (\<lambda>_. []) (os_scopes s)"

definition oauth_base_strip :: "oauth_base_spec \<Rightarrow> oauth_base_spec" where
  "oauth_base_strip s = s\<lparr>os_client_secret_ref := strip_ptr (\<lambda>x. x) (os_client_secret_ref s),
     os_auth_style := strip_ptr (\<lambda>x. x) (os_auth_style s),
     os_scopes := strip_arr (\<lambda>x. x) (os_scopes s)\<rparr>"

lemma oauth_base_deep: "deep oauth_base_addrs oauth_base_strip oauth_base_copy"
  unfolding oauth_base_copy_def oauth_base_addrs_def oauth_base_strip_def
  by (intro deepI, clarsimp split: prod.splits dest!: deepD [OF deep_arr [OF deep_flat]]
        deepD [OF deep_ptr [OF deep_flat]]
        deepD [OF selector_deep])
    ((rule fresh_append, assumption)+, assumption)

text \<open>\<open>OAuthConfigSpec\<close>.\<close>

record oauth_spec =
  as_config :: oauth_base_spec
  as_rest_action_ref :: "obj_ref ptr"
  as_graphics :: "graphics ptr"

definition oauth_spec_copy :: "oauth_spec \<Rightarrow> oauth_spec alloc" where
  "oauth_spec_copy s = do {
     config' \<leftarrow> oauth_base_copy (as_config s);
     rest_action_ref' \<leftarrow> copy_ptr copy_flat (as_rest_action_ref s);
     graphics' \<leftarrow> copy_ptr copy_flat (as_graphics s);
     State_Monad.return (s\<lparr>as_config := config', as_rest_action_ref := rest_action_ref',
     as_graphics := graphics'\<rparr>) }"

definition oauth_spec_deep_copy :: "oauth_spec ptr \<Rightarrow> oauth_spec ptr alloc" where
  "oauth_spec_deep_copy = copy_ptr oauth_spec_copy"

definition oauth_spec_addrs :: "oauth_spec \<Rightarrow> addr list" where
  "oauth_spec_addrs s = oauth_base_addrs (as_config s)
     @ ptr_addrs (\<lambda>_. []) (as_rest_action_ref s)
     @ ptr_addrs (\<lambda>_. []) (as_graphics s)"

definition oauth_spec_strip :: "oauth_spec \<Rightarrow> oauth_spec" where
  "oauth_spec_strip s = s\<lparr>as_config := oauth_base_strip (as_config s),
     as_rest_action_ref := strip_ptr (\<lambda>x. x) (as_rest_action_ref s),
     as_graphics := strip_ptr (\<lambda>x. x) (as_graphics s)\<rparr>"

lemma oauth_spec_deep: "deep oauth_spec_addrs oauth_spec_strip oauth_spec_copy"
  unfolding oauth_spec_copy_def oauth_spec_addrs_def oauth_spec_strip_def
  by (intro deepI, clarsimp split: prod.splits dest!: deepD [OF deep_ptr [OF deep_flat]]
        deepD [OF oauth_base_deep])
    ((rule fresh_append, assumption)+, assumption)

text \<open>The object and its list.\<close>

definition oauth_config_copy :: "('m \<Rightarrow> 'm alloc)
     \<Rightarrow> ('m, oauth_spec) resource \<Rightarrow> ('m, oauth_spec) resource alloc" where
  "oauth_config_copy meta = resource_copy meta oauth_spec_copy"

definition oauth_config_deep_copy ::
  "('m \<Rightarrow> 'm alloc) \<Rightarrow> ('m, oauth_spec) resource ptr
     \<Rightarrow> ('m, oauth_spec) resource ptr alloc" where
  "oauth_config_deep_copy meta = copy_ptr (oauth_config_copy meta)"

definition oauth_config_deep_copy_object ::
  "('m \<Rightarrow> 'm alloc) \<Rightarrow> ('m, oauth_spec) resource ptr
     \<Rightarrow> ('m, oauth_spec) resource ptr option alloc" where
  "oauth_config_deep_copy_object meta = copy_object (oauth_config_deep_copy meta)"

definition oauth_config_list_copy ::
  "('l \<Rightarrow> 'l alloc) \<Rightarrow> ('m \<Rightarrow> 'm alloc)
     \<Rightarrow> ('l, 'm, oauth_spec) resource_list
     \<Rightarrow> ('l, 'm, oauth_spec) resource_list alloc" where
  "oauth_config_list_copy list_meta meta = resource_list_copy list_meta (oauth_config_copy meta)"

definition oauth_config_list_deep_copy ::
  "('l \<Rightarrow> 'l alloc) \<Rightarrow> ('m \<Rightarrow> 'm alloc)
     \<Rightarrow> ('l, 'm, oauth_spec) resource_list ptr
     \<Rightarrow> ('l, 'm, oauth_spec) resource_list ptr alloc" where
  "oauth_config_list_deep_copy list_meta meta = copy_ptr (oauth_config_list_copy list_meta meta)"

definition oauth_config_list_deep_copy_object ::
  "('l \<Rightarrow> 'l alloc) \<Rightarrow> ('m \<Rightarrow> 'm alloc)
     \<Rightarrow> ('l, 'm, oauth_spec) resource_list ptr
     \<Rightarrow> ('l, 'm, oauth_spec) resource_list ptr option alloc" where
  "oauth_config_list_deep_copy_object list_meta meta = copy_object (oauth_config_list_deep_copy list_meta meta)"

section \<open>OIDCConfig\<close>

text \<open>\<open>OIDCStepUp\<close>.\<close>

record step_up_obj =
  up_acr_values :: "string arr"
  up_max_age :: "duration ptr"
  up_ttl :: "duration ptr"

definition step_up_obj_copy :: "step_up_obj \<Rightarrow> step_up_obj alloc" where
  "step_up_obj_copy s = do {
     acr_values' \<leftarrow> copy_arr copy_flat (up_acr_values s);
     max_age' \<leftarrow> copy_ptr copy_flat (up_max_age s);
     ttl' \<leftarrow> copy_ptr copy_flat (up_ttl s);
     State_Monad.return (s\<lparr>up_acr_values := acr_values', up_max_age := max_age',
     up_ttl := ttl'\<rparr>) }"

definition step_up_obj_deep_copy :: "step_up_obj ptr \<Rightarrow> step_up_obj ptr alloc" where
  "step_up_obj_deep_copy = copy_ptr step_up_obj_copy"

definition step_up_obj_addrs :: "step_up_obj \<Rightarrow> addr list" where
  "step_up_obj_addrs s = arr_addrs (\<lambda>_. []) (up_acr_values s)
     @ ptr_addrs (\<lambda>_. []) (up_max_age s) @ ptr_addrs (\<lambda>_. []) (up_ttl s)"

definition step_up_obj_strip :: "step_up_obj \<Rightarrow> step_up_obj" where
  "step_up_obj_strip s = s\<lparr>up_acr_values := strip_arr (\<lambda>x. x) (up_acr_values s),
     up_max_age := strip_ptr (\<lambda>x. x) (up_max_age s),
     up_ttl := strip_ptr (\<lambda>x. x) (up_ttl s)\<rparr>"

lemma step_up_obj_deep: "deep step_up_obj_addrs step_up_obj_strip step_up_obj_copy"
  unfolding step_up_obj_copy_def step_up_obj_addrs_def step_up_obj_strip_def
  by (intro deepI, clarsimp split: prod.splits dest!: deepD [OF deep_arr [OF deep_flat]]
        deepD [OF deep_ptr [OF deep_flat]])
    ((rule fresh_append, assumption)+, assumption)

text \<open>\<open>OIDCConfigSpec\<close>.\<close>

record oidc_spec =
  ks_discovery_url :: string
  ks_issuer :: string
  ks_authorization_url :: string
  ks_token_url :: string
  ks_user_info_url :: string
  ks_redirect_uri :: string
  ks_client_id :: string
  ks_client_secret :: "selector ptr"
  ks_additional_scopes :: string
  ks_allowed_groups :: "string arr"
  ks_step_up :: "step_up_obj ptr"
  ks_rest_action_ref :: "obj_ref ptr"
  ks_graphics :: "graphics ptr"

definition oidc_spec_copy :: "oidc_spec \<Rightarrow> oidc_spec alloc" where
  "oidc_spec_copy s = do {
     client_secret' \<leftarrow> selector_deep_copy (ks_client_secret s);
     allowed_groups' \<leftarrow> copy_arr copy_flat (ks_allowed_groups s);
     step_up' \<leftarrow> copy_ptr step_up_obj_copy (ks_step_up s);
     rest_action_ref' \<leftarrow> copy_ptr copy_flat (ks_rest_action_ref s);
     graphics' \<leftarrow> copy_ptr copy_flat (ks_graphics s);
     State_Monad.return (s\<lparr>ks_client_secret := client_secret',
     ks_allowed_groups := allowed_groups', ks_step_up := step_up',
     ks_rest_action_ref := rest_action_ref', ks_graphics := graphics'\<rparr>) }"

definition oidc_spec_deep_copy :: "oidc_spec ptr \<Rightarrow> oidc_spec ptr alloc" where
  "oidc_spec_deep_copy = copy_ptr oidc_spec_copy"

definition oidc_spec_addrs :: "oidc_spec \<Rightarrow> addr list" where
  "oidc_spec_addrs s = ptr_addrs (\<lambda>_. []) (ks_client_secret s)
     @ arr_addrs (\<lambda>_. []) (ks_allowed_groups s)
     @ ptr_addrs step_up_obj_addrs (ks_step_up s)
     @ ptr_addrs (\<lambda>_. []) (ks_rest_action_ref s)
     @ ptr_addrs (\<lambda>_. []) (ks_graphics s)"

definition oidc_spec_strip :: "oidc_spec \<Rightarrow> oidc_spec" where
  "oidc_spec_strip s = s\<lparr>ks_client_secret := strip_ptr (\<lambda>x. x) (ks_client_secret s),
     ks_allowed_groups := strip_arr (\<lambda>x. x) (ks_allowed_groups s),
     ks_step_up := strip_ptr step_up_obj_strip (ks_step_up s),
     ks_rest_action_ref := strip_ptr (\<lambda>x. x) (ks_rest_action_ref s),
     ks_graphics := strip_ptr (\<lambda>x. x) (ks_graphics s)\<rparr>"

lemma oidc_spec_deep: "deep oidc_spec_addrs oidc_spec_strip oidc_spec_copy"
  unfolding oidc_spec_copy_def oidc_spec_addrs_def oidc_spec_strip_def
  by (intro deepI, clarsimp split: prod.splits dest!: deepD [OF deep_arr [OF deep_flat]]
        deepD [OF deep_ptr [OF deep_flat]]
        deepD [OF deep_ptr [OF step_up_obj_deep]]
        deepD [OF selector_deep])
    ((rule fresh_append, assumption)+, assumption)

text \<open>The object and its list.\<close>

definition oidc_config_copy :: "('m \<Rightarrow> 'm alloc)
     \<Rightarrow> ('m, oidc_spec) resource \<Rightarrow> ('m, oidc_spec) resource alloc" where
  "oidc_config_copy meta = resource_copy meta oidc_spec_copy"

definition oidc_config_deep_copy ::
  "('m \<Rightarrow> 'm alloc) \<Rightarrow> ('m, oidc_spec) resource ptr
     \<Rightarrow> ('m, oidc_spec) resource ptr alloc" where
  "oidc_config_deep_copy meta = copy_ptr (oidc_config_copy meta)"

definition oidc_config_deep_copy_object ::
  "('m \<Rightarrow> 'm alloc) \<Rightarrow> ('m, oidc_spec) resource ptr
     \<Rightarrow> ('m, oidc_spec) resource ptr option alloc" where
  "oidc_config_deep_copy_object meta = copy_object (oidc_config_deep_copy meta)"

definition oidc_config_list_copy ::
  "('l \<Rightarrow> 'l alloc) \<Rightarrow> ('m \<Rightarrow> 'm alloc)
     \<Rightarrow> ('l, 'm, oidc_spec) resource_list
     \<Rightarrow> ('l, 'm, oidc_spec) resource_list alloc" where
  "oidc_config_list_copy list_meta meta = resource_list_copy list_meta (oidc_config_copy meta)"

definition oidc_config_list_deep_copy ::
  "('l \<Rightarrow> 'l alloc) \<Rightarrow> ('m \<Rightarrow> 'm alloc)
     \<Rightarrow> ('l, 'm, oidc_spec) resource_list ptr
     \<Rightarrow> ('l, 'm, oidc_spec) resource_list ptr alloc" where
  "oidc_config_list_deep_copy list_meta meta = copy_ptr (oidc_config_list_copy list_meta meta)"

definition oidc_config_list_deep_copy_object ::
  "('l \<Rightarrow> 'l alloc) \<Rightarrow> ('m \<Rightarrow> 'm alloc)
     \<Rightarrow> ('l, 'm, oidc_spec) resource_list ptr
     \<Rightarrow> ('l, 'm, oidc_spec) resource_list ptr option alloc" where
  "oidc_config_list_deep_copy_object list_meta meta = copy_object (oidc_config_list_deep_copy list_meta meta)"

text \<open>\<open>TokenResponse\<close> is flat.\<close>

record oidc_token_response =
  tk_access_token :: string
  tk_token_type :: string
  tk_expires_in :: int
  tk_scope :: string
  tk_id_token :: string

definition oidc_token_response_copy :: "oidc_token_response \<Rightarrow> oidc_token_response alloc" where
  "oidc_token_response_copy = copy_flat"

definition oidc_token_response_deep_copy :: "oidc_token_response ptr
     \<Rightarrow> oidc_token_response ptr alloc" where
  "oidc_token_response_deep_copy = copy_ptr oidc_token_response_copy"

section \<open>The specs are deep copied\<close>

interpretation user_copies: deep_copyable user_spec_addrs user_spec_strip user_spec_copy
  by unfold_locales (rule user_spec_deep)

interpretation service_account_copies:
  deep_copyable service_account_spec_addrs service_account_spec_strip service_account_spec_copy
  by unfold_locales (rule service_account_spec_deep)

interpretation ldap_copies: deep_copyable ldap_spec_addrs ldap_spec_strip ldap_spec_copy
  by unfold_locales (rule ldap_spec_deep)

interpretation oauth_copies: deep_copyable oauth_spec_addrs oauth_spec_strip oauth_spec_copy
  by unfold_locales (rule oauth_spec_deep)

interpretation oidc_copies: deep_copyable oidc_spec_addrs oidc_spec_strip oidc_spec_copy
  by unfold_locales (rule oidc_spec_deep)

text \<open>
  And so are the objects and their lists, whenever apimachinery copies its metadata deeply, as its
  documentation says.
\<close>

lemma object_copies:
  assumes "deep MA MS meta"
  shows "deep (resource_addrs MA user_spec_addrs) (resource_strip MS user_spec_strip) (user_copy meta)"
    and "deep (resource_addrs MA service_account_spec_addrs) (resource_strip MS service_account_spec_strip)
           (service_account_copy meta)"
    and "deep (resource_addrs MA ldap_spec_addrs) (resource_strip MS ldap_spec_strip) (ldap_config_copy meta)"
    and "deep (resource_addrs MA oauth_spec_addrs) (resource_strip MS oauth_spec_strip) (oauth_config_copy meta)"
    and "deep (resource_addrs MA oidc_spec_addrs) (resource_strip MS oidc_spec_strip) (oidc_config_copy meta)"
  unfolding user_copy_def service_account_copy_def ldap_config_copy_def oauth_config_copy_def
    oidc_config_copy_def
  by (rule resource_deep [OF assms], rule user_spec_deep service_account_spec_deep ldap_spec_deep
      oauth_spec_deep oidc_spec_deep)+

lemma list_copies:
  assumes "deep LA LS list_meta" and "deep MA MS meta"
  shows "deep (resource_list_addrs LA (resource_addrs MA user_spec_addrs))
           (resource_list_strip LS (resource_strip MS user_spec_strip)) (user_list_copy list_meta meta)"
    and "deep (resource_list_addrs LA (resource_addrs MA service_account_spec_addrs))
           (resource_list_strip LS (resource_strip MS service_account_spec_strip))
           (service_account_list_copy list_meta meta)"
    and "deep (resource_list_addrs LA (resource_addrs MA ldap_spec_addrs))
           (resource_list_strip LS (resource_strip MS ldap_spec_strip)) (ldap_config_list_copy list_meta meta)"
    and "deep (resource_list_addrs LA (resource_addrs MA oauth_spec_addrs))
           (resource_list_strip LS (resource_strip MS oauth_spec_strip)) (oauth_config_list_copy list_meta meta)"
    and "deep (resource_list_addrs LA (resource_addrs MA oidc_spec_addrs))
           (resource_list_strip LS (resource_strip MS oidc_spec_strip)) (oidc_config_list_copy list_meta meta)"
  unfolding user_list_copy_def service_account_list_copy_def ldap_config_list_copy_def
    oauth_config_list_copy_def oidc_config_list_copy_def
  by (rule resource_list_deep [OF assms(1)], rule object_copies [OF assms(2)])+

lemma copy_object_nil [simp]: "run_state (copy_object (copy_ptr f) NilPtr) n = (None, n)"
  by (simp add: copy_object_def)

lemma copy_object_some: "\<exists>c n'. run_state (copy_object (copy_ptr f) (Ptr a x)) n = (Some c, n')"
  by (auto simp: copy_object_def split: prod.splits)

section \<open>What the rest of the development reads\<close>

text \<open>
  The records of World are these objects as values: a pointer is what it points to, a nil slice
  has no elements. A copy reads the same.
\<close>

fun ptr_value :: "'a ptr \<Rightarrow> 'a option" where
  "ptr_value NilPtr = None"
| "ptr_value (Ptr _ x) = Some x"

fun arr_value :: "'a arr \<Rightarrow> 'a list" where
  "arr_value NilSlice = []"
| "arr_value (Slice _ xs) = xs"

definition user_view :: "string \<Rightarrow> user_spec \<Rightarrow> user_cr" where
  "user_view name s =
     \<lparr>cr_name = name, cr_password_ref = ptr_value (bs_password_ref s),
      cr_display_name = bs_display_name s, cr_avatar_url = bs_avatar_url s, cr_groups = arr_value (bs_groups s)\<rparr>"

definition service_account_view :: "string \<Rightarrow> service_account_spec \<Rightarrow> sa_cr" where
  "service_account_view name s =
     \<lparr>sa_name = name, sa_ref = ptr_value (vs_ref s), sa_groups = arr_value (vs_groups s),
      sa_display_name = vs_display_name s\<rparr>"

definition ldap_view :: "string \<Rightarrow> ldap_spec \<Rightarrow> ldap_cr" where
  "ldap_view name s =
     \<lparr>lc_name = name, lc_dial_url = ds_dial_url s, lc_bind_dn = ptr_value (ds_bind_dn s),
      lc_bind_secret = ptr_value (ds_bind_secret s), lc_base_dn = ds_base_dn s, lc_tls = ptr_value (ds_tls s),
      lc_group_search = ptr_value (ds_group_search s), lc_graphics = ptr_value (ds_graphics s)\<rparr>"

definition step_up_view :: "step_up_obj \<Rightarrow> step_up_spec" where
  "step_up_view s =
     \<lparr>sp_acr_values = arr_value (up_acr_values s), sp_max_age = ptr_value (up_max_age s),
      sp_ttl = ptr_value (up_ttl s)\<rparr>"

definition oidc_view :: "string \<Rightarrow> oidc_spec \<Rightarrow> oidc_cr" where
  "oidc_view name s =
     \<lparr>oc_name = name, oc_discovery_url = ks_discovery_url s, oc_issuer = ks_issuer s,
      oc_authorization_url = ks_authorization_url s, oc_token_url = ks_token_url s,
      oc_user_info_url = ks_user_info_url s, oc_redirect_uri = ks_redirect_uri s,
      oc_client_id = ks_client_id s, oc_client_secret = ptr_value (ks_client_secret s),
      oc_additional_scopes = ks_additional_scopes s, oc_allowed_groups = arr_value (ks_allowed_groups s),
      oc_step_up = map_option step_up_view (ptr_value (ks_step_up s)),
      oc_rest_action_ref = ptr_value (ks_rest_action_ref s), oc_graphics = ptr_value (ks_graphics s)\<rparr>"

lemma strip_values [simp]:
  "ptr_value (strip_ptr S p) = map_option S (ptr_value p)" "arr_value (strip_arr S a) = map S (arr_value a)"
  by (cases p, simp_all) (cases a, simp_all)

lemma step_up_view_of_content: "step_up_view (step_up_obj_strip s) = step_up_view s"
  by (simp add: step_up_view_def step_up_obj_strip_def option.map_ident)

lemma views_of_content:
  "user_view name (user_spec_strip u) = user_view name u"
  "service_account_view name (service_account_spec_strip v) = service_account_view name v"
  "ldap_view name (ldap_spec_strip l) = ldap_view name l"
  "oidc_view name (oidc_spec_strip c) = oidc_view name c"
  by (simp_all add: user_view_def user_spec_strip_def service_account_view_def service_account_spec_strip_def
      ldap_view_def ldap_spec_strip_def oidc_view_def oidc_spec_strip_def
      step_up_view_of_content option.map_comp o_def option.map_ident)

theorem copies_read_the_same:
  "user_view name (fst (run_state (user_spec_copy u) n)) = user_view name u"
  "service_account_view name (fst (run_state (service_account_spec_copy v) n)) = service_account_view name v"
  "ldap_view name (fst (run_state (ldap_spec_copy l) n)) = ldap_view name l"
  "oidc_view name (fst (run_state (oidc_spec_copy c) n)) = oidc_view name c"
  by (metis prod.collapse views_of_content user_copies.same_content service_account_copies.same_content
      ldap_copies.same_content oidc_copies.same_content)+

end
