(* ===== verification/Spec2Isabelle.thy ===== *)
theory Spec2Isabelle
  imports Service Cluster Concurrent Sha256Encoder Shortid Extensions Registration DeepCopy
begin

text \<open>
  authn, the authentication service of Krateo (src/go/authn): a verification development.

  The program. authn turns a login (a password, an LDAP bind, an OAuth or OIDC authorization
  code, a ServiceAccount token) into two credentials: a client certificate for the Kubernetes
  apiserver, minted through a CertificateSigningRequest and stored with its key in the Secret
  \<open><user>-clientconfig\<close>, and a signed token. An OIDC login that proves a higher assurance can
  step up: it gets a short-lived second certificate with a reserved group, in the Secret
  \<open><user>-clientconfig-stepup\<close>. In the background one replica renews authn's own
  certificate, stamps annotations onto old Secrets and sweeps expired step-up Secrets.

  The method. Every function is an Isabelle function of the same shape, threading explicitly
  what it changes: the response writer, the generator (which caches the cluster CA) and a
  history. The world (apiserver, IdP, LDAP server, clock, randomness, and the libraries that
  are not under src/) is a parameter: a record of answers (World.world), each of which may
  depend on everything asked before. Each call to it appends an event to the history, so that
  what a handler did is the list of calls it added, and a safety property is a statement about
  that list for every world. Only the properties of Cluster and Concurrent assume something of the
  world: that its Secrets behave as the apiserver documents. They, and the other properties with
  hypotheses (a threshold that is a fraction, a clock that does not step back, distinct JSON
  keys), come with a theorem that applies them at a concrete input. Errors are values of a sum
  (\<open>Inl\<close> the error), with the chain that \<open>errors.As\<close> and \<open>errors.Is\<close> walk (GoError); a panic is
  \<open>None\<close>. Instants and durations are integers with Go's int64 saturation and wrap-around
  written out, and \<open>float64\<close> products are computed with their rounding (GoTime). Strings are
  byte strings; UTF-8 decoding and Unicode white space are modelled (GoString), Unicode case
  mapping beyond ASCII is the world's. Logging is left out of the handlers.

  The theories, in the order they build on each other, and the code they model.

  Prelude, GoString, GoTime, GoError, GoHttp, GoUrl: what the program uses of Go. Messages with
  quoting verbs, package strings, time, errors, net/http (canonical header keys, the response
  writer, whose header is frozen by its first \<open>WriteHeader\<close>) and net/url, encoding/json.

  Status (internal/status): the status bodies, their causes, \<open>FromError\<close> and what is logged.
  UserInfo (internal/helpers/userinfo): identities, and the guard that strips groups with the
  reserved prefix from whatever a source asserts. World: the custom resources of apis/, the
  calls and the operator namespace (internal/helpers/kube/util).

  Certs (internal/helpers/kube/certs.go, certinfo.go), Storage (kube/config/storage), Issue
  (kube/config): the CSR, the Secret with its annotations, and the generator that mints, stores
  and returns a kubeconfig. Two locales are their interfaces: \<open>auth_info_storage\<close>, the contract
  of \<open>Put\<close>, interpreted on \<open>store_put\<close>; and \<open>credential_issuer\<close>, the contract the login
  routes rely on (identities that fail the group check are refused before anything is done;
  an issuance makes only its own calls and writes only the Secret of its user and kind),
  interpreted on \<open>generate\<close> and on \<open>generate_step_up\<close>.

  Encode (internal/helpers/encode): the answers and the lifetime of the token. Resolvers
  (kube/resolvers, kube/secrets): reads of the custom resources, OIDC discovery. Decode
  (internal/helpers/decode). Login: the tail the user logins share, \<open>session_answer\<close>; its lemmas
  are proved in the locale \<open>session_issuer_client\<close>, which extends \<open>credential_issuer\<close>.

  BasicLogin, ServiceAccountLogin, Ldap, RestAction with Profile, OAuth, OidcToken, Oidc
  (internal/routes/auth, internal/helpers/restaction, codeexchange): one theory per login, with
  the whole handler. Each ends with the theorem that nothing is issued and no credential is
  answered unless that login's evidence was given, and that what is issued is for that identity.

  Routes, Jwks, Strategies, Cors, Server (internal/routes, internal/middlewares/cors, routes.go,
  main.go's handler chain): the dispatcher, the public routes, the middleware, and the nine
  routes put together, with the two theorems about the surface as a whole.

  CertRenewal (internal/certrenewal), Sweep (internal/stepupsweep), Backfill
  (internal/identitybackfill): the background work, each with the theorem that bounds what it
  may write. The locale \<open>identity_lookup\<close> is Backfill's Lookup interface, interpreted on the
  cluster's resolvers.

  Shortid (internal/shortid), Isaac64 and Uuid (internal/uuid), Sha256Encoder
  (internal/routes/auth/ldap/encoders): the pure code. Short ids name the issued certificates;
  the alphabet is a list of runes, the generator a record of the last millisecond and counter,
  and every call of a run is given its clock reading and random bytes. ISAAC-64 works on 64-bit
  words and updates its two arrays by index, as the code does, and is compared with the
  published algorithm; it interprets \<open>source64\<close>, the locale of the \<open>rand.Source64\<close> interface the
  code declares it implements. UUIDs are byte lists over \<open>8 word\<close>. No route uses the password
  encoder.

  Env, Telemetry, Leader (internal/env, internal/telemetry, internal/helpers/outbound,
  internal/leader) and Program (main.go): settings from flags and environment with the parsers
  behind them, the telemetry gates and what they register, the campaign for the Lease, and the
  program that puts all of it together: startup, handler chain, own-identity work, shutdown.

  Service: authn over time. Replicas are booted and halted, serve requests and lead, several of
  them at once if need be; they share the world's history only. Its two theorems hold in every
  run: each event's calls are accounted for by a login, the leader's work or the signing of
  authn's own token, and without a post to the step-up route no token with a reserved group is
  signed. \<open>well_booted\<close>, the invariant they rest on, says that a running replica serves the nine
  routes of its own configuration.

  Extensions, DeepCopy and Registration: the parts that alias or only register. The extensions
  \<open>Clone\<close> answers are slices over one shared array (Extensions). The custom resources are objects
  that hold the addresses of what they point to (DeepCopy); the locale \<open>deep_copyable\<close> says that
  a copy reads as its original and points at fresh addresses only, and is interpreted on the
  generated \<open>DeepCopyInto\<close> of each resource. Registration (apis/) holds the metadata of the five kinds and
  what each package adds to a scheme.

  Cluster: the Secrets of the cluster as a map, for an apiserver that keeps its documented word
  (\<open>keeps_secrets\<close>), with what \<open>Put\<close> and the sweep come to on that map; \<open>with_secrets\<close> is a world
  that satisfies it. Concurrent: the same Secrets when others write them between any two calls of a
  process. The locale \<open>shared_secrets\<close> is the apiserver's optimistic concurrency (a UID and a
  resourceVersion name one state of an object), and \<open>among_others\<close> replays an apiserver that keeps
  it, for any moves of the others. Under it the sweep takes away only what had expired, even when
  a login writes meanwhile; whatever the schedule of the leader's passes, their annotations land on
  the Secret as it is stored; \<open>Put\<close> is atomic; and \<open>Put\<close> fails when the Secret is swept between its two calls.

  What the groups of lemmas show. The \<open>_calls\<close> and \<open>_quiet\<close> lemmas bound what a function adds
  to the history; the \<open>_ok\<close> lemmas say what must have happened for it to succeed; the \<open>_once\<close>
  and \<open>_bodies\<close> lemmas describe what the response writer holds. \<open>extends P h h'\<close> is the first
  kind in general, and \<open>steps_from\<close> its refinement where a call is judged by the history before
  it. Round trips: the groups annotation, the ServiceAccount username, the header list, the
  published key, UUIDs, password hashes, integers as text. Bounds: the token's lifetime never
  outlives the certificate, the renewal point lies inside the certificate's validity, whatever
  the two \<open>float64\<close> roundings do, and settings stay in the range of their type. Equivalence: the
  unrolled ISAAC-64 loop and the reference; the handler chain with and without telemetry.
  Refinement: \<open>Put\<close> and the update of a map, alone and among other writers. Liveness: a clean sweep leaves no expired step-up
  Secret. Termination: the leader's loop ends when its context does, the shuffle of the alphabet
  always.

  Fuel. The loop over PEM blocks (Certs.parse_pem) takes one more than the data's length, which
  is enough since every block consumes some (\<open>parse_pem_enough\<close>). The two endless loops, of the
  renewer and the sweep, are run for a given number of ticks, and the leader runs them for any
  schedule of turns; the campaign for the Lease is a partial function whose \<open>None\<close> is not
  returning. Every other recursion is structural or has its termination proof.

  Not modelled. The OpenTelemetry SDK, client-go's elector, apimachinery's metadata and scheme,
  \<open>flag.Parse\<close> and \<open>strconv.ParseFloat\<close> are parameters: what they answer, in any way, is an
  argument. Go's scheduler is not modelled: in Service the replicas interleave request by request
  and pass by pass, not call by call, as do the two loops of the leader, and the shared counter of
  the short ids, which a mutex guards, is stepped one call at a time. A world may answer each call
  in any way, so what is shown of one handler for every world does not depend on what others do
  between its calls; what Cluster shows of the Secrets as a map does, and Concurrent shows what
  holds of them call by call. The HTTP server is the record
  of its address and timeouts (\<open>http_server_of\<close>); its listener and the signals that stop it are
  parameters.
\<close>

end
